theory Spec2Isabelle
  imports Main "HOL-Library.Word" "HOL-Library.Log_Nat"
begin

section \<open>C doubles\<close>

text \<open>
  The integrator computes on C \<^verbatim>\<open>double\<close>s. They are modelled as IEEE-754 binary64
  values with round-to-nearest, ties-to-even: a finite value is a sign and a
  non-negative rational magnitude (so that \<open>-0\<close> and \<open>+0\<close> are distinct), and every
  arithmetic operation computes the exact rational result and rounds it with
  \<open>round64\<close>. Expressions are evaluated in double precision, one rounding per
  operation, in the order in which C parses them.
\<close>

datatype double = NaN | Inf bool | Fin bool rat

definition pow2 :: "int \<Rightarrow> rat" where
  "pow2 k = (if 0 \<le> k then 2 ^ nat k else 1 / 2 ^ nat (- k))"

text \<open>Round a rational to the nearest integer, ties to even.\<close>

definition rne :: "rat \<Rightarrow> int" where
  "rne q = (let f = \<lfloor>q\<rfloor>; r = q - of_int f
            in if r < 1 / 2 then f
               else if 1 / 2 < r then f + 1
               else if even f then f else f + 1)"

text \<open>The binary exponent \<open>\<lfloor>log\<^sub>2 x\<rfloor>\<close> of a positive rational.\<close>

definition ilog2 :: "rat \<Rightarrow> int" where
  "ilog2 x = (let (p, q) = quotient_of x;
                  k = int (floorlog 2 (nat p)) - int (floorlog 2 (nat q))
              in if pow2 k \<le> x then k else k - 1)"

text \<open>
  Rounding of a magnitude \<open>x \<ge> 0\<close> with sign \<open>sg\<close>: 53 significant bits, exponents
  from \<open>-1022\<close> (below that the spacing stays \<open>2\<^sup>-\<^sup>1\<^sup>0\<^sup>7\<^sup>4\<close>: subnormals), overflow to
  infinity.
\<close>

definition round64 :: "bool \<Rightarrow> rat \<Rightarrow> double" where
  "round64 sg x =
     (if x = 0 then Fin sg 0
      else let ex = max (ilog2 x) (- 1022);
               u = pow2 (ex - 52);
               y = of_int (rne (x / u)) * u
           in if pow2 1024 \<le> y then Inf sg else Fin sg y)"

text \<open>A decimal literal of the source, and the conversion of an \<^verbatim>\<open>int\<close>.\<close>

definition lit :: "rat \<Rightarrow> double" where
  "lit x = (if x < 0 then round64 True (- x) else round64 False x)"

definition i2d :: "int \<Rightarrow> double" where
  "i2d n = lit (of_int n)"

definition sval :: "bool \<Rightarrow> rat \<Rightarrow> rat" where
  "sval sg m = (if sg then - m else m)"

fun dadd :: "double \<Rightarrow> double \<Rightarrow> double" where
  "dadd NaN _ = NaN"
| "dadd _ NaN = NaN"
| "dadd (Inf a) (Inf b) = (if a = b then Inf a else NaN)"
| "dadd (Inf a) (Fin _ _) = Inf a"
| "dadd (Fin _ _) (Inf b) = Inf b"
| "dadd (Fin a m) (Fin b n) =
     (let v = sval a m + sval b n in if v = 0 then Fin (a \<and> b) 0 else lit v)"

fun dneg :: "double \<Rightarrow> double" where
  "dneg NaN = NaN"
| "dneg (Inf a) = Inf (\<not> a)"
| "dneg (Fin a m) = Fin (\<not> a) m"

fun dmul :: "double \<Rightarrow> double \<Rightarrow> double" where
  "dmul NaN _ = NaN"
| "dmul _ NaN = NaN"
| "dmul (Inf a) (Inf b) = Inf (a \<noteq> b)"
| "dmul (Inf a) (Fin b n) = (if n = 0 then NaN else Inf (a \<noteq> b))"
| "dmul (Fin a m) (Inf b) = (if m = 0 then NaN else Inf (a \<noteq> b))"
| "dmul (Fin a m) (Fin b n) = round64 (a \<noteq> b) (m * n)"

fun ddiv :: "double \<Rightarrow> double \<Rightarrow> double" where
  "ddiv NaN _ = NaN"
| "ddiv _ NaN = NaN"
| "ddiv (Inf a) (Inf b) = NaN"
| "ddiv (Inf a) (Fin b n) = Inf (a \<noteq> b)"
| "ddiv (Fin a m) (Inf b) = Fin (a \<noteq> b) 0"
| "ddiv (Fin a m) (Fin b n) =
     (if n = 0 then (if m = 0 then NaN else Inf (a \<noteq> b))
      else round64 (a \<noteq> b) (m / n))"

fun dless :: "double \<Rightarrow> double \<Rightarrow> bool" where
  "dless NaN _ = False"
| "dless _ NaN = False"
| "dless (Inf a) (Inf b) = (a \<and> \<not> b)"
| "dless (Inf a) (Fin _ _) = a"
| "dless (Fin _ _) (Inf b) = (\<not> b)"
| "dless (Fin a m) (Fin b n) = (sval a m < sval b n)"

fun dle :: "double \<Rightarrow> double \<Rightarrow> bool" where
  "dle NaN _ = False"
| "dle _ NaN = False"
| "dle (Inf a) (Inf b) = (a \<or> \<not> b)"
| "dle (Inf a) (Fin _ _) = a"
| "dle (Fin _ _) (Inf b) = (\<not> b)"
| "dle (Fin a m) (Fin b n) = (sval a m \<le> sval b n)"

fun fabs :: "double \<Rightarrow> double" where
  "fabs NaN = NaN"
| "fabs (Inf _) = Inf False"
| "fabs (Fin _ m) = Fin False m"

text \<open>\<^verbatim>\<open>isnormal\<close>: finite, not zero and not subnormal.\<close>

fun isnormal :: "double \<Rightarrow> bool" where
  "isnormal (Fin _ m) = (pow2 (- 1022) \<le> m)"
| "isnormal _ = False"

fun dfloor :: "double \<Rightarrow> double" where
  "dfloor (Fin a m) = (let f = \<lfloor>sval a m\<rfloor> in if f = 0 then Fin a 0 else i2d f)"
| "dfloor x = x"

text \<open>
  The conversion of a double to a 32-bit \<^verbatim>\<open>int\<close> truncates toward zero. Outside the
  range of \<^verbatim>\<open>int\<close> (and at NaN and the infinities) C leaves the result undefined;
  \<open>ub\<close> stands for what the implementation yields there.
\<close>

fun d2i :: "(double \<Rightarrow> int) \<Rightarrow> double \<Rightarrow> int" where
  "d2i ub (Fin a m) =
     (let v = (if a then - \<lfloor>m\<rfloor> else \<lfloor>m\<rfloor>)
      in if - 2147483648 \<le> v \<and> v \<le> 2147483647 then v else ub (Fin a m))"
| "d2i ub x = ub x"

instantiation double :: "{zero, one, plus, minus, uminus, times, inverse, abs, ord}"
begin

definition zero_double :: double where "zero_double = Fin False 0"
definition one_double :: double where "one_double = Fin False 1"
definition plus_double :: "double \<Rightarrow> double \<Rightarrow> double" where "plus_double = dadd"
definition uminus_double :: "double \<Rightarrow> double" where "uminus_double = dneg"
definition minus_double :: "double \<Rightarrow> double \<Rightarrow> double" where
  "minus_double x y = dadd x (dneg y)"
definition times_double :: "double \<Rightarrow> double \<Rightarrow> double" where "times_double = dmul"
definition divide_double :: "double \<Rightarrow> double \<Rightarrow> double" where "divide_double = ddiv"
definition inverse_double :: "double \<Rightarrow> double" where
  "inverse_double x = ddiv (Fin False 1) x"
definition abs_double :: "double \<Rightarrow> double" where "abs_double = fabs"
definition less_double :: "double \<Rightarrow> double \<Rightarrow> bool" where "less_double = dless"
definition less_eq_double :: "double \<Rightarrow> double \<Rightarrow> bool" where "less_eq_double = dle"

instance ..

end

section \<open>Particles\<close>

text \<open>
  \<^verbatim>\<open>struct particle\<close> is declared in \<^verbatim>\<open>particle.h\<close>; these are the fields that the
  integrator and the restart reader use (the coordinates \<^verbatim>\<open>x\<close>, \<^verbatim>\<open>y\<close>, \<^verbatim>\<open>z\<close> are the
  fields \<open>p_x\<close>, \<open>p_y\<close>, \<open>p_z\<close>). The tables \<open>xpast\<close>, \<open>ypast\<close>, \<open>zpast\<close> are
  indexed by level and sub-index.
\<close>

record particle =
  p_x :: double
  p_y :: double
  p_z :: double
  vx :: double
  vy :: double
  vz :: double
  ax :: double
  ay :: double
  az :: double
  tdone :: double
  dtdone :: double
  dtexp :: int
  xpast :: "nat \<Rightarrow> nat \<Rightarrow> double"
  ypast :: "nat \<Rightarrow> nat \<Rightarrow> double"
  zpast :: "nat \<Rightarrow> nat \<Rightarrow> double"
  number :: int

section \<open>Restart files: \<^verbatim>\<open>input_binary\<close>\<close>

text \<open>
  What \<^verbatim>\<open>fread\<close> of one item finds in the file: the whole item (it returns 1 and
  fills the buffer), an item cut short by the end of the file (it returns 0 and the
  buffer is indeterminate), or nothing (it returns 0 and leaves the buffer as it
  was). \<open>fread1 it torn buf\<close> is the return value and the buffer after the call, for
  a buffer that held \<open>buf\<close>; \<open>torn\<close> stands for the indeterminate content.
\<close>

datatype 'a item = Whole 'a | Torn | Absent

definition fread1 :: "'a item \<Rightarrow> 'a \<Rightarrow> 'a \<Rightarrow> int \<times> 'a" where
  "fread1 it torn buf =
     (case it of Whole v \<Rightarrow> (1, v) | Torn \<Rightarrow> (0, torn) | Absent \<Rightarrow> (0, buf))"

text \<open>
  A restart file that has been opened: what the two reads of the header find (the
  particle count and the time), and the whole particle records that follow. The
  locals \<^verbatim>\<open>_N\<close> and \<^verbatim>\<open>p\<close> are not initialised: when their read fails they hold
  whatever the stack holds, here \<open>junkN\<close> and \<open>junk i\<close>. The global \<^verbatim>\<open>t\<close> keeps its
  value \<open>t\<close> when nothing is read into it, and is \<open>junkt\<close> after a torn read.
  \<^verbatim>\<open>particles_add\<close> is defined in \<^verbatim>\<open>particle.c\<close> and is a parameter \<open>padd\<close> on the
  particle store \<open>'w\<close>.
\<close>

record restart_file =
  file_N :: "int item"
  file_t :: "double item"
  file_records :: "particle list"

definition fread_particle :: "restart_file \<Rightarrow> nat \<Rightarrow> particle option" where
  "fread_particle f i =
     (if i < length (file_records f) then Some (file_records f ! i) else None)"

definition input_binary_body ::
  "(particle \<Rightarrow> 'w \<Rightarrow> 'w) \<Rightarrow> (nat \<Rightarrow> particle) \<Rightarrow> restart_file \<Rightarrow> nat \<Rightarrow> int \<times> 'w \<Rightarrow> int \<times> 'w"
where
  "input_binary_body padd junk f i = (\<lambda>(bytes, w).
     (let (got, p) = (case fread_particle f i of Some q \<Rightarrow> (1, q) | None \<Rightarrow> (0, junk i));
          bytes = bytes + got
      in if number p > 0 then (bytes, padd p w) else (bytes, w)))"

text \<open>The result: the value of \<^verbatim>\<open>bytes\<close>, the new global time \<^verbatim>\<open>t\<close>, the particle store.\<close>

definition input_binary ::
  "(particle \<Rightarrow> 'w \<Rightarrow> 'w) \<Rightarrow> int \<Rightarrow> double \<Rightarrow> (nat \<Rightarrow> particle) \<Rightarrow> restart_file
     \<Rightarrow> double \<Rightarrow> 'w \<Rightarrow> int \<times> double \<times> 'w"
where
  "input_binary padd junkN junkt junk f t w =
     (let bytes = 0;
          (got, N') = fread1 (file_N f) junkN junkN;
          bytes = bytes + got;
          (got, t') = fread1 (file_t f) junkt t;
          bytes = bytes + got;
          (bytes, w) = fold (input_binary_body padd junk f) [0..<nat N'] (bytes, w)
      in (bytes, t', w))"


section \<open>The IAS15 integrator: state\<close>

text \<open>
  The tunables of \<^verbatim>\<open>integrator_ias15.c\<close>, which a step only reads, and what the step
  calls but this file does not define.

  Modelled from the spec: \<^verbatim>\<open>gravity_calculate_acceleration\<close> and
  \<^verbatim>\<open>problem_additional_forces\<close> are not part of the file; by their contract they read
  the particles and write \<open>ax\<close>, \<open>ay\<close>, \<open>az\<close> into every particle, as a function of the
  particle array. \<open>gravity cfg ps i\<close> and the optional second kernel give the acceleration
  written into particle \<open>i\<close>; an unset hook is \<open>None\<close>. \<open>libm_pow\<close> and \<open>libm_log\<close> are
  the \<^verbatim>\<open>pow\<close> and \<^verbatim>\<open>log\<close> of the C library, \<open>conv_ub\<close> is the result of an out-of-range
  conversion to \<^verbatim>\<open>int\<close>.
\<close>

record config =
  integrator_force_is_velocitydependent :: int
  integrator_epsilon :: double
  integrator_min_dt :: double
  integrator_max_dt :: double
  gravity :: "particle list \<Rightarrow> nat \<Rightarrow> double \<times> double \<times> double"
  problem_additional_forces :: "(particle list \<Rightarrow> nat \<Rightarrow> double \<times> double \<times> double) option"
  libm_pow :: "double \<Rightarrow> double \<Rightarrow> double"
  libm_log :: "double \<Rightarrow> double"
  conv_ub :: "double \<Rightarrow> int"

text \<open>\<^verbatim>\<open>const double safety_factor = 0.25\<close>.\<close>

definition safety_factor :: double where
  "safety_factor = lit (25 / 100)"

text \<open>
  The globals that a step reads and writes. The particle array is a list, \<open>N\<close> is its
  length. Each buffer is a map from indices to doubles; \<^verbatim>\<open>realloc\<close> keeps the old
  cells and leaves the new ones as they are. The C names \<^verbatim>\<open>at\<close>, \<^verbatim>\<open>g\<close>, \<^verbatim>\<open>b\<close>, \<^verbatim>\<open>e\<close>, \<^verbatim>\<open>t\<close>, \<^verbatim>\<open>dt\<close>
  and the global \<^verbatim>\<open>dtexp\<close> are the fields \<open>a_t\<close>, \<open>gg\<close>, \<open>bb\<close>, \<open>ee\<close>, \<open>t_g\<close>, \<open>dt_g\<close> and
  \<open>dtexp_g\<close>. The two error variables of the predictor-corrector loop are local to
  the step and are fields here because the inner loops update them; \<open>warnings\<close>
  counts the warnings printed to \<^verbatim>\<open>stderr\<close>. The scratch array \<^verbatim>\<open>s\<close> is written and
  read within one block and is kept in local variables. \<^verbatim>\<open>printf\<close> is left out.
\<close>

record ias15 =
  particles :: "particle list"
  t_g :: double
  dt_g :: double
  N3allocated :: int
  a_t :: "nat \<Rightarrow> double"
  x0 :: "nat \<Rightarrow> double"
  v0 :: "nat \<Rightarrow> double"
  a0 :: "nat \<Rightarrow> double"
  csx :: "nat \<Rightarrow> double"
  csv :: "nat \<Rightarrow> double"
  gg :: "nat \<Rightarrow> nat \<Rightarrow> double"
  bb :: "nat \<Rightarrow> nat \<Rightarrow> double"
  ee :: "nat \<Rightarrow> nat \<Rightarrow> double"
  br :: "nat \<Rightarrow> nat \<Rightarrow> double"
  er :: "nat \<Rightarrow> nat \<Rightarrow> double"
  dtexp_g :: int
  dtexp_substep :: "nat \<Rightarrow> int"
  dtexp_min :: int
  integrator_iterations_max_exceeded :: "64 word"
  predictor_corrector_error :: double
  predictor_corrector_error_last :: double
  warnings :: nat

text \<open>\<open>set2 f l k v\<close> is the assignment \<^verbatim>\<open>f[l][k] = v\<close>.\<close>

definition set2 :: "(nat \<Rightarrow> nat \<Rightarrow> double) \<Rightarrow> nat \<Rightarrow> nat \<Rightarrow> double \<Rightarrow> nat \<Rightarrow> nat \<Rightarrow> double" where
  "set2 f l k v = f(l := (f l)(k := v))"

subsection \<open>Gauss-Radau spacings and the other constants\<close>

text \<open>
  The tables \<^verbatim>\<open>h\<close>, \<^verbatim>\<open>r\<close>, \<^verbatim>\<open>c\<close>, \<^verbatim>\<open>d\<close>: the decimal literals of the source, each
  converted to a double.
\<close>

definition h_dec :: "rat list" where
  "h_dec = [
    0,
    562625605369221464656521910 / 10000000000000000000000000000,
    1802406917368923649875799428 / 10000000000000000000000000000,
    3526247171131696373739077702 / 10000000000000000000000000000,
    5471536263305553830014485577 / 10000000000000000000000000000,
    7342101772154105410531523211 / 10000000000000000000000000000,
    8853209468390957680903597629 / 10000000000000000000000000000,
    9775206135612875018911745004 / 10000000000000000000000000000,
    10 / 10]"

definition h_tab :: "nat \<Rightarrow> double" where
  "h_tab i = lit (h_dec ! i)"

definition r_dec :: "rat list" where
  "r_dec = [
    562625605369221464656522 / 10000000000000000000000000,
    1802406917368923649875799 / 10000000000000000000000000,
    1239781311999702185219278 / 10000000000000000000000000,
    3526247171131696373739078 / 10000000000000000000000000,
    2963621565762474909082556 / 10000000000000000000000000,
    1723840253762772723863278 / 10000000000000000000000000,
    5471536263305553830014486 / 10000000000000000000000000,
    4908910657936332365357964 / 10000000000000000000000000,
    3669129345936630180138686 / 10000000000000000000000000,
    1945289092173857456275408 / 10000000000000000000000000,
    7342101772154105410531523 / 10000000000000000000000000,
    6779476166784883945875001 / 10000000000000000000000000,
    5539694854785181760655724 / 10000000000000000000000000,
    3815854601022409036792446 / 10000000000000000000000000,
    1870565508848551580517038 / 10000000000000000000000000,
    8853209468390957680903598 / 10000000000000000000000000,
    8290583863021736216247076 / 10000000000000000000000000,
    7050802551022034031027798 / 10000000000000000000000000,
    5326962297259261307164520 / 10000000000000000000000000,
    3381673205085403850889112 / 10000000000000000000000000,
    1511107696236852270372074 / 10000000000000000000000000,
    9775206135612875018911745 / 10000000000000000000000000,
    9212580530243653554255223 / 10000000000000000000000000,
    7972799218243951369035946 / 10000000000000000000000000,
    6248958964481178645172667 / 10000000000000000000000000,
    4303669872307321188897259 / 10000000000000000000000000,
    2433104363458769608380222 / 10000000000000000000000000,
    921996667221917338008147 / 10000000000000000000000000]"

definition r_tab :: "nat \<Rightarrow> double" where
  "r_tab i = lit (r_dec ! i)"

definition c_dec :: "rat list" where
  "c_dec = [
    - (562625605369221464656522 / 10000000000000000000000000),
    101408028300636299864818 / 10000000000000000000000000,
    - (2365032522738145114532321 / 10000000000000000000000000),
    - (35758977292516175949345 / 10000000000000000000000000),
    935376952594620658957485 / 10000000000000000000000000,
    - (5891279693869841488271399 / 10000000000000000000000000),
    19565654099472210769006 / 10000000000000000000000000,
    - (547553868890686864408084 / 10000000000000000000000000),
    4158812000823068616886219 / 10000000000000000000000000,
    - (11362815957175395318285885 / 10000000000000000000000000),
    - (14365302363708915610919 / 10000000000000000000000000),
    421585277212687082291130 / 10000000000000000000000000,
    - (3600995965020568162530901 / 10000000000000000000000000),
    12501507118406910366792415 / 10000000000000000000000000,
    - (18704917729329500728817408 / 10000000000000000000000000),
    12717903090268677658020 / 10000000000000000000000000,
    - (387603579159067708505249 / 10000000000000000000000000),
    3609622434528459872559689 / 10000000000000000000000000,
    - (14668842084004269779203515 / 10000000000000000000000000),
    29061362593084293206895457 / 10000000000000000000000000,
    - (27558127197720458409721005 / 10000000000000000000000000)]"

definition c_tab :: "nat \<Rightarrow> double" where
  "c_tab i = lit (c_dec ! i)"

definition d_dec :: "rat list" where
  "d_dec = [
    562625605369221464656522 / 10000000000000000000000000,
    31654757181708292499905 / 10000000000000000000000000,
    2365032522738145114532321 / 10000000000000000000000000,
    1780977692217433881125 / 10000000000000000000000000,
    457929855060279188954539 / 10000000000000000000000000,
    5891279693869841488271399 / 10000000000000000000000000,
    100202365223291272096 / 10000000000000000000000000,
    84318571535257015445000 / 10000000000000000000000000,
    2535340690545692665214616 / 10000000000000000000000000,
    11362815957175395318285885 / 10000000000000000000000000,
    5637641639318207610 / 10000000000000000000000000,
    15297840025004658189490 / 10000000000000000000000000,
    978342365324440053653648 / 10000000000000000000000000,
    8752546646840910912297246 / 10000000000000000000000000,
    18704917729329500728817408 / 10000000000000000000000000,
    317188154017613665 / 10000000000000000000000000,
    2762930909826476593130 / 10000000000000000000000000,
    360285539837364596003871 / 10000000000000000000000000,
    5767330002770787313544596 / 10000000000000000000000000,
    22485887607691598182153473 / 10000000000000000000000000,
    27558127197720458409721005 / 10000000000000000000000000]"

definition d_tab :: "nat \<Rightarrow> double" where
  "d_tab i = lit (d_dec ! i)"


section \<open>The IAS15 integrator: one step\<close>

subsection \<open>Allocation\<close>

definition realloc_zero_body :: "nat \<Rightarrow> nat \<Rightarrow> ias15 \<Rightarrow> ias15" where
  "realloc_zero_body l k st =
     st\<lparr> bb := set2 (bb st) l k 0, ee := set2 (ee st) l k 0,
         br := set2 (br st) l k 0, er := set2 (er st) l k 0 \<rparr>"

definition realloc_cs_body :: "nat \<Rightarrow> ias15 \<Rightarrow> ias15" where
  "realloc_cs_body i st = st\<lparr> csx := (csx st)(i := 0), csv := (csv st)(i := 0) \<rparr>"

definition realloc_buffers :: "int \<Rightarrow> ias15 \<Rightarrow> ias15" where
  "realloc_buffers N3 st =
     (if N3 > N3allocated st then
        let st = fold (\<lambda>l. fold (realloc_zero_body l) [0..<nat N3]) [0..<7] st;
            st = fold realloc_cs_body [0..<nat N3] st
        in st\<lparr> N3allocated := N3 \<rparr>
      else st)"

subsection \<open>The step size of the current sub-step class\<close>

definition substep_dt :: "(nat \<Rightarrow> int) \<Rightarrow> nat \<Rightarrow> double \<Rightarrow> double" where
  "substep_dt sub i dt =
     (let sn = sub i;
          st_dt = h_tab (nat (sn + 1)) - h_tab (nat sn)
      in dt * st_dt)"

definition compute_dt :: "config \<Rightarrow> ias15 \<Rightarrow> ias15" where
  "compute_dt cfg st =
     st\<lparr> dt_g := fold (substep_dt (dtexp_substep st)) [0..<nat (- dtexp_g st)]
                    (integrator_max_dt cfg) \<rparr>"

subsection \<open>Predicted B values at the start of the sequence\<close>

definition warm_start_body :: "nat \<Rightarrow> ias15 \<Rightarrow> ias15" where
  "warm_start_body k st =
     (if isnormal (dtdone (particles st ! (k div 3))) then
        let q1 = dt_g st / dtdone (particles st ! (k div 3));
            q2 = q1 * q1;
            q3 = q1 * q2;
            q4 = q2 * q2;
            q5 = q2 * q3;
            q6 = q3 * q3;
            q7 = q3 * q4;
            e0 = q1 * (br st 6 k * lit 7 + br st 5 k * lit 6 + br st 4 k * lit 5
                       + br st 3 k * lit 4 + br st 2 k * lit 3 + br st 1 k * lit 2 + br st 0 k);
            e1 = q2 * (br st 6 k * lit 21 + br st 5 k * lit 15 + br st 4 k * lit 10
                       + br st 3 k * lit 6 + br st 2 k * lit 3 + br st 1 k);
            e2 = q3 * (br st 6 k * lit 35 + br st 5 k * lit 20 + br st 4 k * lit 10
                       + br st 3 k * lit 4 + br st 2 k);
            e3 = q4 * (br st 6 k * lit 35 + br st 5 k * lit 15 + br st 4 k * lit 5 + br st 3 k);
            e4 = q5 * (br st 6 k * lit 21 + br st 5 k * lit 6 + br st 4 k);
            e5 = q6 * (br st 6 k * lit 7 + br st 5 k);
            e6 = q7 * br st 6 k
        in st\<lparr> ee := set2 (set2 (set2 (set2 (set2 (set2 (set2 (ee st)
                         0 k e0) 1 k e1) 2 k e2) 3 k e3) 4 k e4) 5 k e5) 6 k e6,
                bb := set2 (set2 (set2 (set2 (set2 (set2 (set2 (bb st)
                         0 k 0) 1 k 0) 2 k 0) 3 k 0) 4 k 0) 5 k 0) 6 k 0 \<rparr>
      else
        st\<lparr> ee := set2 (set2 (set2 (set2 (set2 (set2 (set2 (ee st)
                         0 k 0) 1 k 0) 2 k 0) 3 k 0) 4 k 0) 5 k 0) 6 k 0,
            bb := set2 (set2 (set2 (set2 (set2 (set2 (set2 (bb st)
                         0 k 0) 1 k 0) 2 k 0) 3 k 0) 4 k 0) 5 k 0) 6 k 0 \<rparr>)"

subsection \<open>Initial values and the g coefficients\<close>

definition capture_body :: "nat \<Rightarrow> ias15 \<Rightarrow> ias15" where
  "capture_body k st =
     (let p = particles st ! k
      in st\<lparr> x0 := (x0 st)(3 * k := p_x p, 3 * k + 1 := p_y p, 3 * k + 2 := p_z p),
             v0 := (v0 st)(3 * k := vx p, 3 * k + 1 := vy p, 3 * k + 2 := vz p),
             a0 := (a0 st)(3 * k := ax p, 3 * k + 1 := ay p, 3 * k + 2 := az p) \<rparr>)"

definition g_from_b_body :: "nat \<Rightarrow> ias15 \<Rightarrow> ias15" where
  "g_from_b_body k st =
     (let b0 = bb st 0 k; b1 = bb st 1 k; b2 = bb st 2 k; b3 = bb st 3 k;
          b4 = bb st 4 k; b5 = bb st 5 k; b6 = bb st 6 k;
          g0 = b6 * d_tab 15 + b5 * d_tab 10 + b4 * d_tab 6 + b3 * d_tab 3
               + b2 * d_tab 1 + b1 * d_tab 0 + b0;
          g1 = b6 * d_tab 16 + b5 * d_tab 11 + b4 * d_tab 7 + b3 * d_tab 4
               + b2 * d_tab 2 + b1;
          g2 = b6 * d_tab 17 + b5 * d_tab 12 + b4 * d_tab 8 + b3 * d_tab 5 + b2;
          g3 = b6 * d_tab 18 + b5 * d_tab 13 + b4 * d_tab 9 + b3;
          g4 = b6 * d_tab 19 + b5 * d_tab 14 + b4;
          g5 = b6 * d_tab 20 + b5;
          g6 = b6
      in st\<lparr> gg := set2 (set2 (set2 (set2 (set2 (set2 (set2 (gg st)
                        0 k g0) 1 k g1) 2 k g2) 3 k g3) 4 k g4) 5 k g5) 6 k g6 \<rparr>)"

subsection \<open>One node of the predictor-corrector iteration\<close>

definition predict_position_body :: "nat \<Rightarrow> nat \<Rightarrow> ias15 \<Rightarrow> ias15" where
  "predict_position_body n i st =
     (let p = particles st ! i
      in if dtexp p < dtexp_g st then
           st\<lparr> particles := (particles st)[i := p\<lparr>
                  p_x := xpast p (nat (- dtexp_g st + 1)) n,
                  p_y := ypast p (nat (- dtexp_g st + 1)) n,
                  p_z := zpast p (nat (- dtexp_g st + 1)) n \<rparr>] \<rparr>
         else
           let hn = h_tab n + (t_g st - tdone p) / dt_g st;
               s0 = dt_g st * hn;
               s1 = s0 * s0 / lit 2;
               s2 = s1 * hn / lit 3;
               s3 = s2 * hn / lit 2;
               s4 = lit 3 * s3 * hn / lit 5;
               s5 = lit 2 * s4 * hn / lit 3;
               s6 = lit 5 * s5 * hn / lit 7;
               s7 = lit 3 * s6 * hn / lit 4;
               s8 = lit 7 * s7 * hn / lit 9;
               k0 = 3 * i + 0;
               k1 = 3 * i + 1;
               k2 = 3 * i + 2;
               xk0 = csx st k0 + (s8 * bb st 6 k0 + s7 * bb st 5 k0 + s6 * bb st 4 k0
                       + s5 * bb st 3 k0 + s4 * bb st 2 k0 + s3 * bb st 1 k0
                       + s2 * bb st 0 k0 + s1 * a0 st k0 + s0 * v0 st k0);
               xk1 = csx st k1 + (s8 * bb st 6 k1 + s7 * bb st 5 k1 + s6 * bb st 4 k1
                       + s5 * bb st 3 k1 + s4 * bb st 2 k1 + s3 * bb st 1 k1
                       + s2 * bb st 0 k1 + s1 * a0 st k1 + s0 * v0 st k1);
               xk2 = csx st k2 + (s8 * bb st 6 k2 + s7 * bb st 5 k2 + s6 * bb st 4 k2
                       + s5 * bb st 3 k2 + s4 * bb st 2 k2 + s3 * bb st 1 k2
                       + s2 * bb st 0 k2 + s1 * a0 st k2 + s0 * v0 st k2)
           in st\<lparr> particles := (particles st)[i := p\<lparr>
                  p_x := xk0 + x0 st k0,
                  p_y := xk1 + x0 st k1,
                  p_z := xk2 + x0 st k2 \<rparr>] \<rparr>)"

text \<open>The predicted velocity component \<open>k\<close> at node \<open>n\<close>.\<close>

definition predicted_velocity :: "nat \<Rightarrow> nat \<Rightarrow> ias15 \<Rightarrow> double" where
  "predicted_velocity n k st =
     (let s0 = dt_g st * h_tab n;
          s1 = s0 * h_tab n / lit 2;
          s2 = lit 2 * s1 * h_tab n / lit 3;
          s3 = lit 3 * s2 * h_tab n / lit 4;
          s4 = lit 4 * s3 * h_tab n / lit 5;
          s5 = lit 5 * s4 * h_tab n / lit 6;
          s6 = lit 6 * s5 * h_tab n / lit 7;
          s7 = lit 7 * s6 * h_tab n / lit 8;
          vk = csv st k + s7 * bb st 6 k + s6 * bb st 5 k + s5 * bb st 4 k
               + s4 * bb st 3 k + s3 * bb st 2 k + s2 * bb st 1 k + s1 * bb st 0 k
               + s0 * a0 st k
      in vk + v0 st k)"

definition predict_velocity_body :: "nat \<Rightarrow> nat \<Rightarrow> ias15 \<Rightarrow> ias15" where
  "predict_velocity_body n i st =
     (let k0 = 3 * i + 0;
          k1 = 3 * i + 1;
          k2 = 3 * i + 2
      in st\<lparr> particles := (particles st)[i := (particles st ! i)\<lparr>
             vx := predicted_velocity n k0 st,
             vy := predicted_velocity n k1 st,
             vz := predicted_velocity n k2 st \<rparr>] \<rparr>)"

definition write_acc ::
  "(particle list \<Rightarrow> nat \<Rightarrow> double \<times> double \<times> double) \<Rightarrow> particle list \<Rightarrow> particle list"
where
  "write_acc f ps =
     map (\<lambda>i. (ps ! i)\<lparr> ax := fst (f ps i), ay := fst (snd (f ps i)),
                          az := snd (snd (f ps i)) \<rparr>) [0..<length ps]"

definition integrator_update_acceleration :: "config \<Rightarrow> ias15 \<Rightarrow> ias15" where
  "integrator_update_acceleration cfg st =
     (let ps = write_acc (gravity cfg) (particles st);
          ps = (case problem_additional_forces cfg of
                  None \<Rightarrow> ps
                | Some f \<Rightarrow> write_acc f ps)
      in st\<lparr> particles := ps \<rparr>)"

definition copy_at_body :: "nat \<Rightarrow> ias15 \<Rightarrow> ias15" where
  "copy_at_body k st =
     (if dtexp (particles st ! k) \<noteq> dtexp_g st then st
      else st\<lparr> a_t := (a_t st)(3 * k := ax (particles st ! k),
                              3 * k + 1 := ay (particles st ! k),
                              3 * k + 2 := az (particles st ! k)) \<rparr>)"

text \<open>The \<^verbatim>\<open>switch (n)\<close>: the body of the loop over \<open>k\<close> of each case.\<close>

definition improve_body :: "nat \<Rightarrow> nat \<Rightarrow> ias15 \<Rightarrow> ias15" where
  "improve_body n k st =
     (if dtexp (particles st ! (k div 3)) \<noteq> dtexp_g st then st
      else if n = 1 then
        let tmp = gg st 0 k;
            g0 = (a_t st k - a0 st k) / r_tab 0
        in st\<lparr> gg := set2 (gg st) 0 k g0,
               bb := set2 (bb st) 0 k (bb st 0 k + (g0 - tmp)) \<rparr>
      else if n = 2 then
        let tmp = gg st 1 k;
            gk = a_t st k - a0 st k;
            g1 = (gk / r_tab 1 - gg st 0 k) / r_tab 2;
            tmp = g1 - tmp
        in st\<lparr> gg := set2 (gg st) 1 k g1,
               bb := set2 (set2 (bb st)
                       0 k (bb st 0 k + tmp * c_tab 0))
                       1 k (bb st 1 k + tmp) \<rparr>
      else if n = 3 then
        let tmp = gg st 2 k;
            gk = a_t st k - a0 st k;
            g2 = ((gk / r_tab 3 - gg st 0 k) / r_tab 4 - gg st 1 k) / r_tab 5;
            tmp = g2 - tmp
        in st\<lparr> gg := set2 (gg st) 2 k g2,
               bb := set2 (set2 (set2 (bb st)
                       0 k (bb st 0 k + tmp * c_tab 1))
                       1 k (bb st 1 k + tmp * c_tab 2))
                       2 k (bb st 2 k + tmp) \<rparr>
      else if n = 4 then
        let tmp = gg st 3 k;
            gk = a_t st k - a0 st k;
            g3 = (((gk / r_tab 6 - gg st 0 k) / r_tab 7 - gg st 1 k) / r_tab 8
                  - gg st 2 k) / r_tab 9;
            tmp = g3 - tmp
        in st\<lparr> gg := set2 (gg st) 3 k g3,
               bb := set2 (set2 (set2 (set2 (bb st)
                       0 k (bb st 0 k + tmp * c_tab 3))
                       1 k (bb st 1 k + tmp * c_tab 4))
                       2 k (bb st 2 k + tmp * c_tab 5))
                       3 k (bb st 3 k + tmp) \<rparr>
      else if n = 5 then
        let tmp = gg st 4 k;
            gk = a_t st k - a0 st k;
            g4 = ((((gk / r_tab 10 - gg st 0 k) / r_tab 11 - gg st 1 k) / r_tab 12
                   - gg st 2 k) / r_tab 13 - gg st 3 k) / r_tab 14;
            tmp = g4 - tmp
        in st\<lparr> gg := set2 (gg st) 4 k g4,
               bb := set2 (set2 (set2 (set2 (set2 (bb st)
                       0 k (bb st 0 k + tmp * c_tab 6))
                       1 k (bb st 1 k + tmp * c_tab 7))
                       2 k (bb st 2 k + tmp * c_tab 8))
                       3 k (bb st 3 k + tmp * c_tab 9))
                       4 k (bb st 4 k + tmp) \<rparr>
      else if n = 6 then
        let tmp = gg st 5 k;
            gk = a_t st k - a0 st k;
            g5 = (((((gk / r_tab 15 - gg st 0 k) / r_tab 16 - gg st 1 k) / r_tab 17
                    - gg st 2 k) / r_tab 18 - gg st 3 k) / r_tab 19 - gg st 4 k) / r_tab 20;
            tmp = g5 - tmp
        in st\<lparr> gg := set2 (gg st) 5 k g5,
               bb := set2 (set2 (set2 (set2 (set2 (set2 (bb st)
                       0 k (bb st 0 k + tmp * c_tab 10))
                       1 k (bb st 1 k + tmp * c_tab 11))
                       2 k (bb st 2 k + tmp * c_tab 12))
                       3 k (bb st 3 k + tmp * c_tab 13))
                       4 k (bb st 4 k + tmp * c_tab 14))
                       5 k (bb st 5 k + tmp) \<rparr>
      else if n = 7 then
        let tmp = gg st 6 k;
            gk = a_t st k - a0 st k;
            g6 = ((((((gk / r_tab 21 - gg st 0 k) / r_tab 22 - gg st 1 k) / r_tab 23
                     - gg st 2 k) / r_tab 24 - gg st 3 k) / r_tab 25 - gg st 4 k) / r_tab 26
                   - gg st 5 k) / r_tab 27;
            tmp = g6 - tmp;
            ak = a_t st k;
            b6ktmp = tmp;
            errork = fabs (b6ktmp / ak)
        in st\<lparr> gg := set2 (gg st) 6 k g6,
               bb := set2 (set2 (set2 (set2 (set2 (set2 (set2 (bb st)
                       0 k (bb st 0 k + tmp * c_tab 15))
                       1 k (bb st 1 k + tmp * c_tab 16))
                       2 k (bb st 2 k + tmp * c_tab 17))
                       3 k (bb st 3 k + tmp * c_tab 18))
                       4 k (bb st 4 k + tmp * c_tab 19))
                       5 k (bb st 5 k + tmp * c_tab 20))
                       6 k (bb st 6 k + tmp),
               predictor_corrector_error :=
                 (if isnormal errork \<and> errork > predictor_corrector_error st then errork
                  else predictor_corrector_error st) \<rparr>
      else st)"

definition node_body :: "config \<Rightarrow> int \<Rightarrow> nat \<Rightarrow> ias15 \<Rightarrow> ias15" where
  "node_body cfg N3 n st =
     (let st = fold (predict_position_body n) [0..<length (particles st)] st;
          st = (if problem_additional_forces cfg \<noteq> None
                   \<and> integrator_force_is_velocitydependent cfg \<noteq> 0
                then fold (predict_velocity_body n) [0..<length (particles st)] st
                else st);
          st = integrator_update_acceleration cfg st;
          st = fold copy_at_body [0..<length (particles st)] st
      in fold (improve_body n) [0..<nat N3] st)"

subsection \<open>The predictor-corrector loop\<close>

text \<open>One pass of the \<^verbatim>\<open>while\<close> body after its three exit tests.\<close>

definition pc_iteration :: "config \<Rightarrow> int \<Rightarrow> ias15 \<Rightarrow> ias15" where
  "pc_iteration cfg N3 st =
     (let st = st\<lparr> predictor_corrector_error_last := predictor_corrector_error st \<rparr>;
          st = st\<lparr> predictor_corrector_error := 0 \<rparr>
      in fold (node_body cfg N3) [1..<8] st)"

definition max_exceeded :: "ias15 \<Rightarrow> ias15" where
  "max_exceeded st =
     (let st = st\<lparr> integrator_iterations_max_exceeded :=
                     integrator_iterations_max_exceeded st + 1 \<rparr>;
          integrator_iterations_warning = 10
      in if integrator_iterations_max_exceeded st = integrator_iterations_warning
         then st\<lparr> warnings := warnings st + 1 \<rparr>
         else st)"

text \<open>
  The \<^verbatim>\<open>while(1)\<close> loop; \<open>iterations\<close> is its counter, returned with the state.
\<close>

function predictor_corrector_loop :: "config \<Rightarrow> int \<Rightarrow> int \<Rightarrow> ias15 \<Rightarrow> int \<times> ias15" where
  "predictor_corrector_loop cfg N3 iterations st =
     (if predictor_corrector_error st < lit (1 / 10 ^ 16) then (iterations, st)
      else if iterations > 2
              \<and> predictor_corrector_error_last st \<le> predictor_corrector_error st
           then (iterations, st)
      else if iterations \<ge> 12 then (iterations, max_exceeded st)
      else predictor_corrector_loop cfg N3 (iterations + 1) (pc_iteration cfg N3 st))"
  by pat_completeness auto
termination
  by (relation "measure (\<lambda>(cfg, N3, iterations, st). nat (12 - iterations))") auto

declare predictor_corrector_loop.simps [simp del]

subsection \<open>New position and velocity values at the end of the sequence\<close>

definition commit_component :: "double \<Rightarrow> nat \<Rightarrow> ias15 \<Rightarrow> ias15" where
  "commit_component dt_done2 k st =
     (let a = x0 st k;
          st = st\<lparr> csx := (csx st)(k := csx st k
                 + ((bb st 6 k / lit 72 + bb st 5 k / lit 56 + bb st 4 k / lit 42
                     + bb st 3 k / lit 30 + bb st 2 k / lit 20 + bb st 1 k / lit 12
                     + bb st 0 k / lit 6 + a0 st k / lit 2)
                    * dt_done2 + v0 st k * dt_g st)) \<rparr>;
          st = st\<lparr> x0 := (x0 st)(k := a + csx st k) \<rparr>;
          st = st\<lparr> csx := (csx st)(k := csx st k + (a - x0 st k)) \<rparr>;
          a = v0 st k;
          st = st\<lparr> csv := (csv st)(k := csv st k
                 + (bb st 6 k / lit 8 + bb st 5 k / lit 7 + bb st 4 k / lit 6
                    + bb st 3 k / lit 5 + bb st 2 k / lit 4 + bb st 1 k / lit 3
                    + bb st 0 k / lit 2 + a0 st k)
                   * dt_g st) \<rparr>;
          st = st\<lparr> v0 := (v0 st)(k := a + csv st k) \<rparr>;
          st = st\<lparr> csv := (csv st)(k := csv st k + (a - v0 st k)) \<rparr>
      in st\<lparr> er := set2 (set2 (set2 (set2 (set2 (set2 (set2 (er st)
                       0 k (ee st 0 k)) 1 k (ee st 1 k)) 2 k (ee st 2 k)) 3 k (ee st 3 k))
                       4 k (ee st 4 k)) 5 k (ee st 5 k)) 6 k (ee st 6 k),
             br := set2 (set2 (set2 (set2 (set2 (set2 (set2 (br st)
                       0 k (bb st 0 k)) 1 k (bb st 1 k)) 2 k (bb st 2 k)) 3 k (bb st 3 k))
                       4 k (bb st 4 k)) 5 k (bb st 5 k)) 6 k (bb st 6 k) \<rparr>)"

definition set_particle :: "nat \<Rightarrow> (particle \<Rightarrow> particle) \<Rightarrow> ias15 \<Rightarrow> ias15" where
  "set_particle i f st = st\<lparr> particles := (particles st)[i := f (particles st ! i)] \<rparr>"

definition commit_body :: "double \<Rightarrow> nat \<Rightarrow> ias15 \<Rightarrow> ias15" where
  "commit_body dt_done2 i st =
     (let st =
        (if dtexp (particles st ! i) = dtexp_g st then
           let st = fold (commit_component dt_done2) [3 * i..<3 * (i + 1)] st
           in set_particle i (\<lambda>p. p\<lparr>
                p_x := x0 st (3 * i + 0), p_y := x0 st (3 * i + 1), p_z := x0 st (3 * i + 2),
                vx := v0 st (3 * i + 0), vy := v0 st (3 * i + 1), vz := v0 st (3 * i + 2),
                tdone := t_g st + dt_g st, dtdone := dt_g st \<rparr>) st
         else
           set_particle i (\<lambda>p. p\<lparr>
                p_x := x0 st (3 * i), p_y := x0 st (3 * i + 1), p_z := x0 st (3 * i + 2) \<rparr>) st);
          lev = nat (- dtexp_g st);
          sub = nat (dtexp_substep st lev)
      in set_particle i (\<lambda>p. p\<lparr>
           xpast := set2 (xpast p) lev sub (p_x p),
           ypast := set2 (ypast p) lev sub (p_y p),
           zpast := set2 (zpast p) lev sub (p_z p) \<rparr>) st)"

subsection \<open>New timestep\<close>

definition errork_max_body :: "ias15 \<Rightarrow> nat \<Rightarrow> nat \<Rightarrow> double \<Rightarrow> double" where
  "errork_max_body st i k errork_max =
     (let ak = a_t st (3 * i + k);
          b6k = bb st 6 (3 * i + k);
          errork = fabs (b6k / ak)
      in if errork > errork_max then errork else errork_max)"

definition controller_body :: "config \<Rightarrow> nat \<Rightarrow> ias15 \<Rightarrow> ias15" where
  "controller_body cfg i st =
     (if dtexp (particles st ! i) \<noteq> dtexp_g st then st
      else
        let errork_max = fold (errork_max_body st i) [0..<3] 0
        in if isnormal errork_max then
             let dtparticle = libm_pow cfg (integrator_epsilon cfg / errork_max) (lit 1 / lit 7)
                                * dt_g st;
                 e1 = d2i (conv_ub cfg)
                        (dfloor (libm_log cfg (dtparticle / integrator_max_dt cfg)
                                 / libm_log cfg (lit 8)));
                 e2 = (if e1 > 0 then 0 else e1);
                 e3 = (if e2 < - 2 then - 2 else e2)
             in set_particle i (\<lambda>p. p\<lparr> dtexp := e3 \<rparr>) st
           else set_particle i (\<lambda>p. p\<lparr> dtexp := 0 \<rparr>) st)"

definition dtexp_min_body :: "nat \<Rightarrow> ias15 \<Rightarrow> ias15" where
  "dtexp_min_body i st =
     (if dtexp (particles st ! i) < dtexp_min st \<and> isnormal (i2d (dtexp (particles st ! i)))
      then st\<lparr> dtexp_min := dtexp (particles st ! i) \<rparr>
      else st)"

definition advance_substep :: "config \<Rightarrow> ias15 \<Rightarrow> ias15" where
  "advance_substep cfg st =
     (let lev = nat (- dtexp_g st);
          st = st\<lparr> dtexp_substep := (dtexp_substep st)(lev := dtexp_substep st lev + 1) \<rparr>;
          st = st\<lparr> t_g := t_g st + dt_g st \<rparr>
      in if dtexp_substep st lev = 8 then
           let st = st\<lparr> dtexp_substep := (dtexp_substep st)(lev := 0) \<rparr>;
               st = st\<lparr> dtexp_g := dtexp_g st + 1 \<rparr>
           in if dtexp_g st > 0 then st\<lparr> dtexp_g := dtexp_min st \<rparr>
              else
                let dtt = fold (substep_dt (dtexp_substep st)) [0..<nat (- dtexp_g st)]
                            (integrator_max_dt cfg)
                in st\<lparr> t_g := t_g st - dtt \<rparr>
         else st\<lparr> dtexp_g := dtexp_min st \<rparr>)"

subsection \<open>The step and its driver\<close>

definition integrator_ias15_step :: "config \<Rightarrow> ias15 \<Rightarrow> int \<times> ias15" where
  "integrator_ias15_step cfg st =
     (let N3 = 3 * int (length (particles st));
          st = realloc_buffers N3 st;
          st = compute_dt cfg st;
          st = fold warm_start_body [0..<nat N3] st;
          st = fold capture_body [0..<length (particles st)] st;
          st = fold g_from_b_body [0..<nat N3] st;
          st = st\<lparr> predictor_corrector_error := lit (10 ^ 300) \<rparr>;
          st = st\<lparr> predictor_corrector_error_last := lit 2 \<rparr>;
          (iterations, st) = predictor_corrector_loop cfg N3 0 st;
          dt_done2 = dt_g st * dt_g st;
          st = fold (commit_body dt_done2) [0..<length (particles st)] st;
          st = (if integrator_epsilon cfg > 0
                then fold (controller_body cfg) [0..<length (particles st)] st
                else st);
          st = st\<lparr> dtexp_min := 0 \<rparr>;
          st = fold dtexp_min_body [0..<length (particles st)] st;
          st = advance_substep cfg st
      in (1, st))"

text \<open>
  \<^verbatim>\<open>integrator_part2\<close>: \<^verbatim>\<open>while(!integrator_ias15_step());\<close>. The loop is not bounded
  by the source; its result is \<open>None\<close> when it does not return. \<open>calls\<close> counts the
  calls of the step routine.
\<close>

partial_function (option) integrator_part2_loop :: "config \<Rightarrow> nat \<Rightarrow> ias15 \<Rightarrow> (nat \<times> ias15) option"
where
  "integrator_part2_loop cfg calls st =
     (let (ok, st) = integrator_ias15_step cfg st
      in if ok \<noteq> 0 then Some (calls + 1, st)
         else integrator_part2_loop cfg (calls + 1) st)"

definition integrator_part2 :: "config \<Rightarrow> ias15 \<Rightarrow> (nat \<times> ias15) option" where
  "integrator_part2 cfg st = integrator_part2_loop cfg 0 st"


section \<open>Auxiliary definitions\<close>

text \<open>The three exit tests of the predictor-corrector loop, and what the loop returns
  when one of them holds.\<close>

definition pc_exit :: "int \<Rightarrow> ias15 \<Rightarrow> bool" where
  "pc_exit iterations st =
     (predictor_corrector_error st < lit (1 / 10 ^ 16)
      \<or> (iterations > 2 \<and> predictor_corrector_error_last st \<le> predictor_corrector_error st)
      \<or> iterations \<ge> 12)"

definition pc_finish :: "int \<Rightarrow> ias15 \<Rightarrow> int \<times> ias15" where
  "pc_finish iterations st =
     (if predictor_corrector_error st < lit (1 / 10 ^ 16) then (iterations, st)
      else if iterations > 2
              \<and> predictor_corrector_error_last st \<le> predictor_corrector_error st
           then (iterations, st)
      else (iterations, max_exceeded st))"

text \<open>The part of a step before the predictor-corrector loop, and the part after it.\<close>

definition step_prefix :: "config \<Rightarrow> ias15 \<Rightarrow> ias15" where
  "step_prefix cfg st =
     (let N3 = 3 * int (length (particles st));
          st = realloc_buffers N3 st;
          st = compute_dt cfg st;
          st = fold warm_start_body [0..<nat N3] st;
          st = fold capture_body [0..<length (particles st)] st;
          st = fold g_from_b_body [0..<nat N3] st;
          st = st\<lparr> predictor_corrector_error := lit (10 ^ 300) \<rparr>
      in st\<lparr> predictor_corrector_error_last := lit 2 \<rparr>)"

definition step_suffix :: "config \<Rightarrow> ias15 \<Rightarrow> ias15" where
  "step_suffix cfg st =
     (let dt_done2 = dt_g st * dt_g st;
          st = fold (commit_body dt_done2) [0..<length (particles st)] st;
          st = (if integrator_epsilon cfg > 0
                then fold (controller_body cfg) [0..<length (particles st)] st
                else st);
          st = st\<lparr> dtexp_min := 0 \<rparr>;
          st = fold dtexp_min_body [0..<length (particles st)] st
      in advance_substep cfg st)"

text \<open>The globals that the loops over particles and components leave alone.\<close>

definition ctl :: "ias15 \<Rightarrow> double \<times> double \<times> int \<times> (nat \<Rightarrow> int) \<times> 64 word \<times> nat" where
  "ctl st = (t_g st, dt_g st, dtexp_g st, dtexp_substep st,
             integrator_iterations_max_exceeded st, warnings st)"

definition errs :: "ias15 \<Rightarrow> double \<times> double" where
  "errs st = (predictor_corrector_error st, predictor_corrector_error_last st)"

text \<open>The fields of a particle that only the commit and the step controller write,
  its velocity, and the buffers that the predictor-corrector loop only reads.\<close>

definition pstat ::
  "particle \<Rightarrow> double \<times> double \<times> int \<times> (nat \<Rightarrow> nat \<Rightarrow> double) \<times> (nat \<Rightarrow> nat \<Rightarrow> double)
     \<times> (nat \<Rightarrow> nat \<Rightarrow> double) \<times> int" where
  "pstat p = (tdone p, dtdone p, dtexp p, xpast p, ypast p, zpast p, number p)"

definition pvel :: "particle \<Rightarrow> double \<times> double \<times> double" where
  "pvel p = (vx p, vy p, vz p)"

definition bufs ::
  "ias15 \<Rightarrow> (nat \<Rightarrow> double) \<times> (nat \<Rightarrow> double) \<times> (nat \<Rightarrow> double) \<times> (nat \<Rightarrow> double)
     \<times> (nat \<Rightarrow> double) \<times> (nat \<Rightarrow> nat \<Rightarrow> double) \<times> (nat \<Rightarrow> nat \<Rightarrow> double)
     \<times> (nat \<Rightarrow> nat \<Rightarrow> double)" where
  "bufs st = (x0 st, v0 st, a0 st, csx st, csv st, ee st, br st, er st)"

text \<open>
  What belongs to component \<open>k\<close>: cell \<open>k\<close> of every buffer. What belongs to particle
  \<open>i\<close>: its record and the components \<open>3i\<close>, \<open>3i+1\<close>, \<open>3i+2\<close>. What all particles
  share.
\<close>

definition kview :: "nat \<Rightarrow> ias15 \<Rightarrow> _" where
  "kview k st = (x0 st k, v0 st k, a0 st k, a_t st k, csx st k, csv st k,
                 (\<lambda>l. gg st l k), (\<lambda>l. bb st l k), (\<lambda>l. ee st l k),
                 (\<lambda>l. br st l k), (\<lambda>l. er st l k))"

definition pview :: "nat \<Rightarrow> ias15 \<Rightarrow> _" where
  "pview i st = (particles st ! i, kview (3 * i) st, kview (3 * i + 1) st, kview (3 * i + 2) st)"

definition shared :: "ias15 \<Rightarrow> _" where
  "shared st = (length (particles st), ctl st, errs st, dtexp_min st, N3allocated st)"

text \<open>The three calls of the commit of one particle.\<close>

definition commit3 :: "double \<Rightarrow> nat \<Rightarrow> ias15 \<Rightarrow> ias15" where
  "commit3 d j st =
     commit_component d (3 * j + 2) (commit_component d (3 * j + 1) (commit_component d (3 * j) st))"

text \<open>The record that the commit writes for particle \<open>i\<close>: \<open>s\<close> is the state before
  the commit of this particle, \<open>B\<close> the state after its components were advanced.\<close>

definition commit_particle :: "ias15 \<Rightarrow> ias15 \<Rightarrow> nat \<Rightarrow> particle" where
  "commit_particle s B i =
     (let p = particles s ! i;
          p1 = (if dtexp p = dtexp_g s then
                  p\<lparr> p_x := x0 B (3 * i), p_y := x0 B (3 * i + 1), p_z := x0 B (3 * i + 2),
                     vx := v0 B (3 * i), vy := v0 B (3 * i + 1), vz := v0 B (3 * i + 2),
                     tdone := t_g s + dt_g s, dtdone := dt_g s \<rparr>
                else
                  p\<lparr> p_x := x0 s (3 * i), p_y := x0 s (3 * i + 1), p_z := x0 s (3 * i + 2) \<rparr>);
          lev = nat (- dtexp_g s);
          sub = nat (dtexp_substep s lev)
      in p1\<lparr> xpast := set2 (xpast p1) lev sub (p_x p1),
              ypast := set2 (ypast p1) lev sub (p_y p1),
              zpast := set2 (zpast p1) lev sub (p_z p1) \<rparr>)"

text \<open>A particle without its step class.\<close>

definition pnod :: "particle \<Rightarrow> particle" where
  "pnod p = p\<lparr> dtexp := 0 \<rparr>"

text \<open>The class that the step controller computes for a particle \<open>i\<close> of the current
  class (the value assigned to \<open>dtexp\<close> in the body of its loop).\<close>

definition controller_class :: "config \<Rightarrow> ias15 \<Rightarrow> nat \<Rightarrow> int" where
  "controller_class cfg st i =
     (let errork_max = fold (errork_max_body st i) [0..<3] 0
      in if isnormal errork_max then
           let dtparticle = libm_pow cfg (integrator_epsilon cfg / errork_max) (lit 1 / lit 7)
                              * dt_g st;
               e1 = d2i (conv_ub cfg)
                      (dfloor (libm_log cfg (dtparticle / integrator_max_dt cfg)
                               / libm_log cfg (lit 8)));
               e2 = (if e1 > 0 then 0 else e1);
               e3 = (if e2 < - 2 then - 2 else e2)
           in e3
         else 0)"

text \<open>What the step controller reads besides the particle itself.\<close>

definition ctrl_in :: "ias15 \<Rightarrow> _" where
  "ctrl_in st = (length (particles st), dt_g st, dtexp_g st, a_t st, bb st)"

text \<open>
  \<open>same_frame b s\<close>: state \<open>s\<close> has the step size, the class and the particles' fixed
  fields of \<open>b\<close>, and the buffers of \<open>b\<close> at the components of the particles that are
  not in the class of \<open>b\<close>. \<open>vel_predicted m b s\<close>: those particles have in \<open>s\<close> the
  velocities predicted at node \<open>m\<close>.
\<close>

definition same_frame :: "ias15 \<Rightarrow> ias15 \<Rightarrow> bool" where
  "same_frame b s \<longleftrightarrow>
     dt_g s = dt_g b \<and> dtexp_g s = dtexp_g b
     \<and> map pstat (particles s) = map pstat (particles b)
     \<and> (\<forall>k. k div 3 < length (particles b) \<and> dtexp (particles b ! (k div 3)) \<noteq> dtexp_g b
              \<longrightarrow> kview k s = kview k b)"

definition vel_predicted :: "nat \<Rightarrow> ias15 \<Rightarrow> ias15 \<Rightarrow> bool" where
  "vel_predicted m b s \<longleftrightarrow>
     (\<forall>i. i < length (particles b) \<and> dtexp (particles b ! i) \<noteq> dtexp_g b
          \<longrightarrow> pvel (particles s ! i)
                = (predicted_velocity m (3 * i) b, predicted_velocity m (3 * i + 1) b,
                   predicted_velocity m (3 * i + 2) b))"

text \<open>Zeros of either sign, finite doubles, and finite doubles other than zero.\<close>

definition isz :: "double \<Rightarrow> bool" where
  "isz a = (a = Fin False 0 \<or> a = Fin True 0)"

definition fin :: "double \<Rightarrow> bool" where
  "fin a = (case a of Fin s m \<Rightarrow> True | _ \<Rightarrow> False)"

definition finnz :: "double \<Rightarrow> bool" where
  "finnz a = (case a of Fin s m \<Rightarrow> m \<noteq> 0 | _ \<Rightarrow> False)"

text \<open>
  Component \<open>k\<close> has no force on it: its initial acceleration and its g and b values
  are zeros. A state of one particle of the current class without force; the same
  after a node, when the evaluated acceleration is zero as well.
\<close>

definition zero_force :: "ias15 \<Rightarrow> nat \<Rightarrow> bool" where
  "zero_force s k \<longleftrightarrow> isz (a0 s k) \<and> (\<forall>l<7. isz (gg s l k) \<and> isz (bb s l k))"

definition force_free :: "ias15 \<Rightarrow> bool" where
  "force_free s \<longleftrightarrow> length (particles s) = 1 \<and> dtexp (particles s ! 0) = dtexp_g s
     \<and> (\<forall>k<3. zero_force s k)"

definition at_rest :: "ias15 \<Rightarrow> bool" where
  "at_rest s \<longleftrightarrow> force_free s \<and> (\<forall>k<3. a_t s k = 0)
     \<and> ax (particles s ! 0) = 0 \<and> ay (particles s ! 0) = 0 \<and> az (particles s ! 0) = 0"

text \<open>
  The state of the free drift after \<open>n\<close> steps: one particle of class 0 at
  \<open>(n, 0, 0)\<close> with velocity \<open>(1, 0, 0)\<close> and zero acceleration; and the
  compensated-summation residuals of its components are \<open>+0\<close>.
\<close>

definition drift :: "nat \<Rightarrow> ias15 \<Rightarrow> bool" where
  "drift n st \<longleftrightarrow> length (particles st) = 1 \<and> dtexp_g st = 0
     \<and> p_x (particles st ! 0) = Fin False (of_nat n)
     \<and> p_y (particles st ! 0) = 0 \<and> p_z (particles st ! 0) = 0
     \<and> vx (particles st ! 0) = 1 \<and> vy (particles st ! 0) = 0 \<and> vz (particles st ! 0) = 0
     \<and> ax (particles st ! 0) = 0 \<and> ay (particles st ! 0) = 0 \<and> az (particles st ! 0) = 0
     \<and> dtexp (particles st ! 0) = 0"

definition cs_zero :: "ias15 \<Rightarrow> bool" where
  "cs_zero st \<longleftrightarrow> (\<forall>k<3. csx st k = 0 \<and> csv st k = 0)"

definition p_zero :: particle where
  "p_zero = \<lparr> p_x = 0, p_y = 0, p_z = 0, vx = 0, vy = 0, vz = 0, ax = 0, ay = 0, az = 0,
     tdone = 0, dtdone = 0, dtexp = 0,
     xpast = (\<lambda>_ _. 0), ypast = (\<lambda>_ _. 0), zpast = (\<lambda>_ _. 0), number = 0 \<rparr>"

definition restart_example :: restart_file where
  "restart_example = \<lparr> file_N = Whole 3, file_t = Whole 1,
     file_records = [p_zero\<lparr>number := 1\<rparr>, p_zero\<lparr>number := 0\<rparr>, p_zero\<lparr>number := - 4\<rparr>] \<rparr>"

text \<open>A file of four bytes: the count 0 and nothing after it.\<close>

definition restart_short :: restart_file where
  "restart_short = \<lparr> file_N = Whole 0, file_t = Absent, file_records = [] \<rparr>"

text \<open>A configuration with a force kernel that always writes zero accelerations, and
  the state of the integrator before its first step on a given particle array.\<close>

definition cfg_zero :: config where
  "cfg_zero = \<lparr> integrator_force_is_velocitydependent = 1,
     integrator_epsilon = lit (1 / 10 ^ 5),
     integrator_min_dt = 0,
     integrator_max_dt = 1,
     gravity = (\<lambda>ps i. (0, 0, 0)),
     problem_additional_forces = None,
     libm_pow = (\<lambda>a b. NaN),
     libm_log = (\<lambda>a. NaN),
     conv_ub = (\<lambda>a. - 2147483648) \<rparr>"

definition st_fresh :: "particle list \<Rightarrow> ias15" where
  "st_fresh ps = \<lparr> particles = ps, t_g = 0, dt_g = 0, N3allocated = 0,
     a_t = (\<lambda>k. 0), x0 = (\<lambda>k. 0), v0 = (\<lambda>k. 0), a0 = (\<lambda>k. 0),
     csx = (\<lambda>k. 0), csv = (\<lambda>k. 0),
     gg = (\<lambda>l k. 0), bb = (\<lambda>l k. 0), ee = (\<lambda>l k. 0), br = (\<lambda>l k. 0), er = (\<lambda>l k. 0),
     dtexp_g = 0, dtexp_substep = (\<lambda>i. 0), dtexp_min = 0,
     integrator_iterations_max_exceeded = 0,
     predictor_corrector_error = 0, predictor_corrector_error_last = 0,
     warnings = 0 \<rparr>"

definition two_classes :: "particle list" where
  "two_classes = [p_zero\<lparr>vx := 1\<rparr>, p_zero\<lparr>dtexp := - 1\<rparr>]"

text \<open>The state at the start of the predictor-corrector loop of a step without
  particles.\<close>

definition pc_start :: ias15 where
  "pc_start = (st_fresh [])\<lparr> predictor_corrector_error := lit (10 ^ 300),
                              predictor_corrector_error_last := lit 2 \<rparr>"

text \<open>One particle with a previous step of length 1, whose saved b value
  \<^verbatim>\<open>br[0][0]\<close> is 1 and whose other saved values are 0.\<close>

definition st_bd :: ias15 where
  "st_bd = (st_fresh [p_zero\<lparr>dtdone := 1\<rparr>])\<lparr> N3allocated := 3,
             br := (\<lambda>l k. if l = 0 \<and> k = 0 then 1 else 0) \<rparr>"

text \<open>A minimum step of 0.5 with a maximum step of 1, and the sub-step class -1 at its
  first sub-interval.\<close>

definition cfg_min :: config where
  "cfg_min = cfg_zero\<lparr> integrator_min_dt := lit (1 / 2) \<rparr>"

definition st_sub :: ias15 where
  "st_sub = (st_fresh two_classes)\<lparr> dtexp_g := - 1 \<rparr>"

text \<open>The zero force kernel with an additional-forces hook set.\<close>

definition cfg_vel :: config where
  "cfg_vel = cfg_zero\<lparr> problem_additional_forces := Some (\<lambda>ps i. (0, 0, 0)) \<rparr>"

section \<open>Facts about rounding\<close>

lemma pow2_powi: "pow2 k = 2 powi k"
  by (simp add: pow2_def power_int_def inverse_eq_divide power_one_over)

lemma pow2_pos: "0 < pow2 k"
  by (simp add: pow2_powi)

lemma pow2_mono: "a \<le> b \<Longrightarrow> pow2 a \<le> pow2 b"
  by (simp add: pow2_powi power_int_increasing)

lemma pow2_add: "pow2 (a + b) = pow2 a * pow2 b"
  by (simp add: pow2_powi power_int_add)

lemma pow2_int: "pow2 (int j) = 2 ^ j"
  by (simp add: pow2_def)

lemma nat_bounds_rat:
  assumes "0 < (n::nat)"
  shows "pow2 (int (floorlog 2 n) - 1) \<le> of_nat n \<and> (of_nat n :: rat) < pow2 (int (floorlog 2 n))"
proof -
  define j where "j = floorlog 2 n - 1"
  have pos: "floorlog 2 n \<noteq> 0" using assms by (simp add: floorlog_eq_zero_iff)
  then have k: "floorlog 2 n = Suc j" by (simp add: j_def)
  have b1: "2 ^ j \<le> n" using floorlog_bounds[of n 2] assms by (simp add: j_def)
  have b2: "n < 2 ^ Suc j" using floorlog_bounds[of n 2] assms by (simp add: k)
  have "(of_nat (2 ^ j) :: rat) \<le> of_nat n" by (simp only: of_nat_le_iff b1)
  then have r1: "(2::rat) ^ j \<le> of_nat n" by simp
  have "(of_nat n :: rat) < of_nat (2 ^ Suc j)" by (simp only: of_nat_less_iff b2)
  then have r2: "(of_nat n :: rat) < 2 ^ Suc j" by simp
  have e1: "int (Suc j) - 1 = int j" by simp
  show ?thesis unfolding k e1 pow2_int using r1 r2 by simp
qed

lemma ilog2_bounds:
  assumes "0 < x"
  shows "pow2 (ilog2 x) \<le> x \<and> x < pow2 (ilog2 x + 1)"
proof -
  obtain p q where pq: "quotient_of x = (p, q)" by (cases "quotient_of x")
  have q: "0 < q" using pq quotient_of_denom_pos by blast
  have x: "x = of_int p / of_int q" using pq quotient_of_div by blast
  have p: "0 < p" using assms q x by (simp add: zero_less_divide_iff)
  define bp where "bp = floorlog 2 (nat p)"
  define bq where "bq = floorlog 2 (nat q)"
  define k where "k = int bp - int bq"
  have P: "pow2 (int bp - 1) \<le> of_int p" "(of_int p :: rat) < pow2 (int bp)"
    using nat_bounds_rat[of "nat p"] p by (simp_all add: bp_def)
  have Q: "pow2 (int bq - 1) \<le> of_int q" "(of_int q :: rat) < pow2 (int bq)"
    using nat_bounds_rat[of "nat q"] q by (simp_all add: bq_def)
  have qpos: "(0::rat) < of_int q" using q by simp
  have lo: "pow2 (k - 1) < x"
  proof -
    have "pow2 (k - 1) * of_int q < pow2 (k - 1) * pow2 (int bq)"
      using Q(2) pow2_pos by simp
    also have "\<dots> = pow2 (int bp - 1)" by (simp add: k_def pow2_add[symmetric])
    also have "\<dots> \<le> of_int p" by (rule P(1))
    finally show ?thesis using qpos by (simp add: x pos_less_divide_eq)
  qed
  have hi: "x < pow2 (k + 1)"
  proof -
    have "of_int p < pow2 (int bp)" by (rule P(2))
    also have "\<dots> = pow2 (k + 1) * pow2 (int bq - 1)" by (simp add: k_def pow2_add[symmetric])
    also have "\<dots> \<le> pow2 (k + 1) * of_int q" using Q(1) pow2_pos by simp
    finally show ?thesis using qpos by (simp add: x pos_divide_less_eq)
  qed
  have il: "ilog2 x = (if pow2 k \<le> x then k else k - 1)"
    by (simp add: ilog2_def pq k_def bp_def bq_def Let_def)
  show ?thesis using lo hi by (auto simp: il)
qed

lemma ilog2_unique:
  assumes "pow2 ex \<le> x" "x < pow2 (ex + 1)"
  shows "ilog2 x = ex"
proof -
  have pos: "0 < x" using assms(1) pow2_pos[of ex] by linarith
  note b = ilog2_bounds[OF pos]
  have "\<not> ilog2 x < ex"
  proof
    assume "ilog2 x < ex"
    then have "pow2 (ilog2 x + 1) \<le> pow2 ex" by (intro pow2_mono) simp
    then show False using b assms by linarith
  qed
  moreover have "\<not> ex < ilog2 x"
  proof
    assume "ex < ilog2 x"
    then have "pow2 (ex + 1) \<le> pow2 (ilog2 x)" by (intro pow2_mono) simp
    then show False using b assms by linarith
  qed
  ultimately show ?thesis by simp
qed

lemma round64_cert:
  assumes "pow2 ex \<le> x" "x < pow2 (ex + 1)"
  shows "round64 sg x =
     (let u = pow2 (max ex (- 1022) - 52); y = of_int (rne (x / u)) * u
      in if pow2 1024 \<le> y then Inf sg else Fin sg y)"
proof -
  have "x \<noteq> 0" using assms(1) pow2_pos[of ex] by linarith
  then show ?thesis by (simp add: round64_def ilog2_unique[OF assms])
qed

lemma rne_of_int: "rne (of_int m) = m"
  by (simp add: rne_def)

lemma round64_exact:
  assumes "pow2 ex \<le> x" "x < pow2 (ex + 1)" "- 1022 \<le> ex" "ex \<le> 1023"
    and "x / pow2 (ex - 52) = of_int m"
  shows "round64 sg x = Fin sg x"
proof -
  have u: "pow2 (ex - 52) \<noteq> 0" using pow2_pos[of "ex - 52"] by simp
  have "x < pow2 1024" using assms(2,4) pow2_mono[of "ex + 1" 1024] by simp
  moreover have "of_int m * pow2 (ex - 52) = x" using assms(5) u by (simp add: field_simps)
  ultimately show ?thesis using assms(3,5)
    by (simp add: round64_cert[OF assms(1,2)] max_def rne_of_int)
qed

section \<open>The restart reader\<close>

lemma input_binary_loop:
  assumes "n \<le> length (file_records f)"
  shows "fold (input_binary_body padd junk f) [0..<n] (c, w) =
         (c + int n, fold padd (filter (\<lambda>p. number p > 0) (take n (file_records f))) w)"
  using assms
proof (induction n)
  case 0
  then show ?case by simp
next
  case (Suc n)
  then have n: "n < length (file_records f)" by simp
  then have "take (Suc n) (file_records f) = take n (file_records f) @ [file_records f ! n]"
    by (simp add: take_Suc_conv_app_nth)
  with Suc n show ?case
    by (simp add: input_binary_body_def fread_particle_def)
qed

text \<open>
  When the header is cut short \<^verbatim>\<open>bytes\<close> counts only the reads that succeeded and
  \<^verbatim>\<open>t\<close> is not taken from the file: on a file that ends after the count 0, one read
  is counted and \<^verbatim>\<open>t\<close> keeps its value.
\<close>

lemma input_binary_short_header:
  "input_binary padd junkN junkt junk restart_short t w = (1, t, w)"
  by (simp add: input_binary_def restart_short_def fread1_def)

text \<open>
  C10. On a file whose header holds the whole count \<open>_N\<close> and the whole time, and
  which holds at least \<open>_N\<close> whole records, \<^verbatim>\<open>input_binary\<close> reads the count and the
  time (which becomes the global \<^verbatim>\<open>t\<close>), then reads exactly \<open>_N\<close> particle records
  (together \<open>2 + _N\<close> successful reads), and hands to \<^verbatim>\<open>particles_add\<close> only the
  records whose \<open>number\<close> is strictly positive, in file order; the others are
  skipped, so at most \<open>_N\<close> particles are added.
\<close>

theorem input_binary_adds_positive_numbers:
  assumes "file_N f = Whole n" and "file_t f = Whole tf"
    and "nat n \<le> length (file_records f)"
  shows "input_binary padd junkN junkt junk f t w =
           (2 + int (nat n), tf,
            fold padd (filter (\<lambda>p. number p > 0) (take (nat n) (file_records f))) w)
         \<and> length (filter (\<lambda>p. number p > 0) (take (nat n) (file_records f))) \<le> nat n"
proof -
  have "length (filter (\<lambda>p. number p > 0) (take (nat n) (file_records f)))
          \<le> length (take (nat n) (file_records f))"
    by (rule length_filter_le)
  then show ?thesis
    using assms by (simp add: input_binary_def fread1_def input_binary_loop)
qed

theorem input_binary_adds_positive_numbers_witness:
  "file_N restart_example = Whole 3 \<and> file_t restart_example = Whole 1
   \<and> nat 3 \<le> length (file_records restart_example)
   \<and> input_binary (#) 7 0 (\<lambda>i. p_zero) restart_example 0 []
       = (5, 1, [p_zero\<lparr>number := 1\<rparr>])
   \<and> length (snd (snd (input_binary (#) 7 0 (\<lambda>i. p_zero) restart_example 0 []))) < nat 3"
  using input_binary_adds_positive_numbers
          [of restart_example 3 1 "(#)" 7 0 "\<lambda>i. p_zero" 0 "[]"]
  by (simp add: restart_example_def)


section \<open>The step as prefix, loop and suffix\<close>

lemma step_decomp:
  "integrator_ias15_step cfg st =
     (1, step_suffix cfg (snd (predictor_corrector_loop cfg (3 * int (length (particles st))) 0
                                  (step_prefix cfg st))))"
  by (simp add: integrator_ias15_step_def step_prefix_def step_suffix_def Let_def
           split: prod.split)

lemma fold_frame:
  assumes "\<And>i s. prj (body i s) = prj s"
  shows "prj (fold body xs s) = prj s"
  by (induction xs arbitrary: s) (simp_all add: assms)

section \<open>The predictor-corrector loop\<close>

lemma pc_loop_unfold:
  "predictor_corrector_loop cfg N3 it st =
     (if pc_exit it st then pc_finish it st
      else predictor_corrector_loop cfg N3 (it + 1) (pc_iteration cfg N3 st))"
  by (subst predictor_corrector_loop.simps) (auto simp: pc_exit_def pc_finish_def)

lemma pc_loop_trace:
  "0 \<le> it \<Longrightarrow> it \<le> 12 \<Longrightarrow>
   \<exists>n. it + int n \<le> 12
     \<and> predictor_corrector_loop cfg N3 it st
         = pc_finish (it + int n) ((pc_iteration cfg N3 ^^ n) st)
     \<and> pc_exit (it + int n) ((pc_iteration cfg N3 ^^ n) st)
     \<and> (\<forall>m<n. \<not> pc_exit (it + int m) ((pc_iteration cfg N3 ^^ m) st))"
proof (induction cfg N3 it st rule: predictor_corrector_loop.induct)
  case (1 cfg N3 it st)
  show ?case
  proof (cases "pc_exit it st")
    case True
    then have "it + int 0 \<le> 12
     \<and> predictor_corrector_loop cfg N3 it st
         = pc_finish (it + int 0) ((pc_iteration cfg N3 ^^ 0) st)
     \<and> pc_exit (it + int 0) ((pc_iteration cfg N3 ^^ 0) st)
     \<and> (\<forall>m<0. \<not> pc_exit (it + int m) ((pc_iteration cfg N3 ^^ m) st))"
      using "1.prems" by (simp add: pc_loop_unfold)
    then show ?thesis by blast
  next
    case False
    then have c: "\<not> predictor_corrector_error st < lit (1 / 10 ^ 16)"
      "\<not> (2 < it \<and> predictor_corrector_error_last st \<le> predictor_corrector_error st)"
      "\<not> 12 \<le> it"
      by (auto simp: pc_exit_def)
    have "0 \<le> it + 1" "it + 1 \<le> 12" using "1.prems" c(3) by auto
    from "1.IH"[OF c this] obtain n where n:
      "it + 1 + int n \<le> 12"
      "predictor_corrector_loop cfg N3 (it + 1) (pc_iteration cfg N3 st)
         = pc_finish (it + 1 + int n) ((pc_iteration cfg N3 ^^ n) (pc_iteration cfg N3 st))"
      "pc_exit (it + 1 + int n) ((pc_iteration cfg N3 ^^ n) (pc_iteration cfg N3 st))"
      "\<forall>m<n. \<not> pc_exit (it + 1 + int m) ((pc_iteration cfg N3 ^^ m) (pc_iteration cfg N3 st))"
      by blast
    have sw: "\<And>j. (pc_iteration cfg N3 ^^ j) (pc_iteration cfg N3 st)
                 = (pc_iteration cfg N3 ^^ Suc j) st"
      by (simp add: funpow_swap1)
    have e: "\<And>j. it + 1 + int j = it + int (Suc j)" by simp
    have all: "\<forall>m<Suc n. \<not> pc_exit (it + int m) ((pc_iteration cfg N3 ^^ m) st)"
    proof (intro allI impI)
      fix m assume m: "m < Suc n"
      show "\<not> pc_exit (it + int m) ((pc_iteration cfg N3 ^^ m) st)"
      proof (cases m)
        case 0
        then show ?thesis using False by simp
      next
        case (Suc j)
        then have "j < n" using m by simp
        then show ?thesis using n(4) Suc unfolding sw e by blast
      qed
    qed
    have "it + int (Suc n) \<le> 12
     \<and> predictor_corrector_loop cfg N3 it st
         = pc_finish (it + int (Suc n)) ((pc_iteration cfg N3 ^^ Suc n) st)
     \<and> pc_exit (it + int (Suc n)) ((pc_iteration cfg N3 ^^ Suc n) st)"
      using n(1,2,3) False unfolding sw e by (simp add: pc_loop_unfold)
    with all show ?thesis by blast
  qed
qed

text \<open>
  C2. The predictor-corrector loop of a step terminates. Started with the counter
  at 0 it runs \<open>n \<le> 12\<close> passes of its body and returns \<open>n\<close> as the number of
  iterations; \<open>n\<close> is the first count at which one of the three exit tests holds
  (the error below \<open>1e-16\<close>; more than 2 iterations and the error not below that
  of the previous iteration; 12 iterations), and none holds before.
\<close>

theorem predictor_corrector_loop_at_most_12:
  "\<exists>n. n \<le> 12
     \<and> predictor_corrector_loop cfg N3 0 st
         = pc_finish (int n) ((pc_iteration cfg N3 ^^ n) st)
     \<and> fst (predictor_corrector_loop cfg N3 0 st) = int n
     \<and> pc_exit (int n) ((pc_iteration cfg N3 ^^ n) st)
     \<and> (\<forall>m<n. \<not> pc_exit (int m) ((pc_iteration cfg N3 ^^ m) st))"
proof -
  from pc_loop_trace[of 0 cfg N3 st] obtain n where n:
    "int n \<le> 12"
    "predictor_corrector_loop cfg N3 0 st = pc_finish (int n) ((pc_iteration cfg N3 ^^ n) st)"
    "pc_exit (int n) ((pc_iteration cfg N3 ^^ n) st)"
    "\<forall>m<n. \<not> pc_exit (int m) ((pc_iteration cfg N3 ^^ m) st)"
    by auto
  have "fst (pc_finish (int n) ((pc_iteration cfg N3 ^^ n) st)) = int n"
    by (simp add: pc_finish_def)
  with n show ?thesis by auto
qed


section \<open>What the loops leave alone\<close>

lemma ctl_realloc [simp]: "ctl (realloc_buffers N3 st) = ctl st"
proof -
  have a: "\<And>l k s. ctl (realloc_zero_body l k s) = ctl s"
    by (simp add: realloc_zero_body_def ctl_def)
  have b: "\<And>l xs s. ctl (fold (realloc_zero_body l) xs s) = ctl s"
    by (rule fold_frame) (rule a)
  have c: "\<And>xs ys s. ctl (fold (\<lambda>l. fold (realloc_zero_body l) ys) xs s) = ctl s"
    by (rule fold_frame) (rule b)
  have d: "\<And>xs s. ctl (fold realloc_cs_body xs s) = ctl s"
    by (rule fold_frame) (simp add: realloc_cs_body_def ctl_def)
  have e: "\<And>s v. ctl (s\<lparr>N3allocated := v\<rparr>) = ctl s" by (simp add: ctl_def)
  show ?thesis by (simp add: realloc_buffers_def Let_def c d e)
qed

lemma ctl_warm_start [simp]: "ctl (fold warm_start_body xs st) = ctl st"
  by (rule fold_frame) (simp add: warm_start_body_def ctl_def Let_def)

lemma ctl_capture [simp]: "ctl (fold capture_body xs st) = ctl st"
  by (rule fold_frame) (simp add: capture_body_def ctl_def Let_def)

lemma ctl_g_from_b [simp]: "ctl (fold g_from_b_body xs st) = ctl st"
  by (rule fold_frame) (simp add: g_from_b_body_def ctl_def Let_def)

lemma ctl_predict_position [simp]: "ctl (fold (predict_position_body n) xs st) = ctl st"
  by (rule fold_frame) (simp add: predict_position_body_def ctl_def Let_def)

lemma ctl_predict_velocity [simp]: "ctl (fold (predict_velocity_body n) xs st) = ctl st"
  by (rule fold_frame) (simp add: predict_velocity_body_def ctl_def Let_def)

lemma ctl_update_acc [simp]: "ctl (integrator_update_acceleration cfg st) = ctl st"
  by (simp add: integrator_update_acceleration_def ctl_def Let_def)

lemma ctl_copy_at [simp]: "ctl (fold copy_at_body xs st) = ctl st"
  by (rule fold_frame) (simp add: copy_at_body_def ctl_def)

lemma ctl_improve [simp]: "ctl (fold (improve_body n) xs st) = ctl st"
  by (rule fold_frame) (simp add: improve_body_def ctl_def Let_def)

lemma ctl_node [simp]: "ctl (node_body cfg N3 n st) = ctl st"
  by (simp add: node_body_def Let_def)

lemma ctl_pc_iteration [simp]: "ctl (pc_iteration cfg N3 st) = ctl st"
proof -
  have "\<And>xs s. ctl (fold (node_body cfg N3) xs s) = ctl s"
    by (rule fold_frame) simp
  then show ?thesis by (simp add: pc_iteration_def Let_def) (simp add: ctl_def)
qed

lemma ctl_upd [simp]:
  "ctl (st\<lparr>predictor_corrector_error := v\<rparr>) = ctl st"
  "ctl (st\<lparr>predictor_corrector_error_last := v\<rparr>) = ctl st"
  "ctl (st\<lparr>dtexp_min := m\<rparr>) = ctl st"
  "ctl (st\<lparr>particles := ps\<rparr>) = ctl st"
  by (simp_all add: ctl_def)

lemma ctl_set_particle [simp]: "ctl (set_particle i f st) = ctl st"
  by (simp add: set_particle_def)

lemma ctl_commit_component [simp]: "ctl (fold (commit_component d2) xs st) = ctl st"
  by (rule fold_frame) (simp add: commit_component_def ctl_def Let_def)

lemma ctl_commit [simp]: "ctl (fold (commit_body d2) xs st) = ctl st"
  by (rule fold_frame) (simp add: commit_body_def Let_def)

lemma ctl_controller [simp]: "ctl (fold (controller_body cfg) xs st) = ctl st"
  by (rule fold_frame) (simp add: controller_body_def Let_def)

lemma ctl_dtexp_min [simp]: "ctl (fold dtexp_min_body xs st) = ctl st"
  by (rule fold_frame) (simp add: dtexp_min_body_def)

lemma field_of_ctl:
  "t_g st = fst (ctl st)"
  "dt_g st = fst (snd (ctl st))"
  "dtexp_g st = fst (snd (snd (ctl st)))"
  "dtexp_substep st = fst (snd (snd (snd (ctl st))))"
  "integrator_iterations_max_exceeded st = fst (snd (snd (snd (snd (ctl st)))))"
  "warnings st = snd (snd (snd (snd (snd (ctl st)))))"
  by (simp_all add: ctl_def)

lemma errs_upd [simp]:
  "errs (st\<lparr>dtexp_min := m\<rparr>) = errs st"
  "errs (st\<lparr>particles := ps\<rparr>) = errs st"
  by (simp_all add: errs_def)

lemma errs_set_particle [simp]: "errs (set_particle i f st) = errs st"
  by (simp add: set_particle_def)

lemma errs_commit_component [simp]: "errs (fold (commit_component d2) xs st) = errs st"
  by (rule fold_frame) (simp add: commit_component_def errs_def Let_def)

lemma errs_commit [simp]: "errs (fold (commit_body d2) xs st) = errs st"
  by (rule fold_frame) (simp add: commit_body_def Let_def)

lemma errs_controller [simp]: "errs (fold (controller_body cfg) xs st) = errs st"
  by (rule fold_frame) (simp add: controller_body_def Let_def)

lemma errs_dtexp_min [simp]: "errs (fold dtexp_min_body xs st) = errs st"
  by (rule fold_frame) (simp add: dtexp_min_body_def)

lemma errs_advance [simp]: "errs (advance_substep cfg st) = errs st"
  by (simp add: advance_substep_def errs_def Let_def)

lemma field_of_errs:
  "predictor_corrector_error st = fst (errs st)"
  "predictor_corrector_error_last st = snd (errs st)"
  by (simp_all add: errs_def)

lemma errs_suffix: "errs (step_suffix cfg st) = errs st"
  by (simp add: step_suffix_def Let_def)

lemma counter_advance:
  "integrator_iterations_max_exceeded (advance_substep cfg st) = integrator_iterations_max_exceeded st"
  "warnings (advance_substep cfg st) = warnings st"
  "dt_g (advance_substep cfg st) = dt_g st"
  "particles (advance_substep cfg st) = particles st"
  by (simp_all add: advance_substep_def Let_def)

lemma counter_suffix:
  "integrator_iterations_max_exceeded (step_suffix cfg st) = integrator_iterations_max_exceeded st"
  "warnings (step_suffix cfg st) = warnings st"
  "dt_g (step_suffix cfg st) = dt_g st"
  by (simp_all add: step_suffix_def Let_def counter_advance) (simp_all add: field_of_ctl)

lemma ctl_compute_dt [simp]: "snd (snd (ctl (compute_dt cfg st))) = snd (snd (ctl st))"
  by (simp add: ctl_def compute_dt_def)

lemma counter_prefix:
  "integrator_iterations_max_exceeded (step_prefix cfg st) = integrator_iterations_max_exceeded st"
  "warnings (step_prefix cfg st) = warnings st"
  by (simp_all add: step_prefix_def Let_def field_of_ctl(5,6))

lemma funpow_frame:
  assumes "\<And>s. prj (f s) = prj s"
  shows "prj ((f ^^ n) s) = prj s"
  by (induction n) (simp_all add: assms)

lemma pc_finish_counter:
  assumes "pc_exit it st" "it \<le> 12"
  shows "integrator_iterations_max_exceeded (snd (pc_finish it st)) =
           integrator_iterations_max_exceeded st
           + (if \<not> predictor_corrector_error st < lit (1 / 10 ^ 16)
                 \<and> \<not> predictor_corrector_error_last st \<le> predictor_corrector_error st
              then 1 else 0)"
    and "warnings (snd (pc_finish it st)) =
           warnings st
           + (if \<not> predictor_corrector_error st < lit (1 / 10 ^ 16)
                 \<and> \<not> predictor_corrector_error_last st \<le> predictor_corrector_error st
                 \<and> integrator_iterations_max_exceeded st + 1 = 10
              then 1 else 0)"
    and "errs (snd (pc_finish it st)) = errs st"
  using assms by (auto simp: pc_finish_def pc_exit_def max_exceeded_def Let_def errs_def)


section \<open>The step returns success\<close>

lemma pc_loop_counter:
  fixes cfg N3 st
  defines "r \<equiv> snd (predictor_corrector_loop cfg N3 0 st)"
  defines "unconverged \<equiv> \<not> predictor_corrector_error r < lit (1 / 10 ^ 16)
                 \<and> \<not> predictor_corrector_error_last r \<le> predictor_corrector_error r"
  shows "integrator_iterations_max_exceeded r =
           integrator_iterations_max_exceeded st + (if unconverged then 1 else 0)"
    and "warnings r =
           warnings st + (if unconverged \<and> integrator_iterations_max_exceeded r = 10 then 1 else 0)"
proof -
  from pc_loop_trace[of 0 cfg N3 st] obtain n where n:
    "int n \<le> 12"
    "predictor_corrector_loop cfg N3 0 st = pc_finish (int n) ((pc_iteration cfg N3 ^^ n) st)"
    "pc_exit (int n) ((pc_iteration cfg N3 ^^ n) st)"
    by auto
  define sn where "sn = (pc_iteration cfg N3 ^^ n) st"
  have c: "ctl sn = ctl st" unfolding sn_def by (rule funpow_frame) simp
  have r: "r = snd (pc_finish (int n) sn)" by (simp add: r_def n(2) sn_def)
  note f = pc_finish_counter[OF n(3)[folded sn_def] n(1), folded r]
  have e: "predictor_corrector_error r = predictor_corrector_error sn"
          "predictor_corrector_error_last r = predictor_corrector_error_last sn"
    using f(3) by (simp_all add: errs_def)
  have cs: "integrator_iterations_max_exceeded sn = integrator_iterations_max_exceeded st"
           "warnings sn = warnings st"
    using c by (simp_all add: ctl_def)
  show "integrator_iterations_max_exceeded r =
           integrator_iterations_max_exceeded st + (if unconverged then 1 else 0)"
    using f(1) by (simp add: unconverged_def e cs)
  then show "warnings r =
           warnings st + (if unconverged \<and> integrator_iterations_max_exceeded r = 10 then 1 else 0)"
    using f(2) by (simp add: unconverged_def e cs)
qed

text \<open>
  C4. \<^verbatim>\<open>integrator_ias15_step\<close> always returns 1. When the predictor-corrector loop
  leaves through its 12-iterations exit (at the end of the step the error is not
  below \<open>1e-16\<close> and is below the error of the previous iteration), the step is
  still carried out, \<^verbatim>\<open>integrator_iterations_max_exceeded\<close> is incremented by one,
  and one warning is printed exactly when the incremented counter equals 10;
  otherwise the counter and the warnings are unchanged. \<^verbatim>\<open>integrator_part2\<close>
  returns after exactly one call of the step routine.
\<close>

theorem step_always_succeeds:
  "fst (integrator_ias15_step cfg st) = 1
   \<and> integrator_part2 cfg st = Some (1, snd (integrator_ias15_step cfg st))
   \<and> (let st' = snd (integrator_ias15_step cfg st);
           unconverged = (\<not> predictor_corrector_error st' < lit (1 / 10 ^ 16)
                          \<and> \<not> predictor_corrector_error_last st' \<le> predictor_corrector_error st')
       in integrator_iterations_max_exceeded st' =
            integrator_iterations_max_exceeded st + (if unconverged then 1 else 0)
          \<and> warnings st' =
            warnings st
            + (if unconverged \<and> integrator_iterations_max_exceeded st' = 10 then 1 else 0))"
proof -
  define r where "r = snd (predictor_corrector_loop cfg (3 * int (length (particles st))) 0
                              (step_prefix cfg st))"
  have st': "snd (integrator_ias15_step cfg st) = step_suffix cfg r"
    by (simp add: step_decomp r_def)
  have e: "predictor_corrector_error (step_suffix cfg r) = predictor_corrector_error r"
          "predictor_corrector_error_last (step_suffix cfg r) = predictor_corrector_error_last r"
    using errs_suffix[of cfg r] by (simp_all add: errs_def)
  note l = pc_loop_counter[of cfg "3 * int (length (particles st))" "step_prefix cfg st",
              folded r_def, unfolded counter_prefix]
  have p2: "integrator_part2 cfg st = Some (1, snd (integrator_ias15_step cfg st))"
    unfolding integrator_part2_def
    by (subst integrator_part2_loop.simps) (simp add: step_decomp)
  have f1: "fst (integrator_ias15_step cfg st) = 1" by (simp add: step_decomp)
  show ?thesis
    unfolding Let_def st' e counter_suffix
    using f1 l p2[unfolded st'] by simp
qed


section \<open>What the predictor-corrector loop leaves alone\<close>

lemma map_update_same: "f v = f (xs ! i) \<Longrightarrow> map f (xs[i := v]) = map f xs"
  by (cases "i < length xs") (simp_all add: map_update list_update_same_conv list_update_beyond)

lemma map_write_acc:
  assumes "\<And>p a b c. f (p\<lparr>ax := a, ay := b, az := c\<rparr>) = f p"
  shows "map f (write_acc k ps) = map f ps"
proof (rule nth_equalityI)
  show "length (map f (write_acc k ps)) = length (map f ps)"
    by (simp add: write_acc_def)
next
  fix i assume "i < length (map f (write_acc k ps))"
  then have i: "i < length ps" by (simp add: write_acc_def)
  then show "map f (write_acc k ps) ! i = map f ps ! i"
    by (simp add: write_acc_def assms)
qed

lemma pstat_write_acc [simp]: "map pstat (write_acc k ps) = map pstat ps"
  by (rule map_write_acc) (simp add: pstat_def)

lemma pvel_write_acc [simp]: "map pvel (write_acc k ps) = map pvel ps"
  by (rule map_write_acc) (simp add: pvel_def)

lemma pstat_update_acc [simp]:
  "map pstat (particles (integrator_update_acceleration cfg st)) = map pstat (particles st)"
  by (cases "problem_additional_forces cfg")
     (simp_all add: integrator_update_acceleration_def Let_def)

lemma pvel_update_acc [simp]:
  "map pvel (particles (integrator_update_acceleration cfg st)) = map pvel (particles st)"
  by (cases "problem_additional_forces cfg")
     (simp_all add: integrator_update_acceleration_def Let_def)

lemma pstat_predict_position [simp]:
  "map pstat (particles (fold (predict_position_body n) xs st)) = map pstat (particles st)"
  by (rule fold_frame)
     (simp add: predict_position_body_def Let_def map_update_same pstat_def)

lemma pstat_predict_velocity [simp]:
  "map pstat (particles (fold (predict_velocity_body n) xs st)) = map pstat (particles st)"
  by (rule fold_frame)
     (simp add: predict_velocity_body_def Let_def map_update_same pstat_def)

lemma particles_copy_at [simp]: "particles (fold copy_at_body xs st) = particles st"
  by (rule fold_frame) (simp add: copy_at_body_def)

lemma particles_improve [simp]: "particles (fold (improve_body n) xs st) = particles st"
  by (rule fold_frame) (simp add: improve_body_def Let_def)

lemma pstat_node [simp]:
  "map pstat (particles (node_body cfg N3 n st)) = map pstat (particles st)"
  by (simp add: node_body_def Let_def)

lemma pstat_pc_iteration [simp]:
  "map pstat (particles (pc_iteration cfg N3 st)) = map pstat (particles st)"
proof -
  have "\<And>xs s. map pstat (particles (fold (node_body cfg N3) xs s)) = map pstat (particles s)"
    by (rule fold_frame) simp
  then show ?thesis by (simp add: pc_iteration_def Let_def)
qed

lemma bufs_predict_position [simp]: "bufs (fold (predict_position_body n) xs st) = bufs st"
  by (rule fold_frame) (simp add: predict_position_body_def Let_def bufs_def)

lemma bufs_predict_velocity [simp]: "bufs (fold (predict_velocity_body n) xs st) = bufs st"
  by (rule fold_frame) (simp add: predict_velocity_body_def Let_def bufs_def)

lemma bufs_update_acc [simp]: "bufs (integrator_update_acceleration cfg st) = bufs st"
  by (simp add: integrator_update_acceleration_def Let_def bufs_def)

lemma bufs_copy_at [simp]: "bufs (fold copy_at_body xs st) = bufs st"
  by (rule fold_frame) (simp add: copy_at_body_def bufs_def)

lemma bufs_improve [simp]: "bufs (fold (improve_body n) xs st) = bufs st"
  by (rule fold_frame) (simp add: improve_body_def Let_def bufs_def)

lemma bufs_node [simp]: "bufs (node_body cfg N3 n st) = bufs st"
  by (simp add: node_body_def Let_def)

lemma bufs_pc_iteration [simp]: "bufs (pc_iteration cfg N3 st) = bufs st"
proof -
  have "\<And>xs s. bufs (fold (node_body cfg N3) xs s) = bufs s"
    by (rule fold_frame) simp
  then show ?thesis by (simp add: pc_iteration_def Let_def) (simp add: bufs_def)
qed

lemma pc_loop_frame:
  assumes "\<And>s. prj (pc_iteration cfg N3 s) = prj s" "\<And>s. prj (max_exceeded s) = prj s"
  shows "prj (snd (predictor_corrector_loop cfg N3 0 st)) = prj st"
proof -
  from pc_loop_trace[of 0 cfg N3 st] obtain n where n:
    "predictor_corrector_loop cfg N3 0 st = pc_finish (int n) ((pc_iteration cfg N3 ^^ n) st)"
    by auto
  have "prj ((pc_iteration cfg N3 ^^ n) st) = prj st"
    by (rule funpow_frame) (rule assms(1))
  then show ?thesis by (simp add: n pc_finish_def assms(2))
qed

lemma pc_loop_pstat [simp]:
  "map pstat (particles (snd (predictor_corrector_loop cfg N3 0 st))) = map pstat (particles st)"
  by (rule pc_loop_frame) (simp_all add: max_exceeded_def Let_def)

lemma pc_loop_bufs [simp]:
  "bufs (snd (predictor_corrector_loop cfg N3 0 st)) = bufs st"
  by (rule pc_loop_frame) (simp, simp add: max_exceeded_def Let_def bufs_def)

lemma pc_loop_t_g [simp]: "t_g (snd (predictor_corrector_loop cfg N3 0 st)) = t_g st"
  by (rule pc_loop_frame[where prj=t_g])
     (simp add: field_of_ctl(1), simp add: max_exceeded_def Let_def)

lemma pc_loop_dt_g [simp]: "dt_g (snd (predictor_corrector_loop cfg N3 0 st)) = dt_g st"
  by (rule pc_loop_frame[where prj=dt_g])
     (simp add: field_of_ctl(2), simp add: max_exceeded_def Let_def)

lemma pc_loop_dtexp_g [simp]: "dtexp_g (snd (predictor_corrector_loop cfg N3 0 st)) = dtexp_g st"
  by (rule pc_loop_frame[where prj=dtexp_g])
     (simp add: field_of_ctl(3), simp add: max_exceeded_def Let_def)

lemma pc_loop_dtexp_substep [simp]:
  "dtexp_substep (snd (predictor_corrector_loop cfg N3 0 st)) = dtexp_substep st"
  by (rule pc_loop_frame[where prj=dtexp_substep])
     (simp add: field_of_ctl(4), simp add: max_exceeded_def Let_def)


section \<open>Loops over particles\<close>

lemma fold_local:
  assumes sh: "\<And>j s. sh (body j s) = sh s"
      and other: "\<And>j s. j \<noteq> i \<Longrightarrow> view (body j s) = view s"
      and own: "\<And>s s'. sh s = sh s' \<Longrightarrow> view s = view s' \<Longrightarrow> view (body i s) = view (body i s')"
  shows "view (fold body [0..<n] s) = (if i < n then view (body i s) else view s)"
proof (induction n)
  case 0
  then show ?case by simp
next
  case (Suc n)
  define S where "S = fold body [0..<n] s"
  have shS: "sh S = sh s" unfolding S_def by (rule fold_frame) (rule sh)
  have f: "fold body [0..<Suc n] s = body n S" by (simp add: S_def)
  show ?case
  proof (cases "i = n")
    case True
    then have "view S = view s" using Suc by (simp add: S_def)
    then have "view (body i S) = view (body i s)" using shS by (intro own)
    then show ?thesis using True unfolding f by simp
  next
    case False
    then have "view (body n S) = view S" by (intro other) simp
    moreover have "view S = (if i < n then view (body i s) else view s)"
      using Suc by (simp add: S_def)
    moreover have "(i < Suc n) = (i < n)" using False by auto
    ultimately show ?thesis unfolding f by simp
  qed
qed

lemma idx3 [simp]:
  "(3 * j = 3 * i + (1::nat)) = False" "(3 * j = 3 * i + (2::nat)) = False"
  "(3 * j + 1 = 3 * (i::nat)) = False" "(3 * j + 2 = 3 * (i::nat)) = False"
  "(3 * j + 1 = 3 * i + (2::nat)) = False" "(3 * j + 2 = 3 * i + (1::nat)) = False"
  by presburger+

lemma upt3: "[3 * i..<3 * (i + 1)] = [3 * i, 3 * i + 1, 3 * i + 2]"
proof -
  have "[3 * i..<3 * i + 3] = [3 * i, 3 * i + 1, 3 * i + 2]"
    by (simp add: upt_rec[of "3 * i"] upt_rec[of "Suc (3 * i)"] upt_rec[of "Suc (Suc (3 * i))"])
  then show ?thesis by (simp add: algebra_simps)
qed

lemma particles_capture [simp]: "particles (fold capture_body xs st) = particles st"
  by (rule fold_frame) (simp add: capture_body_def Let_def)

lemma nth_upd: "(xs[i := v]) ! j = (if i = j \<and> i < length xs then v else xs ! j)"
  by (cases "i < length xs") (auto simp: list_update_beyond)

lemma idx3S [simp]:
  "(3 * j = Suc (3 * i)) = False" "(3 * j = Suc (Suc (3 * i))) = False"
  "(Suc (3 * j) = 3 * i) = False" "(Suc (Suc (3 * j)) = 3 * i) = False"
  by presburger+

lemma capture_kview:
  assumes "i < n"
  shows "x0 (fold capture_body [0..<n] st) (3 * i) = p_x (particles st ! i)"
    and "x0 (fold capture_body [0..<n] st) (3 * i + 1) = p_y (particles st ! i)"
    and "x0 (fold capture_body [0..<n] st) (3 * i + 2) = p_z (particles st ! i)"
    and "v0 (fold capture_body [0..<n] st) (3 * i) = vx (particles st ! i)"
    and "v0 (fold capture_body [0..<n] st) (3 * i + 1) = vy (particles st ! i)"
    and "v0 (fold capture_body [0..<n] st) (3 * i + 2) = vz (particles st ! i)"
    and "a0 (fold capture_body [0..<n] st) (3 * i) = ax (particles st ! i)"
    and "a0 (fold capture_body [0..<n] st) (3 * i + 1) = ay (particles st ! i)"
    and "a0 (fold capture_body [0..<n] st) (3 * i + 2) = az (particles st ! i)"
proof -
  let ?v = "\<lambda>s. ((x0 s (3 * i), x0 s (3 * i + 1), x0 s (3 * i + 2)),
                 (v0 s (3 * i), v0 s (3 * i + 1), v0 s (3 * i + 2)),
                 (a0 s (3 * i), a0 s (3 * i + 1), a0 s (3 * i + 2)))"
  have "?v (fold capture_body [0..<n] st) = (if i < n then ?v (capture_body i st) else ?v st)"
    by (rule fold_local[where sh=particles])
       (simp_all add: capture_body_def Let_def)
  then have "?v (fold capture_body [0..<n] st) = ?v (capture_body i st)"
    using assms by simp
  then show "x0 (fold capture_body [0..<n] st) (3 * i) = p_x (particles st ! i)"
    and "x0 (fold capture_body [0..<n] st) (3 * i + 1) = p_y (particles st ! i)"
    and "x0 (fold capture_body [0..<n] st) (3 * i + 2) = p_z (particles st ! i)"
    and "v0 (fold capture_body [0..<n] st) (3 * i) = vx (particles st ! i)"
    and "v0 (fold capture_body [0..<n] st) (3 * i + 1) = vy (particles st ! i)"
    and "v0 (fold capture_body [0..<n] st) (3 * i + 2) = vz (particles st ! i)"
    and "a0 (fold capture_body [0..<n] st) (3 * i) = ax (particles st ! i)"
    and "a0 (fold capture_body [0..<n] st) (3 * i + 1) = ay (particles st ! i)"
    and "a0 (fold capture_body [0..<n] st) (3 * i + 2) = az (particles st ! i)"
    by (simp_all add: capture_body_def Let_def)
qed

lemma cc_particles [simp]: "particles (commit_component d k s) = particles s"
  by (simp add: commit_component_def Let_def)

lemma cc_shared [simp]: "shared (commit_component d k s) = shared s"
  by (simp add: commit_component_def Let_def shared_def ctl_def errs_def)

lemma cc_other: "k' \<noteq> k \<Longrightarrow> kview k' (commit_component d k s) = kview k' s"
  by (simp add: commit_component_def Let_def kview_def set2_def fun_eq_iff)

lemma cc_own:
  "dt_g s = dt_g s' \<Longrightarrow> kview k s = kview k s'
   \<Longrightarrow> kview k (commit_component d k s) = kview k (commit_component d k s')"
  by (simp add: commit_component_def Let_def kview_def set2_def fun_eq_iff)

lemma cc_fields [simp]:
  "t_g (commit_component d k s) = t_g s"
  "dt_g (commit_component d k s) = dt_g s"
  "dtexp_g (commit_component d k s) = dtexp_g s"
  "dtexp_substep (commit_component d k s) = dtexp_substep s"
  by (simp_all add: commit_component_def Let_def)

lemma commit3_fold: "fold (commit_component d) [3 * j..<3 * (j + 1)] st = commit3 d j st"
  unfolding upt3 commit3_def by simp

lemma c3_fields [simp]:
  "particles (commit3 d j s) = particles s"
  "shared (commit3 d j s) = shared s"
  "t_g (commit3 d j s) = t_g s"
  "dt_g (commit3 d j s) = dt_g s"
  "dtexp_g (commit3 d j s) = dtexp_g s"
  "dtexp_substep (commit3 d j s) = dtexp_substep s"
  by (simp_all add: commit3_def)

lemma c3_other:
  "k \<noteq> 3 * j \<Longrightarrow> k \<noteq> 3 * j + 1 \<Longrightarrow> k \<noteq> 3 * j + 2 \<Longrightarrow> kview k (commit3 d j s) = kview k s"
  by (simp add: commit3_def cc_other)

lemma c3_own:
  assumes dt: "dt_g s = dt_g s'"
    and k0: "kview (3 * j) s = kview (3 * j) s'"
    and k1: "kview (3 * j + 1) s = kview (3 * j + 1) s'"
    and k2: "kview (3 * j + 2) s = kview (3 * j + 2) s'"
  shows "kview (3 * j) (commit3 d j s) = kview (3 * j) (commit3 d j s')"
    and "kview (3 * j + 1) (commit3 d j s) = kview (3 * j + 1) (commit3 d j s')"
    and "kview (3 * j + 2) (commit3 d j s) = kview (3 * j + 2) (commit3 d j s')"
proof -
  define a where "a = commit_component d (3 * j) s"
  define a' where "a' = commit_component d (3 * j) s'"
  define b where "b = commit_component d (3 * j + 1) a"
  define b' where "b' = commit_component d (3 * j + 1) a'"
  have a0: "kview (3 * j) a = kview (3 * j) a'"
    unfolding a_def a'_def by (rule cc_own[OF dt k0])
  have a1: "kview (3 * j + 1) a = kview (3 * j + 1) a'"
    unfolding a_def a'_def using k1 by (simp add: cc_other)
  have a2: "kview (3 * j + 2) a = kview (3 * j + 2) a'"
    unfolding a_def a'_def using k2 by (simp add: cc_other)
  have dta: "dt_g a = dt_g a'" by (simp add: a_def a'_def dt)
  have b0: "kview (3 * j) b = kview (3 * j) b'"
    unfolding b_def b'_def using a0 by (simp add: cc_other)
  have b1: "kview (3 * j + 1) b = kview (3 * j + 1) b'"
    unfolding b_def b'_def by (rule cc_own[OF dta a1])
  have b2: "kview (3 * j + 2) b = kview (3 * j + 2) b'"
    unfolding b_def b'_def using a2 by (simp add: cc_other)
  have dtb: "dt_g b = dt_g b'" by (simp add: b_def b'_def dta)
  have c: "commit3 d j s = commit_component d (3 * j + 2) b"
          "commit3 d j s' = commit_component d (3 * j + 2) b'"
    by (simp_all add: commit3_def a_def a'_def b_def b'_def)
  show "kview (3 * j) (commit3 d j s) = kview (3 * j) (commit3 d j s')"
    unfolding c using b0 by (simp add: cc_other)
  show "kview (3 * j + 1) (commit3 d j s) = kview (3 * j + 1) (commit3 d j s')"
    unfolding c using b1 by (simp add: cc_other)
  show "kview (3 * j + 2) (commit3 d j s) = kview (3 * j + 2) (commit3 d j s')"
    unfolding c by (rule cc_own[OF dtb b2])
qed

lemma commit_body_alt:
  "commit_body d i s =
     (let B = (if dtexp (particles s ! i) = dtexp_g s then commit3 d i s else s)
      in B\<lparr> particles := (particles s)[i := commit_particle s B i] \<rparr>)"
proof (cases "i < length (particles s)")
  case True
  then show ?thesis
    unfolding commit_body_def commit3_fold
    by (simp add: set_particle_def commit_particle_def Let_def)
next
  case False
  then show ?thesis
    unfolding commit_body_def commit3_fold
    by (simp add: set_particle_def Let_def list_update_beyond)
qed

lemma kview_particles [simp]: "kview k (s\<lparr>particles := ps\<rparr>) = kview k s"
  by (simp add: kview_def)

lemma shared_commit [simp]: "shared (commit_body d i s) = shared s"
proof -
  have a: "\<And>B ps. length ps = length (particles s) \<Longrightarrow> shared B = shared s
             \<Longrightarrow> shared (B\<lparr>particles := ps\<rparr>) = shared s"
    by (simp add: shared_def ctl_def errs_def)
  show ?thesis by (simp add: commit_body_alt Let_def a)
qed

lemma commit_kview:
  "kview k (commit_body d i s) =
     kview k (if dtexp (particles s ! i) = dtexp_g s then commit3 d i s else s)"
  by (simp add: commit_body_alt Let_def)

lemma commit_particles:
  "particles (commit_body d i s) =
     (particles s)[i := commit_particle s
        (if dtexp (particles s ! i) = dtexp_g s then commit3 d i s else s) i]"
  by (simp add: commit_body_alt Let_def)

lemma commit_other: "j \<noteq> i \<Longrightarrow> pview i (commit_body d j s) = pview i s"
  by (simp add: pview_def commit_kview commit_particles c3_other)

lemma kview_fields:
  "x0 s k = fst (kview k s)"
  "v0 s k = fst (snd (kview k s))"
  by (simp_all add: kview_def)

lemma commit_own:
  assumes sh: "shared s = shared s'" and pv: "pview i s = pview i s'"
  shows "pview i (commit_body d i s) = pview i (commit_body d i s')"
proof -
  have g: "t_g s = t_g s'" "dt_g s = dt_g s'" "dtexp_g s = dtexp_g s'"
          "dtexp_substep s = dtexp_substep s'" "length (particles s) = length (particles s')"
    using sh by (simp_all add: shared_def ctl_def)
  have p: "particles s ! i = particles s' ! i" and
       k: "kview (3 * i) s = kview (3 * i) s'" "kview (3 * i + 1) s = kview (3 * i + 1) s'"
          "kview (3 * i + 2) s = kview (3 * i + 2) s'"
    using pv by (simp_all add: pview_def)
  note o = c3_own[OF g(2) k, of d]
  define B where "B = (if dtexp (particles s ! i) = dtexp_g s then commit3 d i s else s)"
  define B' where "B' = (if dtexp (particles s' ! i) = dtexp_g s' then commit3 d i s' else s')"
  have kb: "kview (3 * i) B = kview (3 * i) B'" "kview (3 * i + 1) B = kview (3 * i + 1) B'"
           "kview (3 * i + 2) B = kview (3 * i + 2) B'"
    using o k by (simp_all add: B_def B'_def p g)
  have cp: "commit_particle s B i = commit_particle s' B' i"
    using kb k p g by (simp add: commit_particle_def kview_fields Let_def)
  have pk: "kview (3 * i) (commit_body d i s) = kview (3 * i) (commit_body d i s')"
    "kview (3 * i + 1) (commit_body d i s) = kview (3 * i + 1) (commit_body d i s')"
    "kview (3 * i + 2) (commit_body d i s) = kview (3 * i + 2) (commit_body d i s')"
    using kb unfolding commit_kview B_def B'_def by simp_all
  have pp: "particles (commit_body d i s) ! i = particles (commit_body d i s') ! i"
    unfolding commit_particles B_def[symmetric] B'_def[symmetric] cp
    by (simp add: nth_upd g p)
  show ?thesis unfolding pview_def pk pp ..
qed

lemma commit_local:
  "pview i (fold (commit_body d) [0..<n] s)
     = (if i < n then pview i (commit_body d i s) else pview i s)"
proof (rule fold_local[where sh=shared])
  show "\<And>j s. shared (commit_body d j s) = shared s" by simp
  show "\<And>j s. j \<noteq> i \<Longrightarrow> pview i (commit_body d j s) = pview i s"
    by (rule commit_other)
  show "\<And>s s'. shared s = shared s' \<Longrightarrow> pview i s = pview i s'
          \<Longrightarrow> pview i (commit_body d i s) = pview i (commit_body d i s')"
    by (rule commit_own)
qed

lemma kview_upd [simp]:
  "kview k (s\<lparr>dtexp_min := m\<rparr>) = kview k s"
  "kview k (s\<lparr>predictor_corrector_error := v\<rparr>) = kview k s"
  "kview k (s\<lparr>predictor_corrector_error_last := v\<rparr>) = kview k s"
  "kview k (s\<lparr>N3allocated := n\<rparr>) = kview k s"
  "kview k (s\<lparr>dt_g := v\<rparr>) = kview k s"
  by (simp_all add: kview_def)

lemma kview_set_particle [simp]: "kview k (set_particle i f s) = kview k s"
  by (simp add: set_particle_def)

lemma kview_controller [simp]: "kview k (fold (controller_body cfg) xs s) = kview k s"
  by (rule fold_frame) (simp add: controller_body_def Let_def)

lemma kview_dtexp_min [simp]: "kview k (fold dtexp_min_body xs s) = kview k s"
  by (rule fold_frame) (simp add: dtexp_min_body_def)

lemma kview_advance [simp]: "kview k (advance_substep cfg s) = kview k s"
  by (simp add: advance_substep_def Let_def kview_def)

lemma pnod_controller [simp]:
  "map pnod (particles (fold (controller_body cfg) xs s)) = map pnod (particles s)"
  by (rule fold_frame)
     (simp add: controller_body_def Let_def set_particle_def map_update_same pnod_def)

lemma particles_dtexp_min [simp]: "particles (fold dtexp_min_body xs s) = particles s"
  by (rule fold_frame) (simp add: dtexp_min_body_def)

lemma suffix_kview:
  "kview k (step_suffix cfg s)
     = kview k (fold (commit_body (dt_g s * dt_g s)) [0..<length (particles s)] s)"
  by (simp add: step_suffix_def Let_def)

lemma suffix_pnod:
  "map pnod (particles (step_suffix cfg s))
     = map pnod (particles (fold (commit_body (dt_g s * dt_g s)) [0..<length (particles s)] s))"
  by (simp add: step_suffix_def Let_def counter_advance)

lemma length_commit [simp]:
  "length (particles (fold (commit_body d) xs s)) = length (particles s)"
  by (rule fold_frame) (simp add: commit_particles)

lemma suffix_particle:
  assumes "i < length (particles s)"
  shows "pnod (particles (step_suffix cfg s) ! i)
           = pnod (particles (commit_body (dt_g s * dt_g s) i s) ! i)"
proof -
  define S where "S = fold (commit_body (dt_g s * dt_g s)) [0..<length (particles s)] s"
  have l: "length (particles S) = length (particles s)" by (simp add: S_def)
  have "map pnod (particles (step_suffix cfg s)) ! i = map pnod (particles S) ! i"
    by (simp add: suffix_pnod S_def)
  moreover have "length (particles (step_suffix cfg s)) = length (particles S)"
    using suffix_pnod[of cfg s] S_def by (metis length_map)
  ultimately have "pnod (particles (step_suffix cfg s) ! i) = pnod (particles S ! i)"
    using assms l by simp
  moreover have "pview i S = pview i (commit_body (dt_g s * dt_g s) i s)"
    using assms by (simp add: S_def commit_local)
  ultimately show ?thesis by (simp add: pview_def)
qed

lemma suffix_kview3:
  assumes "i < length (particles s)"
  shows "kview (3 * i) (step_suffix cfg s) = kview (3 * i) (commit_body (dt_g s * dt_g s) i s)"
    and "kview (3 * i + 1) (step_suffix cfg s) = kview (3 * i + 1) (commit_body (dt_g s * dt_g s) i s)"
    and "kview (3 * i + 2) (step_suffix cfg s) = kview (3 * i + 2) (commit_body (dt_g s * dt_g s) i s)"
proof -
  have "pview i (fold (commit_body (dt_g s * dt_g s)) [0..<length (particles s)] s)
          = pview i (commit_body (dt_g s * dt_g s) i s)"
    using assms by (simp add: commit_local)
  then show "kview (3 * i) (step_suffix cfg s) = kview (3 * i) (commit_body (dt_g s * dt_g s) i s)"
    and "kview (3 * i + 1) (step_suffix cfg s) = kview (3 * i + 1) (commit_body (dt_g s * dt_g s) i s)"
    and "kview (3 * i + 2) (step_suffix cfg s) = kview (3 * i + 2) (commit_body (dt_g s * dt_g s) i s)"
    unfolding suffix_kview by (simp_all add: pview_def)
qed


section \<open>The state at the start of the predictor-corrector loop\<close>

lemma particles_realloc [simp]: "particles (realloc_buffers N3 st) = particles st"
proof -
  have b: "\<And>l xs s. particles (fold (realloc_zero_body l) xs s) = particles s"
    by (rule fold_frame) (simp add: realloc_zero_body_def)
  have c: "\<And>xs ys s. particles (fold (\<lambda>l. fold (realloc_zero_body l) ys) xs s) = particles s"
    by (rule fold_frame) (rule b)
  have d: "\<And>xs s. particles (fold realloc_cs_body xs s) = particles s"
    by (rule fold_frame) (simp add: realloc_cs_body_def)
  show ?thesis by (simp add: realloc_buffers_def Let_def c d)
qed

lemma particles_warm_start [simp]: "particles (fold warm_start_body xs st) = particles st"
  by (rule fold_frame) (simp add: warm_start_body_def Let_def)

lemma particles_g_from_b [simp]: "particles (fold g_from_b_body xs st) = particles st"
  by (rule fold_frame) (simp add: g_from_b_body_def Let_def)

lemma bufs_g_from_b [simp]: "bufs (fold g_from_b_body xs st) = bufs st"
  by (rule fold_frame) (simp add: g_from_b_body_def Let_def bufs_def)

lemma prefix_particles [simp]: "particles (step_prefix cfg st) = particles st"
  by (simp add: step_prefix_def Let_def compute_dt_def)

lemma particles_compute_dt [simp]: "particles (compute_dt cfg st) = particles st"
  by (simp add: compute_dt_def)

lemma ctl_compute_dt_t [simp]: "fst (ctl (compute_dt cfg st)) = fst (ctl st)"
  by (simp add: ctl_def compute_dt_def)

lemma prefix_ctl:
  "t_g (step_prefix cfg st) = t_g st"
  "dtexp_g (step_prefix cfg st) = dtexp_g st"
  "dtexp_substep (step_prefix cfg st) = dtexp_substep st"
  by (simp_all add: step_prefix_def Let_def field_of_ctl(1,3,4))

lemma dt_g_of_ctl: "dt_g s = fst (snd (ctl s))"
  by (simp add: ctl_def)

lemma prefix_dt:
  "dt_g (step_prefix cfg st)
     = fold (substep_dt (dtexp_substep st)) [0..<nat (- dtexp_g st)] (integrator_max_dt cfg)"
proof -
  have a: "\<And>s. fst (snd (ctl (compute_dt cfg s)))
            = fold (substep_dt (dtexp_substep s)) [0..<nat (- dtexp_g s)] (integrator_max_dt cfg)"
    by (simp add: compute_dt_def ctl_def)
  have b: "\<And>N3 s. dtexp_substep (realloc_buffers N3 s) = dtexp_substep s"
          "\<And>N3 s. dtexp_g (realloc_buffers N3 s) = dtexp_g s"
    by (simp_all add: field_of_ctl(3,4))
  show ?thesis
    by (simp add: step_prefix_def Let_def dt_g_of_ctl a b)
qed

lemma x0_of_bufs:
  "x0 s = fst (bufs s)" "v0 s = fst (snd (bufs s))" "a0 s = fst (snd (snd (bufs s)))"
  by (simp_all add: bufs_def)

lemma bufs_err_upd [simp]:
  "bufs (s\<lparr>predictor_corrector_error := v\<rparr>) = bufs s"
  "bufs (s\<lparr>predictor_corrector_error_last := v\<rparr>) = bufs s"
  by (simp_all add: bufs_def)

lemma prefix_x0:
  assumes "i < length (particles st)"
  shows "x0 (step_prefix cfg st) (3 * i) = p_x (particles st ! i)"
    and "x0 (step_prefix cfg st) (3 * i + 1) = p_y (particles st ! i)"
    and "x0 (step_prefix cfg st) (3 * i + 2) = p_z (particles st ! i)"
    and "v0 (step_prefix cfg st) (3 * i) = vx (particles st ! i)"
    and "v0 (step_prefix cfg st) (3 * i + 1) = vy (particles st ! i)"
    and "v0 (step_prefix cfg st) (3 * i + 2) = vz (particles st ! i)"
proof -
  define w where "w = fold warm_start_body [0..<nat (3 * int (length (particles st)))]
                        (compute_dt cfg (realloc_buffers (3 * int (length (particles st))) st))"
  have pw: "particles w = particles st" by (simp add: w_def compute_dt_def)
  have b: "bufs (step_prefix cfg st) = bufs (fold capture_body [0..<length (particles st)] w)"
    by (simp add: step_prefix_def Let_def w_def[symmetric] pw)
  note c = capture_kview[OF assms, of w, unfolded pw]
  show "x0 (step_prefix cfg st) (3 * i) = p_x (particles st ! i)"
    and "x0 (step_prefix cfg st) (3 * i + 1) = p_y (particles st ! i)"
    and "x0 (step_prefix cfg st) (3 * i + 2) = p_z (particles st ! i)"
    and "v0 (step_prefix cfg st) (3 * i) = vx (particles st ! i)"
    and "v0 (step_prefix cfg st) (3 * i + 1) = vy (particles st ! i)"
    and "v0 (step_prefix cfg st) (3 * i + 2) = vz (particles st ! i)"
    unfolding x0_of_bufs b using c by (simp_all add: x0_of_bufs[symmetric])
qed


section \<open>The commit\<close>

lemma pnod_eqD:
  assumes "pnod p = pnod q"
  shows "p_x p = p_x q" "p_y p = p_y q" "p_z p = p_z q"
    "vx p = vx q" "vy p = vy q" "vz p = vz q"
    "tdone p = tdone q" "dtdone p = dtdone q"
    "xpast p = xpast q" "ypast p = ypast q" "zpast p = zpast q"
  using arg_cong[OF assms, of p_x] arg_cong[OF assms, of p_y] arg_cong[OF assms, of p_z]
    arg_cong[OF assms, of vx] arg_cong[OF assms, of vy] arg_cong[OF assms, of vz]
    arg_cong[OF assms, of tdone] arg_cong[OF assms, of dtdone]
    arg_cong[OF assms, of xpast] arg_cong[OF assms, of ypast] arg_cong[OF assms, of zpast]
  by (simp_all add: pnod_def)

lemma pstat_nth:
  assumes "map pstat ps = map pstat qs" "i < length qs"
  shows "tdone (ps ! i) = tdone (qs ! i)" "dtdone (ps ! i) = dtdone (qs ! i)"
    "dtexp (ps ! i) = dtexp (qs ! i)" "xpast (ps ! i) = xpast (qs ! i)"
    "ypast (ps ! i) = ypast (qs ! i)" "zpast (ps ! i) = zpast (qs ! i)"
    "length ps = length qs"
proof -
  have l: "length ps = length qs" using assms(1) by (metis length_map)
  then have "pstat (ps ! i) = pstat (qs ! i)"
    using assms by (metis nth_map)
  then show "tdone (ps ! i) = tdone (qs ! i)" "dtdone (ps ! i) = dtdone (qs ! i)"
    "dtexp (ps ! i) = dtexp (qs ! i)" "xpast (ps ! i) = xpast (qs ! i)"
    "ypast (ps ! i) = ypast (qs ! i)" "zpast (ps ! i) = zpast (qs ! i)"
    by (simp_all add: pstat_def)
  show "length ps = length qs" by (rule l)
qed

text \<open>The state in which the commit starts, for a step from \<open>st\<close>.\<close>

lemma step_final:
  fixes cfg st
  defines "s1 \<equiv> snd (predictor_corrector_loop cfg (3 * int (length (particles st))) 0
                       (step_prefix cfg st))"
  assumes i: "i < length (particles st)"
  shows "snd (integrator_ias15_step cfg st) = step_suffix cfg s1"
    and "length (particles s1) = length (particles st)"
    and "dtexp (particles s1 ! i) = dtexp (particles st ! i)"
    and "tdone (particles s1 ! i) = tdone (particles st ! i)"
    and "dtdone (particles s1 ! i) = dtdone (particles st ! i)"
    and "xpast (particles s1 ! i) = xpast (particles st ! i)"
    and "ypast (particles s1 ! i) = ypast (particles st ! i)"
    and "zpast (particles s1 ! i) = zpast (particles st ! i)"
    and "t_g s1 = t_g st" and "dtexp_g s1 = dtexp_g st" and "dtexp_substep s1 = dtexp_substep st"
    and "dt_g s1 = fold (substep_dt (dtexp_substep st)) [0..<nat (- dtexp_g st)]
                     (integrator_max_dt cfg)"
    and "x0 s1 (3 * i) = p_x (particles st ! i)"
    and "x0 s1 (3 * i + 1) = p_y (particles st ! i)"
    and "x0 s1 (3 * i + 2) = p_z (particles st ! i)"
    and "v0 s1 (3 * i) = vx (particles st ! i)"
    and "v0 s1 (3 * i + 1) = vy (particles st ! i)"
    and "v0 s1 (3 * i + 2) = vz (particles st ! i)"
proof -
  show "snd (integrator_ias15_step cfg st) = step_suffix cfg s1"
    by (simp add: step_decomp s1_def)
  have m: "map pstat (particles s1) = map pstat (particles st)"
    by (simp add: s1_def)
  note n = pstat_nth[OF m i]
  show "length (particles s1) = length (particles st)"
    and "dtexp (particles s1 ! i) = dtexp (particles st ! i)"
    and "tdone (particles s1 ! i) = tdone (particles st ! i)"
    and "dtdone (particles s1 ! i) = dtdone (particles st ! i)"
    and "xpast (particles s1 ! i) = xpast (particles st ! i)"
    and "ypast (particles s1 ! i) = ypast (particles st ! i)"
    and "zpast (particles s1 ! i) = zpast (particles st ! i)"
    using n by simp_all
  show "t_g s1 = t_g st" and "dtexp_g s1 = dtexp_g st" and "dtexp_substep s1 = dtexp_substep st"
    by (simp_all add: s1_def prefix_ctl)
  show "dt_g s1 = fold (substep_dt (dtexp_substep st)) [0..<nat (- dtexp_g st)]
                     (integrator_max_dt cfg)"
    by (simp add: s1_def prefix_dt)
  have b: "bufs s1 = bufs (step_prefix cfg st)" by (simp add: s1_def)
  show "x0 s1 (3 * i) = p_x (particles st ! i)"
    and "x0 s1 (3 * i + 1) = p_y (particles st ! i)"
    and "x0 s1 (3 * i + 2) = p_z (particles st ! i)"
    and "v0 s1 (3 * i) = vx (particles st ! i)"
    and "v0 s1 (3 * i + 1) = vy (particles st ! i)"
    and "v0 s1 (3 * i + 2) = vz (particles st ! i)"
    unfolding x0_of_bufs b using prefix_x0[OF i, of cfg]
    by (simp_all add: x0_of_bufs[symmetric])
qed

text \<open>
  C5. After a step, every particle whose \<open>dtexp\<close> equals the global class at step
  entry has its position and velocity set to the committed \<open>x0\<close> and \<open>v0\<close> values of
  its three components, \<open>tdone = t + dt\<close> with \<open>t\<close> the time at step entry, and
  \<open>dtdone = dt\<close>; \<open>dt\<close> is the step size of the class, computed at step entry.
\<close>

theorem step_commits_current_class:
  assumes "i < length (particles st)" and "dtexp (particles st ! i) = dtexp_g st"
  shows "let st' = snd (integrator_ias15_step cfg st); p' = particles st' ! i
         in p_x p' = x0 st' (3 * i) \<and> p_y p' = x0 st' (3 * i + 1) \<and> p_z p' = x0 st' (3 * i + 2)
          \<and> vx p' = v0 st' (3 * i) \<and> vy p' = v0 st' (3 * i + 1) \<and> vz p' = v0 st' (3 * i + 2)
          \<and> tdone p' = t_g st + dt_g st' \<and> dtdone p' = dt_g st'
          \<and> dt_g st' = fold (substep_dt (dtexp_substep st)) [0..<nat (- dtexp_g st)]
                          (integrator_max_dt cfg)"
proof -
  define s1 where "s1 = snd (predictor_corrector_loop cfg (3 * int (length (particles st))) 0
                       (step_prefix cfg st))"
  note f = step_final[OF assms(1), of cfg, folded s1_def]
  define d where "d = dt_g s1 * dt_g s1"
  have i1: "i < length (particles s1)" using assms(1) f(2) by simp
  have cls: "dtexp (particles s1 ! i) = dtexp_g s1" using assms(2) f(3,10) by simp
  have p: "pnod (particles (step_suffix cfg s1) ! i) = pnod (commit_particle s1 (commit3 d i s1) i)"
    using suffix_particle[OF i1, of cfg] i1 cls by (simp add: commit_particles d_def)
  have k: "kview (3 * i) (step_suffix cfg s1) = kview (3 * i) (commit3 d i s1)"
          "kview (3 * i + 1) (step_suffix cfg s1) = kview (3 * i + 1) (commit3 d i s1)"
          "kview (3 * i + 2) (step_suffix cfg s1) = kview (3 * i + 2) (commit3 d i s1)"
    using suffix_kview3[OF i1, of cfg] cls by (simp_all add: commit_kview d_def)
  have dt: "dt_g (step_suffix cfg s1) = dt_g s1" by (rule counter_suffix(3))
  have x: "x0 (step_suffix cfg s1) (3 * i) = x0 (commit3 d i s1) (3 * i)"
    "x0 (step_suffix cfg s1) (3 * i + 1) = x0 (commit3 d i s1) (3 * i + 1)"
    "x0 (step_suffix cfg s1) (3 * i + 2) = x0 (commit3 d i s1) (3 * i + 2)"
    "v0 (step_suffix cfg s1) (3 * i) = v0 (commit3 d i s1) (3 * i)"
    "v0 (step_suffix cfg s1) (3 * i + 1) = v0 (commit3 d i s1) (3 * i + 1)"
    "v0 (step_suffix cfg s1) (3 * i + 2) = v0 (commit3 d i s1) (3 * i + 2)"
    unfolding kview_fields k by simp_all
  show ?thesis
    unfolding Let_def f(1) pnod_eqD[OF p] x dt
    using cls f(9,12) by (simp add: commit_particle_def Let_def)
qed

theorem step_commits_current_class_witness:
  "0 < length (particles (st_fresh two_classes))
   \<and> dtexp (particles (st_fresh two_classes) ! 0) = dtexp_g (st_fresh two_classes)
   \<and> tdone (particles (snd (integrator_ias15_step cfg_zero (st_fresh two_classes))) ! 0)
       = t_g (st_fresh two_classes)
         + dt_g (snd (integrator_ias15_step cfg_zero (st_fresh two_classes)))
   \<and> dtdone (particles (snd (integrator_ias15_step cfg_zero (st_fresh two_classes))) ! 0)
       = integrator_max_dt cfg_zero"
  using step_commits_current_class [of 0 "st_fresh two_classes" cfg_zero]
  by (simp add: st_fresh_def two_classes_def p_zero_def Let_def)

text \<open>
  C6. For every particle whose \<open>dtexp\<close> differs from the global class at step entry,
  a step leaves the position as it was at step entry: the commit restores it from
  \<open>x0\<close>, which holds the entry value; the position is also written into
  \<open>xpast\<close>, \<open>ypast\<close>, \<open>zpast\<close> at level \<open>-dtexp\<close> (the global class) and the current
  sub-index of that level. \<open>tdone\<close> and \<open>dtdone\<close> are unchanged.
\<close>

theorem step_restores_other_classes:
  assumes "i < length (particles st)" and "dtexp (particles st ! i) \<noteq> dtexp_g st"
  shows "let st' = snd (integrator_ias15_step cfg st);
             p = particles st ! i;
             p' = particles st' ! i;
             lev = nat (- dtexp_g st);
             sub = nat (dtexp_substep st lev)
         in p_x p' = p_x p \<and> p_y p' = p_y p \<and> p_z p' = p_z p
          \<and> x0 st' (3 * i) = p_x p \<and> x0 st' (3 * i + 1) = p_y p \<and> x0 st' (3 * i + 2) = p_z p
          \<and> xpast p' lev sub = p_x p \<and> ypast p' lev sub = p_y p \<and> zpast p' lev sub = p_z p
          \<and> tdone p' = tdone p \<and> dtdone p' = dtdone p"
proof -
  define s1 where "s1 = snd (predictor_corrector_loop cfg (3 * int (length (particles st))) 0
                       (step_prefix cfg st))"
  note f = step_final[OF assms(1), of cfg, folded s1_def]
  define d where "d = dt_g s1 * dt_g s1"
  have i1: "i < length (particles s1)" using assms(1) f(2) by simp
  have cls: "dtexp (particles s1 ! i) \<noteq> dtexp_g s1" using assms(2) f(3,10) by simp
  have p: "pnod (particles (step_suffix cfg s1) ! i) = pnod (commit_particle s1 s1 i)"
    using suffix_particle[OF i1, of cfg] i1 cls by (simp add: commit_particles d_def)
  have k: "kview (3 * i) (step_suffix cfg s1) = kview (3 * i) s1"
          "kview (3 * i + 1) (step_suffix cfg s1) = kview (3 * i + 1) s1"
          "kview (3 * i + 2) (step_suffix cfg s1) = kview (3 * i + 2) s1"
    using suffix_kview3[OF i1, of cfg] cls by (simp_all add: commit_kview d_def)
  have x: "x0 (step_suffix cfg s1) (3 * i) = x0 s1 (3 * i)"
    "x0 (step_suffix cfg s1) (3 * i + 1) = x0 s1 (3 * i + 1)"
    "x0 (step_suffix cfg s1) (3 * i + 2) = x0 s1 (3 * i + 2)"
    unfolding kview_fields k by simp_all
  show ?thesis
    unfolding Let_def f(1) pnod_eqD[OF p] x
    using cls f(3-18) by (simp add: commit_particle_def Let_def set2_def)
qed

theorem step_restores_other_classes_witness:
  "1 < length (particles (st_fresh two_classes))
   \<and> dtexp (particles (st_fresh two_classes) ! 1) \<noteq> dtexp_g (st_fresh two_classes)
   \<and> p_x (particles (snd (integrator_ias15_step cfg_zero (st_fresh two_classes))) ! 1)
       = p_x (particles (st_fresh two_classes) ! 1)
   \<and> xpast (particles (snd (integrator_ias15_step cfg_zero (st_fresh two_classes))) ! 1) 0 0
       = p_x (particles (st_fresh two_classes) ! 1)"
  using step_restores_other_classes [of 1 "st_fresh two_classes" cfg_zero]
  by (simp add: st_fresh_def two_classes_def p_zero_def Let_def)


section \<open>The step controller\<close>

lemma controller_class_cong:
  assumes "dt_g s = dt_g s'" "a_t s = a_t s'" "bb s = bb s'"
  shows "controller_class cfg s i = controller_class cfg s' i"
proof -
  have e: "errork_max_body s i = errork_max_body s' i"
    using assms by (simp add: fun_eq_iff errork_max_body_def)
  show ?thesis by (simp add: controller_class_def e assms(1) Let_def)
qed

lemma controller_class_range: "- 2 \<le> controller_class cfg s i \<and> controller_class cfg s i \<le> 0"
  by (simp add: controller_class_def Let_def)

lemma controller_body_particle:
  "particles (controller_body cfg i s) =
     (if dtexp (particles s ! i) \<noteq> dtexp_g s then particles s
      else (particles s)[i := (particles s ! i)\<lparr>dtexp := controller_class cfg s i\<rparr>])"
  by (simp add: controller_body_def controller_class_def set_particle_def Let_def)

lemma ctrl_in_controller [simp]: "ctrl_in (controller_body cfg i s) = ctrl_in s"
  by (simp add: controller_body_def set_particle_def Let_def ctrl_in_def)

lemma controller_local:
  "particles (fold (controller_body cfg) [0..<n] s) ! i
     = (if i < n then particles (controller_body cfg i s) ! i else particles s ! i)"
proof (rule fold_local[where sh=ctrl_in])
  show "\<And>j s. ctrl_in (controller_body cfg j s) = ctrl_in s" by simp
  show "\<And>j s. j \<noteq> i \<Longrightarrow> particles (controller_body cfg j s) ! i = particles s ! i"
    by (simp add: controller_body_particle)
  show "\<And>s s'. ctrl_in s = ctrl_in s' \<Longrightarrow> particles s ! i = particles s' ! i
          \<Longrightarrow> particles (controller_body cfg i s) ! i = particles (controller_body cfg i s') ! i"
  proof -
    fix s s' :: ias15
    assume a: "ctrl_in s = ctrl_in s'" and p: "particles s ! i = particles s' ! i"
    have c: "controller_class cfg s i = controller_class cfg s' i"
      using a by (intro controller_class_cong) (simp_all add: ctrl_in_def)
    have g: "dtexp_g s = dtexp_g s'" "length (particles s) = length (particles s')"
      using a by (simp_all add: ctrl_in_def)
    show "particles (controller_body cfg i s) ! i = particles (controller_body cfg i s') ! i"
      by (simp add: controller_body_particle c g p nth_upd)
  qed
qed

lemma ctrl_in_commit [simp]: "ctrl_in (fold (commit_body d) xs s) = ctrl_in s"
proof (rule fold_frame)
  fix i s
  have a: "ctrl_in (commit3 d i s) = ctrl_in s"
    by (simp add: commit3_def commit_component_def Let_def ctrl_in_def)
  have b: "\<And>B ps. length ps = length (particles s) \<Longrightarrow> ctrl_in B = ctrl_in s
            \<Longrightarrow> ctrl_in (B\<lparr>particles := ps\<rparr>) = ctrl_in s"
    by (simp add: ctrl_in_def)
  show "ctrl_in (commit_body d i s) = ctrl_in s"
    by (simp add: commit_body_alt Let_def a b)
qed

lemma ctrl_in_rest [simp]:
  "ctrl_in (fold (controller_body cfg) xs s) = ctrl_in s"
  "ctrl_in (s\<lparr>dtexp_min := m\<rparr>) = ctrl_in s"
  by (rule fold_frame, simp, simp add: ctrl_in_def)

lemma dtexp_min_fold_fields [simp]:
  "dt_g (fold dtexp_min_body xs s) = dt_g s"
  "a_t (fold dtexp_min_body xs s) = a_t s"
  "bb (fold dtexp_min_body xs s) = bb s"
  by (rule fold_frame, simp add: dtexp_min_body_def)+

lemma advance_fields [simp]:
  "a_t (advance_substep cfg s) = a_t s"
  "bb (advance_substep cfg s) = bb s"
  by (simp_all add: advance_substep_def Let_def)

lemma fields_of_ctrl_in:
  "a_t s = fst (snd (snd (snd (ctrl_in s))))"
  "bb s = snd (snd (snd (snd (ctrl_in s))))"
  by (simp_all add: ctrl_in_def)

lemma suffix_reads:
  "a_t (step_suffix cfg s) = a_t s" "bb (step_suffix cfg s) = bb s"
  by (simp_all add: step_suffix_def Let_def) (simp_all add: fields_of_ctrl_in)

lemma suffix_particles:
  "particles (step_suffix cfg s) =
     particles (let S = fold (commit_body (dt_g s * dt_g s)) [0..<length (particles s)] s
                in if integrator_epsilon cfg > 0
                   then fold (controller_body cfg) [0..<length (particles S)] S else S)"
  by (simp add: step_suffix_def Let_def counter_advance)

lemma commit_dtexp:
  assumes "i < length (particles s)"
  shows "dtexp (particles (fold (commit_body d) [0..<length (particles s)] s) ! i)
           = dtexp (particles s ! i)"
proof -
  have "pview i (fold (commit_body d) [0..<length (particles s)] s) = pview i (commit_body d i s)"
    using assms by (simp add: commit_local)
  then have "particles (fold (commit_body d) [0..<length (particles s)] s) ! i
               = particles (commit_body d i s) ! i"
    by (simp add: pview_def)
  then show ?thesis using assms
    by (simp add: commit_particles commit_particle_def Let_def)
qed

text \<open>
  C7. A step changes the \<open>dtexp\<close> of a particle only in the step controller, which
  runs when \<open>integrator_epsilon > 0\<close> and only for the particles of the current
  class. The value it assigns is 0 when the error estimate is not a normal number,
  and otherwise \<open>floor(log(dtparticle / integrator_max_dt) / log(8))\<close> converted to
  \<^verbatim>\<open>int\<close> and clamped to \<open>[-2, 0]\<close>. So a \<open>dtexp\<close> in \<open>[-2, 0]\<close> stays in \<open>[-2, 0]\<close>.
\<close>

theorem step_keeps_dtexp_in_range:
  assumes "i < length (particles st)"
  shows "let st' = snd (integrator_ias15_step cfg st);
             p = particles st ! i;
             p' = particles st' ! i
         in dtexp p' = (if integrator_epsilon cfg > 0 \<and> dtexp p = dtexp_g st
                        then controller_class cfg st' i else dtexp p)
          \<and> - 2 \<le> controller_class cfg st' i \<and> controller_class cfg st' i \<le> 0
          \<and> (- 2 \<le> dtexp p \<and> dtexp p \<le> 0 \<longrightarrow> - 2 \<le> dtexp p' \<and> dtexp p' \<le> 0)"
proof -
  define s1 where "s1 = snd (predictor_corrector_loop cfg (3 * int (length (particles st))) 0
                       (step_prefix cfg st))"
  note f = step_final[OF assms(1), of cfg, folded s1_def]
  define S where "S = fold (commit_body (dt_g s1 * dt_g s1)) [0..<length (particles s1)] s1"
  have i1: "i < length (particles s1)" using assms f(2) by simp
  have lS: "length (particles S) = length (particles s1)" by (simp add: S_def)
  have dS: "dtexp (particles S ! i) = dtexp (particles st ! i)"
    unfolding S_def commit_dtexp[OF i1] by (rule f(3))
  have cS: "ctrl_in S = ctrl_in s1" by (simp add: S_def)
  then have gS: "dtexp_g S = dtexp_g st" "dt_g S = dt_g s1" "a_t S = a_t s1" "bb S = bb s1"
    using f(10) by (simp_all add: ctrl_in_def)
  have cc: "controller_class cfg S i = controller_class cfg (step_suffix cfg s1) i"
    by (rule controller_class_cong) (simp_all add: gS counter_suffix(3) suffix_reads)
  have r: "dtexp (particles (step_suffix cfg s1) ! i)
             = (if integrator_epsilon cfg > 0 \<and> dtexp (particles st ! i) = dtexp_g st
                then controller_class cfg (step_suffix cfg s1) i else dtexp (particles st ! i))"
    using i1 lS dS
    by (simp add: suffix_particles Let_def S_def[symmetric] controller_local
                  controller_body_particle nth_upd gS(1) cc)
  show ?thesis
    unfolding Let_def f(1) r using controller_class_range[of cfg "step_suffix cfg s1" i]
    by simp
qed

theorem step_keeps_dtexp_in_range_witness:
  "0 < length (particles (st_fresh two_classes))
   \<and> - 2 \<le> dtexp (particles (st_fresh two_classes) ! 0)
   \<and> dtexp (particles (st_fresh two_classes) ! 0) \<le> 0
   \<and> - 2 \<le> dtexp (particles (snd (integrator_ias15_step cfg_zero (st_fresh two_classes))) ! 0)
   \<and> dtexp (particles (snd (integrator_ias15_step cfg_zero (st_fresh two_classes))) ! 0) \<le> 0"
  using step_keeps_dtexp_in_range [of 0 "st_fresh two_classes" cfg_zero]
  by (simp add: st_fresh_def two_classes_def p_zero_def Let_def)


section \<open>Values of literals\<close>

lemma floor_rat_numeral: "\<lfloor>(numeral a / numeral b :: rat)\<rfloor> = numeral a div numeral b"
  by (metis floor_divide_of_int_eq of_int_numeral)

lemmas lit_eval = lit_def pow2_def rne_def Let_def floor_rat_numeral

lemma lit_1e300: "lit (10 ^ 300) = Fin False (6724873095247260 * 2 ^ 944)"
  by (simp add: lit_eval round64_cert[where ex="996"])

lemma lit_1em16: "lit (1 / 10 ^ 16) = Fin False (2028240960365167 / 2 ^ 104)"
  by (simp add: lit_eval round64_cert[where ex="-54"])

lemma first_pass_runs: "\<not> lit (10 ^ 300) < lit (1 / 10 ^ 16)"
  unfolding lit_1e300 lit_1em16 by (simp add: less_double_def sval_def)

lemma zero_converged: "(0::double) < lit (1 / 10 ^ 16)"
  unfolding lit_1em16 by (simp add: less_double_def zero_double_def sval_def)

lemma round64_nat:
  assumes "n < 2 ^ 53"
  shows "round64 sg (of_nat n) = Fin sg (of_nat n)"
proof (cases "n = 0")
  case True
  then show ?thesis by (simp add: round64_def)
next
  case False
  then have pos: "(0::rat) < of_nat n" by simp
  define ex where "ex = ilog2 (of_nat n)"
  note b = ilog2_bounds[OF pos, folded ex_def]
  have ge: "0 \<le> ex"
  proof (rule ccontr)
    assume "\<not> 0 \<le> ex"
    then have "pow2 (ex + 1) \<le> pow2 0" by (intro pow2_mono) simp
    moreover have "(1::rat) \<le> of_nat n" using False by (simp add: Suc_le_eq)
    ultimately show False using b by (simp add: pow2_def)
  qed
  have le: "ex \<le> 52"
  proof (rule ccontr)
    assume "\<not> ex \<le> 52"
    then have "pow2 53 \<le> pow2 ex" by (intro pow2_mono) simp
    moreover have "(of_nat n :: rat) < 2 ^ 53" using assms
      by (metis of_nat_less_iff of_nat_numeral of_nat_power)
    ultimately show False using b by (simp add: pow2_def)
  qed
  have "pow2 (ex - 52) = 1 / 2 ^ nat (52 - ex)"
    using le by (cases "ex = 52") (simp_all add: pow2_def)
  then have m: "(of_nat n :: rat) / pow2 (ex - 52) = of_int (int n * 2 ^ nat (52 - ex))"
    by simp
  show ?thesis
    by (rule round64_exact[where ex=ex and m="int n * 2 ^ nat (52 - ex)"])
       (use b ge le m in simp_all)
qed

lemma lit_nat: "n < 2 ^ 53 \<Longrightarrow> lit (of_nat n) = Fin False (of_nat n)"
  by (simp add: lit_def round64_nat)

lemma lit_numeral [simp]:
  "numeral k < (2::nat) ^ 53 \<Longrightarrow> lit (numeral k) = Fin False (numeral k)"
  using lit_nat[of "numeral k"] by simp

lemma lit_0 [simp]: "lit 0 = Fin False 0"
  by (simp add: lit_def round64_def)

lemma lit_1 [simp]: "lit 1 = Fin False 1"
  using lit_nat[of 1] by simp

theorem predictor_corrector_loop_at_most_12_witness:
  "\<exists>n. n \<le> 12 \<and> 0 < n
     \<and> fst (predictor_corrector_loop cfg_zero 0 0 pc_start) = int n
     \<and> pc_exit (int n) ((pc_iteration cfg_zero 0 ^^ n) pc_start)
     \<and> \<not> pc_exit (int 0) ((pc_iteration cfg_zero 0 ^^ 0) pc_start)"
proof -
  have ne: "\<not> pc_exit 0 pc_start"
    using first_pass_runs by (simp add: pc_exit_def pc_start_def)
  from predictor_corrector_loop_at_most_12 [of cfg_zero 0 pc_start] obtain n where n:
    "n \<le> 12" "fst (predictor_corrector_loop cfg_zero 0 0 pc_start) = int n"
    "pc_exit (int n) ((pc_iteration cfg_zero 0 ^^ n) pc_start)"
    "\<forall>m<n. \<not> pc_exit (int m) ((pc_iteration cfg_zero 0 ^^ m) pc_start)"
    by blast
  have "0 < n"
  proof (rule ccontr)
    assume "\<not> 0 < n"
    then have "n = 0" by simp
    with n(3) ne show False by simp
  qed
  with n ne show ?thesis by auto
qed


section \<open>The warm start and the step size at concrete inputs\<close>

lemmas dbl_ops = plus_double_def minus_double_def times_double_def divide_double_def
  zero_double_def one_double_def less_double_def less_eq_double_def sval_def

lemma round64_small [simp]:
  "round64 sg 0 = Fin sg 0"
  "round64 sg 1 = Fin sg 1"
  "numeral k < (2::nat) ^ 53 \<Longrightarrow> round64 sg (numeral k) = Fin sg (numeral k)"
  using round64_nat[of 0 sg] round64_nat[of 1 sg] round64_nat[of "numeral k" sg]
  by simp_all

lemma brs_capture [simp]:
  "bb (fold capture_body xs st) = bb st" "ee (fold capture_body xs st) = ee st"
  "br (fold capture_body xs st) = br st" "er (fold capture_body xs st) = er st"
  by (rule fold_frame, simp add: capture_body_def Let_def)+

lemma brs_g_from_b [simp]:
  "bb (fold g_from_b_body xs st) = bb st" "ee (fold g_from_b_body xs st) = ee st"
  "br (fold g_from_b_body xs st) = br st" "er (fold g_from_b_body xs st) = er st"
  by (rule fold_frame, simp add: g_from_b_body_def Let_def)+

lemma prefix_brs:
  "bb (step_prefix cfg st) = bb (fold warm_start_body [0..<nat (3 * int (length (particles st)))]
           (compute_dt cfg (realloc_buffers (3 * int (length (particles st))) st)))"
  "ee (step_prefix cfg st) = ee (fold warm_start_body [0..<nat (3 * int (length (particles st)))]
           (compute_dt cfg (realloc_buffers (3 * int (length (particles st))) st)))"
  "br (step_prefix cfg st) = br (fold warm_start_body [0..<nat (3 * int (length (particles st)))]
           (compute_dt cfg (realloc_buffers (3 * int (length (particles st))) st)))"
  "er (step_prefix cfg st) = er (fold warm_start_body [0..<nat (3 * int (length (particles st)))]
           (compute_dt cfg (realloc_buffers (3 * int (length (particles st))) st)))"
  by (simp_all add: step_prefix_def Let_def)

lemma upt_0_3: "[0..<3] = [0, 1, 2]"
  by (simp add: numeral_3_eq_3 upt_rec)


text \<open>
  C1, at a failing input. One particle with \<open>dtdone = 1\<close>, a step with \<open>dt = 1\<close> (so
  \<open>q = 1\<close>), \<^verbatim>\<open>br[0][0] = 1\<close> and all other saved values 0. At the start of the
  predictor-corrector loop \<^verbatim>\<open>e[0][0]\<close> is the extrapolation 1, but \<^verbatim>\<open>b[0][0]\<close> is
  0, not \<open>e + (br - er) = 2\<close>: the warm start zeroes b.
\<close>

theorem warm_start_drops_bd_correction:
  "ee (step_prefix cfg_zero st_bd) 0 0 = 1
   \<and> br (step_prefix cfg_zero st_bd) 0 0 = 1
   \<and> er (step_prefix cfg_zero st_bd) 0 0 = 0
   \<and> bb (step_prefix cfg_zero st_bd) 0 0 = 0
   \<and> ee (step_prefix cfg_zero st_bd) 0 0
       + (br (step_prefix cfg_zero st_bd) 0 0 - er (step_prefix cfg_zero st_bd) 0 0) = lit 2"
  unfolding prefix_brs
  by (simp add: Let_def st_bd_def st_fresh_def cfg_zero_def p_zero_def upt_0_3
        realloc_buffers_def compute_dt_def warm_start_body_def set2_def dbl_ops pow2_def
        lit_def)


lemma step_dt:
  "dt_g (snd (integrator_ias15_step cfg st))
     = fold (substep_dt (dtexp_substep st)) [0..<nat (- dtexp_g st)] (integrator_max_dt cfg)"
  by (simp add: step_decomp counter_suffix(3) prefix_dt)

lemma h_tab_0: "h_tab 0 = Fin False 0"
  by (simp add: h_tab_def h_dec_def)

lemma h_tab_1: "h_tab 1 = Fin False (4054144746703881 / 2 ^ 56)"
  by (simp add: h_tab_def h_dec_def lit_eval round64_cert[where ex="-5"])

lemma h_tab_Suc0: "h_tab (Suc 0) = Fin False (4054144746703881 / 2 ^ 56)"
  using h_tab_1 by simp

lemma round64_h1: "round64 False (4054144746703881 / 2 ^ 56) = Fin False (4054144746703881 / 2 ^ 56)"
  by (simp add: lit_eval round64_cert[where ex="-5"])

lemma lit_half: "lit (1 / 2) = Fin False (1 / 2)"
  by (simp add: lit_eval round64_cert[where ex="-1"])

lemma lit_quarter: "lit (1 / 4) = Fin False (1 / 4)"
  by (simp add: lit_eval round64_cert[where ex="-2"])

lemma round64_quarter: "round64 False (1 / 4) = Fin False (1 / 4)"
  by (simp add: lit_eval round64_cert[where ex="-2"])

text \<open>
  C3, at a failing input. With \<open>integrator_max_dt = 1\<close> and \<open>integrator_min_dt = 0.5\<close>,
  a step in class 0 uses \<open>dt = 1\<close>; a step in the sub-step class \<open>-1\<close> at its first
  sub-interval uses \<open>dt = 1 * (h[1] - h[0])\<close>, about 0.0563: below
  \<open>integrator_min_dt\<close>, and below \<open>safety_factor\<close> times the \<open>dt\<close> of class 0. The
  step reads neither \<open>integrator_min_dt\<close> nor \<open>safety_factor\<close>.
\<close>

theorem step_dt_ignores_min_dt_and_safety_factor:
  "integrator_min_dt cfg_min > 0
   \<and> dt_g (snd (integrator_ias15_step cfg_min (st_fresh two_classes))) = 1
   \<and> dt_g (snd (integrator_ias15_step cfg_min st_sub)) = Fin False (4054144746703881 / 2 ^ 56)
   \<and> dt_g (snd (integrator_ias15_step cfg_min st_sub)) < integrator_min_dt cfg_min
   \<and> dt_g (snd (integrator_ias15_step cfg_min st_sub))
       < safety_factor * dt_g (snd (integrator_ias15_step cfg_min (st_fresh two_classes)))"
proof -
  have a: "dt_g (snd (integrator_ias15_step cfg_min (st_fresh two_classes))) = Fin False 1"
    by (simp add: step_dt st_fresh_def cfg_min_def cfg_zero_def one_double_def)
  have b: "dt_g (snd (integrator_ias15_step cfg_min st_sub)) = Fin False (4054144746703881 / 2 ^ 56)"
    by (simp add: step_dt st_sub_def st_fresh_def cfg_min_def cfg_zero_def substep_dt_def
          h_tab_0 h_tab_Suc0 dbl_ops lit_def round64_h1[simplified])
  have c: "integrator_min_dt cfg_min = Fin False (1 / 2)"
    by (simp add: cfg_min_def lit_half)
  have d: "safety_factor = Fin False (1 / 4)"
    by (simp add: safety_factor_def lit_quarter)
  show ?thesis
    unfolding a b c d
    by (simp add: dbl_ops round64_quarter[simplified])
qed


section \<open>Predicted velocities\<close>

lemma pv_cong:
  "dt_g s = dt_g s' \<Longrightarrow> kview k s = kview k s'
   \<Longrightarrow> predicted_velocity n k s = predicted_velocity n k s'"
  by (simp add: predicted_velocity_def kview_def Let_def fun_eq_iff)

lemma predict_velocity_particle:
  "particles (predict_velocity_body m j s) =
     (particles s)[j := (particles s ! j)\<lparr>
        vx := predicted_velocity m (3 * j) s,
        vy := predicted_velocity m (3 * j + 1) s,
        vz := predicted_velocity m (3 * j + 2) s\<rparr>]"
  by (simp add: predict_velocity_body_def Let_def)

lemma kview_predict_velocity_body [simp]: "kview k (predict_velocity_body m j s) = kview k s"
  by (simp add: predict_velocity_body_def Let_def)

lemma predict_velocity_local:
  "particles (fold (predict_velocity_body m) [0..<n] s) ! i
     = (if i < n then particles (predict_velocity_body m i s) ! i else particles s ! i)"
proof (rule fold_local[where sh="\<lambda>s. (length (particles s), dt_g s, (\<lambda>k. kview k s))"])
  show "\<And>j s. (length (particles (predict_velocity_body m j s)),
                 dt_g (predict_velocity_body m j s), (\<lambda>k. kview k (predict_velocity_body m j s)))
               = (length (particles s), dt_g s, (\<lambda>k. kview k s))"
    by (simp add: predict_velocity_particle) (simp add: predict_velocity_body_def Let_def)
  show "\<And>j s. j \<noteq> i \<Longrightarrow> particles (predict_velocity_body m j s) ! i = particles s ! i"
    by (simp add: predict_velocity_particle)
  show "\<And>s s'. (length (particles s), dt_g s, (\<lambda>k. kview k s))
                  = (length (particles s'), dt_g s', (\<lambda>k. kview k s'))
          \<Longrightarrow> particles s ! i = particles s' ! i
          \<Longrightarrow> particles (predict_velocity_body m i s) ! i
              = particles (predict_velocity_body m i s') ! i"
  proof -
    fix s s' :: ias15
    assume a: "(length (particles s), dt_g s, (\<lambda>k. kview k s))
                  = (length (particles s'), dt_g s', (\<lambda>k. kview k s'))"
       and p: "particles s ! i = particles s' ! i"
    have l: "length (particles s) = length (particles s')" and d: "dt_g s = dt_g s'"
      and k: "\<And>k. kview k s = kview k s'"
      using a by (simp_all add: fun_eq_iff)
    have v: "\<And>k. predicted_velocity m k s = predicted_velocity m k s'"
      by (rule pv_cong[OF d k])
    show "particles (predict_velocity_body m i s) ! i
              = particles (predict_velocity_body m i s') ! i"
      by (simp add: predict_velocity_particle nth_upd l p v)
  qed
qed

lemma div3_neq:
  "k div 3 \<noteq> j \<Longrightarrow> k \<noteq> 3 * j" "k div 3 \<noteq> j \<Longrightarrow> k \<noteq> Suc (3 * j)"
  "k div 3 \<noteq> j \<Longrightarrow> k \<noteq> Suc (Suc (3 * j))"
  by auto

text \<open>The buffers of a component whose particle is not in the current class.\<close>

lemma copy_at_other_class:
  "(\<lambda>s. (particles s, dtexp_g s,
          if dtexp (particles s ! (k div 3)) \<noteq> dtexp_g s then Some (kview k s) else None))
     (fold copy_at_body xs st)
   = (particles st, dtexp_g st,
      if dtexp (particles st ! (k div 3)) \<noteq> dtexp_g st then Some (kview k st) else None)"
proof (rule fold_frame)
  fix j s
  show "(particles (copy_at_body j s), dtexp_g (copy_at_body j s),
         if dtexp (particles (copy_at_body j s) ! (k div 3)) \<noteq> dtexp_g (copy_at_body j s)
         then Some (kview k (copy_at_body j s)) else None)
        = (particles s, dtexp_g s,
           if dtexp (particles s ! (k div 3)) \<noteq> dtexp_g s then Some (kview k s) else None)"
  proof (cases "k div 3 = j")
    case True
    then show ?thesis by (auto simp: copy_at_body_def)
  next
    case False
    then show ?thesis using div3_neq[OF False]
      by (simp add: copy_at_body_def kview_def)
  qed
qed

lemma improve_other_class:
  "(\<lambda>s. (particles s, dtexp_g s,
          if dtexp (particles s ! (k div 3)) \<noteq> dtexp_g s then Some (kview k s) else None))
     (fold (improve_body n) xs st)
   = (particles st, dtexp_g st,
      if dtexp (particles st ! (k div 3)) \<noteq> dtexp_g st then Some (kview k st) else None)"
proof (rule fold_frame)
  fix j s
  show "(particles (improve_body n j s), dtexp_g (improve_body n j s),
         if dtexp (particles (improve_body n j s) ! (k div 3)) \<noteq> dtexp_g (improve_body n j s)
         then Some (kview k (improve_body n j s)) else None)
        = (particles s, dtexp_g s,
           if dtexp (particles s ! (k div 3)) \<noteq> dtexp_g s then Some (kview k s) else None)"
  proof (cases "j = k")
    case True
    then show ?thesis by (auto simp: improve_body_def Let_def)
  next
    case False
    then show ?thesis
      by (simp add: improve_body_def Let_def kview_def set2_def fun_eq_iff)
  qed
qed

lemma copy_at_kview:
  "dtexp (particles st ! (k div 3)) \<noteq> dtexp_g st \<Longrightarrow> kview k (fold copy_at_body xs st) = kview k st"
  using copy_at_other_class[where k=k and xs=xs and st=st] by (simp split: if_splits)

lemma improve_kview:
  "dtexp (particles st ! (k div 3)) \<noteq> dtexp_g st
   \<Longrightarrow> kview k (fold (improve_body n) xs st) = kview k st"
  using improve_other_class[where k=k and n=n and xs=xs and st=st] by (simp split: if_splits)

lemma kview_predict_position [simp]: "kview k (fold (predict_position_body n) xs s) = kview k s"
  by (rule fold_frame) (simp add: predict_position_body_def Let_def)

lemma kview_predict_velocity [simp]: "kview k (fold (predict_velocity_body n) xs s) = kview k s"
  by (rule fold_frame) simp

lemma kview_update_acc [simp]: "kview k (integrator_update_acceleration cfg s) = kview k s"
  by (simp add: integrator_update_acceleration_def Let_def)

lemma dtexp_g_of_ctl: "dtexp_g s = fst (snd (snd (ctl s)))"
  by (simp add: ctl_def)

lemma node_kview:
  assumes "dtexp (particles s ! (k div 3)) \<noteq> dtexp_g s" and "k div 3 < length (particles s)"
  shows "kview k (node_body cfg N3 m s) = kview k s"
proof -
  define a where "a = integrator_update_acceleration cfg
     (if problem_additional_forces cfg \<noteq> None \<and> integrator_force_is_velocitydependent cfg \<noteq> 0
      then fold (predict_velocity_body m)
             [0..<length (particles (fold (predict_position_body m) [0..<length (particles s)] s))]
             (fold (predict_position_body m) [0..<length (particles s)] s)
      else fold (predict_position_body m) [0..<length (particles s)] s)"
  have ka: "kview k a = kview k s" by (simp add: a_def)
  have pa: "map pstat (particles a) = map pstat (particles s)" by (simp add: a_def)
  have ga: "dtexp_g a = dtexp_g s" by (simp add: a_def dtexp_g_of_ctl)
  have na: "dtexp (particles a ! (k div 3)) \<noteq> dtexp_g a"
    using pstat_nth(3)[OF pa assms(2)] assms(1) ga by simp
  define c where "c = fold copy_at_body [0..<length (particles a)] a"
  have kc: "kview k c = kview k a" unfolding c_def by (rule copy_at_kview[OF na])
  have nc: "dtexp (particles c ! (k div 3)) \<noteq> dtexp_g c"
    using na by (simp add: c_def dtexp_g_of_ctl)
  have "node_body cfg N3 m s = fold (improve_body m) [0..<nat N3] c"
    by (simp add: node_body_def Let_def c_def a_def)
  then show ?thesis using improve_kview[OF nc] kc ka by simp
qed

lemma pvel_nth:
  assumes "map pvel ps = map pvel qs" "i < length qs"
  shows "pvel (ps ! i) = pvel (qs ! i)"
proof -
  have "length ps = length qs" using assms(1) by (metis length_map)
  then show ?thesis using assms by (metis nth_map)
qed

lemma length_predict_position [simp]:
  "length (particles (fold (predict_position_body n) xs s)) = length (particles s)"
  by (rule fold_frame) (simp add: predict_position_body_def Let_def)

lemma length_predict_velocity [simp]:
  "length (particles (fold (predict_velocity_body n) xs s)) = length (particles s)"
  by (rule fold_frame) (simp add: predict_velocity_particle)

lemma dt_g_fold_position [simp]: "dt_g (fold (predict_position_body n) xs s) = dt_g s"
  by (simp add: dt_g_of_ctl)

lemma node_vel:
  assumes "problem_additional_forces cfg \<noteq> None"
    and "integrator_force_is_velocitydependent cfg \<noteq> 0"
    and "i < length (particles s)"
  shows "pvel (particles (node_body cfg N3 m s) ! i)
           = (predicted_velocity m (3 * i) s, predicted_velocity m (3 * i + 1) s,
              predicted_velocity m (3 * i + 2) s)"
proof -
  define q where "q = fold (predict_position_body m) [0..<length (particles s)] s"
  define v where "v = fold (predict_velocity_body m) [0..<length (particles q)] q"
  define a where "a = integrator_update_acceleration cfg v"
  have lq: "length (particles q) = length (particles s)" by (simp add: q_def)
  have pv: "\<And>k. predicted_velocity m k q = predicted_velocity m k s"
    by (rule pv_cong) (simp_all add: q_def)
  have "particles v ! i = particles (predict_velocity_body m i q) ! i"
    using assms(3) lq by (simp add: v_def predict_velocity_local)
  then have vv: "pvel (particles v ! i)
           = (predicted_velocity m (3 * i) s, predicted_velocity m (3 * i + 1) s,
              predicted_velocity m (3 * i + 2) s)"
    using assms(3) lq by (simp add: predict_velocity_particle pvel_def pv)
  have lv: "i < length (particles v)" using assms(3) lq by (simp add: v_def)
  have "map pvel (particles a) = map pvel (particles v)" by (simp add: a_def)
  then have av: "pvel (particles a ! i) = pvel (particles v ! i)"
    using lv by (rule pvel_nth)
  have "particles (node_body cfg N3 m s) = particles a"
    using assms(1,2) by (simp add: node_body_def Let_def a_def v_def q_def)
  then show ?thesis using av vv by simp
qed

lemma sf_refl: "same_frame b b"
  by (simp add: same_frame_def)

lemma sf_node:
  assumes "same_frame b s"
  shows "same_frame b (node_body cfg N3 m s)"
proof -
  have d: "dt_g s = dt_g b" and g: "dtexp_g s = dtexp_g b"
    and p: "map pstat (particles s) = map pstat (particles b)"
    and k: "\<And>k. k div 3 < length (particles b) \<Longrightarrow> dtexp (particles b ! (k div 3)) \<noteq> dtexp_g b
              \<Longrightarrow> kview k s = kview k b"
    using assms by (simp_all add: same_frame_def)
  have "kview k (node_body cfg N3 m s) = kview k b"
    if a: "k div 3 < length (particles b)" "dtexp (particles b ! (k div 3)) \<noteq> dtexp_g b" for k
  proof -
    note n = pstat_nth[OF p a(1)]
    have "dtexp (particles s ! (k div 3)) \<noteq> dtexp_g s" using n(3) a(2) g by simp
    moreover have "k div 3 < length (particles s)" using n(7) a(1) by simp
    ultimately have "kview k (node_body cfg N3 m s) = kview k s" by (rule node_kview)
    then show ?thesis using k[OF a] by simp
  qed
  then show ?thesis
    using d g p by (simp add: same_frame_def dt_g_of_ctl dtexp_g_of_ctl)
qed

lemma div3_own [simp]: "Suc (3 * i) div 3 = i" "Suc (Suc (3 * i)) div 3 = i"
  by presburger+

lemma vp_node:
  assumes "problem_additional_forces cfg \<noteq> None"
    and "integrator_force_is_velocitydependent cfg \<noteq> 0"
    and "same_frame b s"
  shows "vel_predicted m b (node_body cfg N3 m s)"
proof -
  have d: "dt_g s = dt_g b" and g: "dtexp_g s = dtexp_g b"
    and p: "map pstat (particles s) = map pstat (particles b)"
    and k: "\<And>k. k div 3 < length (particles b) \<Longrightarrow> dtexp (particles b ! (k div 3)) \<noteq> dtexp_g b
              \<Longrightarrow> kview k s = kview k b"
    using assms(3) by (simp_all add: same_frame_def)
  have "pvel (particles (node_body cfg N3 m s) ! i)
                = (predicted_velocity m (3 * i) b, predicted_velocity m (3 * i + 1) b,
                   predicted_velocity m (3 * i + 2) b)"
    if a: "i < length (particles b)" "dtexp (particles b ! i) \<noteq> dtexp_g b" for i
  proof -
    have l: "i < length (particles s)" using pstat_nth(7)[OF p a(1)] a(1) by simp
    have k0: "kview (3 * i) s = kview (3 * i) b" using a k[of "3 * i"] by simp
    have k1: "kview (3 * i + 1) s = kview (3 * i + 1) b"
      using a k[of "3 * i + 1"] by simp
    have k2: "kview (3 * i + 2) s = kview (3 * i + 2) b"
      using a k[of "3 * i + 2"] by simp
    show ?thesis
      unfolding node_vel[OF assms(1,2) l]
      using pv_cong[OF d k0, of m] pv_cong[OF d k1, of m] pv_cong[OF d k2, of m] by simp
  qed
  then show ?thesis by (simp add: vel_predicted_def)
qed

lemma upt_1_8: "[1..<8] = [1, 2, 3, 4, 5, 6, 7::nat]"
  by code_simp

lemma sf_upd:
  "same_frame b s \<Longrightarrow> same_frame b (s\<lparr>predictor_corrector_error := v\<rparr>)"
  "same_frame b s \<Longrightarrow> same_frame b (s\<lparr>predictor_corrector_error_last := v\<rparr>)"
  by (simp_all add: same_frame_def)

lemma sf_iter:
  assumes "same_frame b s"
  shows "same_frame b (pc_iteration cfg N3 s)"
  unfolding pc_iteration_def Let_def upt_1_8
  by (simp add: sf_node sf_upd assms)

lemma vp_iter:
  assumes "problem_additional_forces cfg \<noteq> None"
    and "integrator_force_is_velocitydependent cfg \<noteq> 0"
    and "same_frame b s"
  shows "vel_predicted 7 b (pc_iteration cfg N3 s)"
  unfolding pc_iteration_def Let_def upt_1_8
  by (simp add: vp_node[OF assms(1,2)] sf_node sf_upd assms(3))

lemma sf_funpow: "same_frame b s \<Longrightarrow> same_frame b ((pc_iteration cfg N3 ^^ n) s)"
  by (induction n) (simp_all add: sf_iter)

lemma vp_funpow:
  assumes "problem_additional_forces cfg \<noteq> None"
    and "integrator_force_is_velocitydependent cfg \<noteq> 0"
    and "same_frame b s" and "0 < n"
  shows "vel_predicted 7 b ((pc_iteration cfg N3 ^^ n) s)"
proof -
  obtain j where n: "n = Suc j" using assms(4) by (cases n) simp_all
  show ?thesis unfolding n funpow.simps o_apply
    by (rule vp_iter[OF assms(1,2)]) (rule sf_funpow[OF assms(3)])
qed


lemma prefix_pce: "predictor_corrector_error (step_prefix cfg st) = lit (10 ^ 300)"
  by (simp add: step_prefix_def Let_def)

lemma pc_finish_same:
  "particles (snd (pc_finish n s)) = particles s"
  "kview k (snd (pc_finish n s)) = kview k s"
  by (simp_all add: pc_finish_def max_exceeded_def Let_def kview_def)

text \<open>
  C9. When \<^verbatim>\<open>problem_additional_forces\<close> is set and
  \<^verbatim>\<open>integrator_force_is_velocitydependent\<close> is not zero, every node of every iteration
  overwrites the velocity of every particle with the prediction at that node, and
  the commit writes a velocity only for the particles of the current class. So a
  particle whose \<open>dtexp\<close> differs from the global class at step entry leaves the step
  with the velocity predicted at the last node (node 7) of the last iteration, not
  with its velocity at step entry: the prediction from the buffers of its three
  components, which the step does not change after that prediction.
\<close>

theorem step_leaves_predicted_velocity_in_other_classes:
  assumes "problem_additional_forces cfg \<noteq> None"
    and "integrator_force_is_velocitydependent cfg \<noteq> 0"
    and "i < length (particles st)"
    and "dtexp (particles st ! i) \<noteq> dtexp_g st"
  shows "let st' = snd (integrator_ias15_step cfg st); p' = particles st' ! i
         in vx p' = predicted_velocity 7 (3 * i) st'
          \<and> vy p' = predicted_velocity 7 (3 * i + 1) st'
          \<and> vz p' = predicted_velocity 7 (3 * i + 2) st'"
proof -
  define N3 where "N3 = 3 * int (length (particles st))"
  define b where "b = step_prefix cfg st"
  define s1 where "s1 = snd (predictor_corrector_loop cfg N3 0 b)"
  note f = step_final[OF assms(3), of cfg, folded N3_def b_def, folded s1_def]
  from pc_loop_trace[of 0 cfg N3 b] obtain n where n:
    "predictor_corrector_loop cfg N3 0 b = pc_finish (int n) ((pc_iteration cfg N3 ^^ n) b)"
    "pc_exit (int n) ((pc_iteration cfg N3 ^^ n) b)"
    by auto
  have "\<not> pc_exit 0 b"
    using first_pass_runs by (simp add: pc_exit_def b_def prefix_pce)
  then have n0: "0 < n" using n(2) by (cases n) simp_all
  define sn where "sn = (pc_iteration cfg N3 ^^ n) b"
  have sf: "same_frame b sn" unfolding sn_def by (rule sf_funpow[OF sf_refl])
  have vp: "vel_predicted 7 b sn"
    unfolding sn_def by (rule vp_funpow[OF assms(1,2) sf_refl n0])
  have s1: "s1 = snd (pc_finish (int n) sn)" by (simp add: s1_def n(1) sn_def)
  have ib: "i < length (particles b)" "dtexp (particles b ! i) \<noteq> dtexp_g b"
    using assms(3,4) by (simp_all add: b_def prefix_ctl)
  have v1: "pvel (particles s1 ! i)
              = (predicted_velocity 7 (3 * i) b, predicted_velocity 7 (3 * i + 1) b,
                 predicted_velocity 7 (3 * i + 2) b)"
    using vp ib by (simp add: vel_predicted_def s1 pc_finish_same)
  have kb: "kview (3 * i) s1 = kview (3 * i) b" "kview (3 * i + 1) s1 = kview (3 * i + 1) b"
    "kview (3 * i + 2) s1 = kview (3 * i + 2) b"
    using sf ib by (simp_all add: same_frame_def s1 pc_finish_same)
  have i1: "i < length (particles s1)" using assms(3) f(2) by simp
  have cls: "dtexp (particles s1 ! i) \<noteq> dtexp_g s1" using assms(4) f(3,10) by simp
  have p: "pnod (particles (step_suffix cfg s1) ! i) = pnod (commit_particle s1 s1 i)"
    using suffix_particle[OF i1, of cfg] i1 cls by (simp add: commit_particles)
  have k: "kview (3 * i) (step_suffix cfg s1) = kview (3 * i) b"
          "kview (3 * i + 1) (step_suffix cfg s1) = kview (3 * i + 1) b"
          "kview (3 * i + 2) (step_suffix cfg s1) = kview (3 * i + 2) b"
    using suffix_kview3[OF i1, of cfg] cls kb by (simp_all add: commit_kview)
  have dt: "dt_g (step_suffix cfg s1) = dt_g b"
    by (simp add: counter_suffix(3) s1_def)
  note pv = pv_cong[OF dt k(1), of 7] pv_cong[OF dt k(2), of 7] pv_cong[OF dt k(3), of 7]
  have vel: "vx (commit_particle s1 s1 i) = vx (particles s1 ! i)"
    "vy (commit_particle s1 s1 i) = vy (particles s1 ! i)"
    "vz (commit_particle s1 s1 i) = vz (particles s1 ! i)"
    using cls by (simp_all add: commit_particle_def Let_def)
  show ?thesis
    unfolding Let_def f(1) pnod_eqD[OF p] pv vel
    using v1 by (simp add: pvel_def)
qed

theorem step_leaves_predicted_velocity_in_other_classes_witness:
  "problem_additional_forces cfg_vel \<noteq> None
   \<and> integrator_force_is_velocitydependent cfg_vel \<noteq> 0
   \<and> 1 < length (particles (st_fresh two_classes))
   \<and> dtexp (particles (st_fresh two_classes) ! 1) \<noteq> dtexp_g (st_fresh two_classes)
   \<and> vx (particles (snd (integrator_ias15_step cfg_vel (st_fresh two_classes))) ! 1)
       = predicted_velocity 7 (3 * 1) (snd (integrator_ias15_step cfg_vel (st_fresh two_classes)))"
  using step_leaves_predicted_velocity_in_other_classes [of cfg_vel 1 "st_fresh two_classes"]
  by (simp add: cfg_vel_def cfg_zero_def st_fresh_def two_classes_def p_zero_def Let_def)


subsection \<open>Zeros and finite table entries\<close>

lemma isz_add: "isz a \<Longrightarrow> isz b \<Longrightarrow> isz (a + b)"
  by (auto simp: isz_def plus_double_def sval_def)

lemma isz_sub: "isz a \<Longrightarrow> isz b \<Longrightarrow> isz (a - b)"
  by (auto simp: isz_def minus_double_def sval_def)

lemma isz_mul: "isz a \<Longrightarrow> fin c \<Longrightarrow> isz (a * c)"
  by (cases c) (auto simp: isz_def fin_def times_double_def round64_def)

lemma isz_div: "isz a \<Longrightarrow> finnz c \<Longrightarrow> isz (a / c)"
  by (cases c) (auto simp: isz_def finnz_def divide_double_def round64_def)

lemma pz_add: "isz b \<Longrightarrow> Fin False 0 + b = Fin False 0" "isz b \<Longrightarrow> b + Fin False 0 = Fin False 0"
  by (auto simp: isz_def plus_double_def sval_def)

lemma isz_pz [simp]: "isz (Fin False 0)" "isz 0"
  by (simp_all add: isz_def zero_double_def)

lemma finnz_fin: "finnz c \<Longrightarrow> fin c"
  by (cases c) (simp_all add: fin_def finnz_def)

lemma rne_ge: "of_int m \<le> q \<Longrightarrow> m \<le> rne q"
proof -
  assume "of_int m \<le> q"
  then have "m \<le> \<lfloor>q\<rfloor>" by (simp add: le_floor_iff)
  then show ?thesis by (simp add: rne_def Let_def)
qed

lemma rne_le: "q \<le> of_int m \<Longrightarrow> rne q \<le> m"
proof -
  assume a: "q \<le> of_int m"
  have f: "\<lfloor>q\<rfloor> \<le> m" using a by (simp add: floor_le_iff)
  show ?thesis
  proof (cases "q - of_int \<lfloor>q\<rfloor> < 1 / 2")
    case True
    then show ?thesis using f by (simp add: rne_def Let_def)
  next
    case False
    then have "of_int \<lfloor>q\<rfloor> < q" by simp
    then have "of_int \<lfloor>q\<rfloor> < (of_int m :: rat)" using a by simp
    then have "\<lfloor>q\<rfloor> < m" by simp
    then show ?thesis by (simp add: rne_def Let_def)
  qed
qed

lemma round64_finnz:
  assumes "pow2 (- 30) \<le> a" "a \<le> pow2 2"
  shows "finnz (round64 sg a)"
proof -
  have pos: "0 < a" using assms(1) pow2_pos[of "- 30"] by linarith
  define ex where "ex = ilog2 a"
  note b = ilog2_bounds[OF pos, folded ex_def]
  have lo: "- 30 \<le> ex"
  proof (rule ccontr)
    assume "\<not> - 30 \<le> ex"
    then have "pow2 (ex + 1) \<le> pow2 (- 30)" by (intro pow2_mono) simp
    then show False using b assms by linarith
  qed
  have hi: "ex \<le> 2"
  proof (rule ccontr)
    assume "\<not> ex \<le> 2"
    then have "pow2 3 \<le> pow2 ex" by (intro pow2_mono) simp
    moreover have "pow2 2 < pow2 3" by (simp add: pow2_def)
    ultimately show False using b assms by linarith
  qed
  define u where "u = pow2 (ex - 52)"
  have u: "0 < u" by (simp add: u_def pow2_pos)
  have e1: "pow2 ex = 2 ^ 52 * u"
    using pow2_add[of 52 "ex - 52"] by (simp add: u_def pow2_def)
  have "of_int (2 ^ 52) \<le> a / u" using b u by (simp add: e1 pos_le_divide_eq)
  then have r1: "2 ^ 52 \<le> rne (a / u)" by (rule rne_ge)
  have e2: "pow2 (ex + 1) = 2 ^ 53 * u"
  proof -
    have a: "pow2 (53 + (ex - 52)) = pow2 53 * pow2 (ex - 52)" by (rule pow2_add)
    have b: "53 + (ex - 52) = ex + 1" by simp
    have c: "pow2 53 = 2 ^ 53" by (simp add: pow2_def)
    show ?thesis using a unfolding b c u_def .
  qed
  have "a / u \<le> of_int (2 ^ 53)" using b u by (simp add: e2 pos_divide_le_eq)
  then have r2: "rne (a / u) \<le> 2 ^ 53" by (rule rne_le)
  define y where "y = of_int (rne (a / u)) * u"
  have "(2 ^ 52 :: rat) \<le> of_int (rne (a / u))" using r1 by (metis of_int_le_iff of_int_numeral of_int_power)
  then have y1: "0 < y" using u unfolding y_def by (intro mult_pos_pos) simp_all
  have "(of_int (rne (a / u)) :: rat) \<le> 2 ^ 53" using r2 by (metis of_int_le_iff of_int_numeral of_int_power)
  then have "y \<le> 2 ^ 53 * u" using u unfolding y_def by simp
  then have "y \<le> pow2 (ex + 1)" by (simp add: e2)
  moreover have "pow2 (ex + 1) \<le> pow2 3" using hi by (intro pow2_mono) simp
  moreover have "pow2 3 < pow2 1024" by (simp add: pow2_def)
  ultimately have y2: "\<not> pow2 1024 \<le> y" by linarith
  have "round64 sg a = Fin sg y"
    using pos lo y2 by (simp add: round64_def ex_def[symmetric] max_def u_def[symmetric] y_def[symmetric])
  then show ?thesis using y1 by (simp add: finnz_def)
qed

lemma lit_finnz: "pow2 (- 30) \<le> \<bar>x\<bar> \<Longrightarrow> \<bar>x\<bar> \<le> pow2 2 \<Longrightarrow> finnz (lit x)"
  by (cases "x < 0") (simp_all add: lit_def round64_finnz abs_if)

lemma r_dec_range: "\<forall>x\<in>set r_dec. pow2 (- 30) \<le> \<bar>x\<bar> \<and> \<bar>x\<bar> \<le> pow2 2"
  by (simp add: r_dec_def pow2_def)

lemma c_dec_range: "\<forall>x\<in>set c_dec. pow2 (- 30) \<le> \<bar>x\<bar> \<and> \<bar>x\<bar> \<le> pow2 2"
  by (simp add: c_dec_def pow2_def)

lemma d_dec_range: "\<forall>x\<in>set d_dec. pow2 (- 30) \<le> \<bar>x\<bar> \<and> \<bar>x\<bar> \<le> pow2 2"
  by (simp add: d_dec_def pow2_def)

lemma length_decs: "length r_dec = 28" "length c_dec = 21" "length d_dec = 21"
  by (simp_all add: r_dec_def c_dec_def d_dec_def)

lemma r_finnz: "j < 28 \<Longrightarrow> finnz (r_tab j)"
  using r_dec_range nth_mem[of j r_dec] by (simp add: r_tab_def length_decs lit_finnz)

lemma c_fin: "j < 21 \<Longrightarrow> fin (c_tab j)"
  using c_dec_range nth_mem[of j c_dec] by (simp add: c_tab_def length_decs lit_finnz finnz_fin)

lemma d_fin: "j < 21 \<Longrightarrow> fin (d_tab j)"
  using d_dec_range nth_mem[of j d_dec] by (simp add: d_tab_def length_decs lit_finnz finnz_fin)


subsection \<open>A corrector pass without force\<close>

lemma zero_force_kview: "kview k s = kview k s' \<Longrightarrow> zero_force s k = zero_force s' k"
  by (simp add: kview_def zero_force_def fun_eq_iff)

lemma a_t_kview: "kview k s = kview k s' \<Longrightarrow> a_t s k = a_t s' k"
  by (simp add: kview_def)

lemma improve_fields [simp]:
  "a_t (improve_body n k s) = a_t s" "a0 (improve_body n k s) = a0 s"
  "particles (improve_body n k s) = particles s" "dtexp_g (improve_body n k s) = dtexp_g s"
  by (simp_all add: improve_body_def Let_def)

lemma improve_col:
  "j \<noteq> k \<Longrightarrow> gg (improve_body n k s) l j = gg s l j"
  "j \<noteq> k \<Longrightarrow> bb (improve_body n k s) l j = bb s l j"
  by (simp_all add: improve_body_def Let_def set2_def)

lemma improve_zero_other:
  "j \<noteq> k \<Longrightarrow> zero_force (improve_body n k s) j = zero_force s j"
  by (simp add: zero_force_def improve_col)

lemma less7: "l < 7 \<Longrightarrow> l = 0 \<or> l = 1 \<or> l = 2 \<or> l = 3 \<or> l = 4 \<or> l = 5 \<or> l = (6::nat)"
  by arith

lemma improve_zero_own:
  assumes "isz (a_t s k)" "zero_force s k"
  shows "zero_force (improve_body n k s) k"
proof -
  have a: "isz (a0 s k)" and g: "\<And>l. l < 7 \<Longrightarrow> isz (gg s l k)" and b: "\<And>l. l < 7 \<Longrightarrow> isz (bb s l k)"
    using assms(2) by (simp_all add: zero_force_def)
  have gk: "isz (a_t s k - a0 s k)" using assms(1) a by (rule isz_sub)
  note c = isz_div[OF _ r_finnz] isz_mul[OF _ c_fin] isz_sub isz_add
  have g0: "isz ((a_t s k - a0 s k) / r_tab 0)" by (intro c gk g) simp_all
  have g1: "isz (((a_t s k - a0 s k) / r_tab 1 - gg s 0 k) / r_tab 2)" by (intro c gk g) simp_all
  have g2: "isz ((((a_t s k - a0 s k) / r_tab 3 - gg s 0 k) / r_tab 4 - gg s 1 k) / r_tab 5)"
    by (intro c gk g) simp_all
  have g3: "isz (((((a_t s k - a0 s k) / r_tab 6 - gg s 0 k) / r_tab 7 - gg s 1 k) / r_tab 8
                  - gg s 2 k) / r_tab 9)"
    by (intro c gk g) simp_all
  have g4: "isz ((((((a_t s k - a0 s k) / r_tab 10 - gg s 0 k) / r_tab 11 - gg s 1 k) / r_tab 12
                   - gg s 2 k) / r_tab 13 - gg s 3 k) / r_tab 14)"
    by (intro c gk g) simp_all
  have g5: "isz (((((((a_t s k - a0 s k) / r_tab 15 - gg s 0 k) / r_tab 16 - gg s 1 k) / r_tab 17
                    - gg s 2 k) / r_tab 18 - gg s 3 k) / r_tab 19 - gg s 4 k) / r_tab 20)"
    by (intro c gk g) simp_all
  have g6: "isz ((((((((a_t s k - a0 s k) / r_tab 21 - gg s 0 k) / r_tab 22 - gg s 1 k) / r_tab 23
                     - gg s 2 k) / r_tab 24 - gg s 3 k) / r_tab 25 - gg s 4 k) / r_tab 26
                   - gg s 5 k) / r_tab 27)"
    by (intro c gk g) simp_all
  have u: "\<And>x y j l. isz x \<Longrightarrow> isz y \<Longrightarrow> l < 7 \<Longrightarrow> j < 21 \<Longrightarrow> isz (bb s l k + (x - y) * c_tab j)"
    by (intro c b) simp_all
  have v: "\<And>x y l. isz x \<Longrightarrow> isz y \<Longrightarrow> l < 7 \<Longrightarrow> isz (bb s l k + (x - y))"
    by (intro c b) simp_all
  show ?thesis
    unfolding zero_force_def
  proof (intro conjI allI impI)
    show "isz (a0 (improve_body n k s) k)" using a by simp
  next
    fix l :: nat assume l: "l < 7"
    show "isz (gg (improve_body n k s) l k)"
      using less7[OF l] g[OF l] g0 g1 g2 g3 g4 g5 g6
      by (auto simp: improve_body_def Let_def set2_def)
  next
    fix l :: nat assume l: "l < 7"
    show "isz (bb (improve_body n k s) l k)"
      using less7[OF l] b[OF l] u[OF g0 g] u[OF g1 g] u[OF g2 g] u[OF g3 g] u[OF g4 g] u[OF g5 g] u[OF g6 g]
         v[OF g0 g] v[OF g1 g] v[OF g2 g] v[OF g3 g] v[OF g4 g] v[OF g5 g] v[OF g6 g]
      by (auto simp: improve_body_def Let_def set2_def)
  qed
qed


subsection \<open>The predictor-corrector loop without force\<close>

lemma less3: "k < 3 \<Longrightarrow> k = 0 \<or> k = 1 \<or> k = (2::nat)"
  by arith

lemma force_free_upd [simp]:
  "force_free (s\<lparr>predictor_corrector_error := v\<rparr>) = force_free s"
  "force_free (s\<lparr>predictor_corrector_error_last := v\<rparr>) = force_free s"
  by (simp_all add: force_free_def zero_force_def)

lemma at_rest_free: "at_rest s \<Longrightarrow> force_free s"
  by (simp add: at_rest_def)

lemma node_at_rest:
  assumes g: "gravity cfg = (\<lambda>ps i. (0, 0, 0))" and h: "problem_additional_forces cfg = None"
    and f: "force_free s"
  shows "at_rest (node_body cfg 3 n s)"
proof -
  define a where "a = integrator_update_acceleration cfg
                        (fold (predict_position_body n) [0..<length (particles s)] s)"
  have l: "length (particles s) = 1" and cl: "dtexp (particles s ! 0) = dtexp_g s"
    and z: "\<And>k. k < 3 \<Longrightarrow> zero_force s k"
    using f by (simp_all add: force_free_def)
  have ka: "\<And>k. kview k a = kview k s" by (simp add: a_def)
  have pa: "map pstat (particles a) = map pstat (particles s)" by (simp add: a_def)
  have la: "length (particles a) = 1" using pstat_nth(7)[OF pa, of 0] l by simp
  have da: "dtexp (particles a ! 0) = dtexp (particles s ! 0)"
    using pstat_nth(3)[OF pa, of 0] l by simp
  have ga: "dtexp_g a = dtexp_g s" by (simp add: a_def dtexp_g_of_ctl)
  define q where "q = fold (predict_position_body n) [0..<length (particles s)] s"
  have lq: "length (particles q) = 1" unfolding q_def length_predict_position by (rule l)
  have aq: "a = integrator_update_acceleration cfg q" by (simp add: a_def q_def)
  have xa: "ax (particles a ! 0) = 0" "ay (particles a ! 0) = 0" "az (particles a ! 0) = 0"
    using lq by (simp_all add: aq integrator_update_acceleration_def Let_def g h write_acc_def)
  define c where "c = copy_at_body 0 a"
  have c: "c = a\<lparr>a_t := (a_t a)(0 := 0, 1 := 0, 2 := 0)\<rparr>"
    using da cl ga xa by (simp add: c_def copy_at_body_def numeral_2_eq_2)
  have zc: "\<And>k. k < 3 \<Longrightarrow> zero_force c k"
    using z zero_force_kview[OF ka] by (simp add: c zero_force_def)
  have tc: "\<And>k. k < 3 \<Longrightarrow> a_t c k = 0" using less3 by (auto simp: c)
  have ic: "\<And>k. k < 3 \<Longrightarrow> isz (a_t c k)" by (simp add: tc)
  define m where "m = improve_body n 2 (improve_body n 1 (improve_body n 0 c))"
  have n: "node_body cfg 3 n s = m"
    using la by (simp add: node_body_def Let_def h a_def[symmetric] upt_0_3 c_def m_def)
  have z1: "zero_force (improve_body n 0 c) 0" "zero_force (improve_body n 0 c) 1"
      "zero_force (improve_body n 0 c) 2"
    using improve_zero_own[of c 0 n] ic zc by (simp_all add: improve_zero_other)
  have z2: "zero_force (improve_body n 1 (improve_body n 0 c)) 0"
      "zero_force (improve_body n 1 (improve_body n 0 c)) 1"
      "zero_force (improve_body n 1 (improve_body n 0 c)) 2"
    using improve_zero_own[of "improve_body n 0 c" 1 n] ic z1 by (simp_all add: improve_zero_other)
  have z3: "zero_force m 0" "zero_force m 1" "zero_force m 2"
    using improve_zero_own[of "improve_body n 1 (improve_body n 0 c)" 2 n] ic z2
    by (simp_all add: improve_zero_other m_def)
  have zm: "\<And>k. k < 3 \<Longrightarrow> zero_force m k" using less3 z3 by auto
  have pm: "particles m = particles a" "dtexp_g m = dtexp_g s" "a_t m = a_t c"
    by (simp_all add: m_def c ga)
  show ?thesis
    unfolding n at_rest_def force_free_def pm
    using la da cl zm tc xa by simp
qed

lemma nodes_at_rest:
  assumes g: "gravity cfg = (\<lambda>ps i. (0, 0, 0))" and h: "problem_additional_forces cfg = None"
  shows "at_rest s \<or> (force_free s \<and> xs \<noteq> []) \<Longrightarrow> at_rest (fold (node_body cfg 3) xs s)"
proof (induction xs arbitrary: s)
  case Nil
  then show ?case by simp
next
  case (Cons x xs)
  from Cons.prems have "force_free s" by (auto simp: at_rest_free)
  then have "at_rest (node_body cfg 3 x s)" by (rule node_at_rest[OF g h])
  then show ?case using Cons.IH by simp
qed

lemma iteration_at_rest:
  assumes g: "gravity cfg = (\<lambda>ps i. (0, 0, 0))" and h: "problem_additional_forces cfg = None"
    and f: "force_free s"
  shows "at_rest (pc_iteration cfg 3 s)"
  unfolding pc_iteration_def Let_def
  by (rule nodes_at_rest[OF g h]) (simp add: f upt_1_8)

lemma at_rest_max_exceeded: "at_rest (max_exceeded s) = at_rest s"
  by (simp add: max_exceeded_def Let_def at_rest_def force_free_def zero_force_def)

lemma loop_at_rest:
  assumes g: "gravity cfg = (\<lambda>ps i. (0, 0, 0))" and h: "problem_additional_forces cfg = None"
    and f: "force_free b" and e: "predictor_corrector_error b = lit (10 ^ 300)"
  shows "at_rest (snd (predictor_corrector_loop cfg 3 0 b))"
proof -
  have x: "\<not> pc_exit 0 b" using first_pass_runs by (simp add: pc_exit_def e)
  have u: "predictor_corrector_loop cfg 3 0 b
             = predictor_corrector_loop cfg 3 1 (pc_iteration cfg 3 b)"
    using pc_loop_unfold[of cfg 3 0 b] x by simp
  from pc_loop_trace[of 1 cfg 3 "pc_iteration cfg 3 b"] obtain n where
    n: "predictor_corrector_loop cfg 3 1 (pc_iteration cfg 3 b)
          = pc_finish (1 + int n) ((pc_iteration cfg 3 ^^ n) (pc_iteration cfg 3 b))"
    by auto
  have "at_rest ((pc_iteration cfg 3 ^^ n) (pc_iteration cfg 3 b))"
  proof (induction n)
    case 0
    show ?case using iteration_at_rest[OF g h f] by simp
  next
    case (Suc n)
    then show ?case using iteration_at_rest[OF g h at_rest_free] by simp
  qed
  then show ?thesis by (simp add: u n pc_finish_def at_rest_max_exceeded)
qed


subsection \<open>The start of a step of the free particle\<close>

lemma ws_bb: "bb (warm_start_body j s) l k = (if k = j \<and> l < 7 then 0 else bb s l k)"
  using less7[of l] by (auto simp: warm_start_body_def Let_def set2_def)

lemma prefix_bb:
  assumes "length (particles st) = 1" "l < 7" "k < 3"
  shows "bb (step_prefix cfg st) l k = 0"
  unfolding prefix_brs(1) assms(1)
  using less3[OF assms(3)] assms(2) by (auto simp: upt_0_3 ws_bb)

lemma gfb_other: "j \<noteq> k \<Longrightarrow> gg (g_from_b_body k s) l j = gg s l j"
  by (simp add: g_from_b_body_def Let_def set2_def)

lemma gfb_bb [simp]: "bb (g_from_b_body k s) = bb s"
  by (simp add: g_from_b_body_def Let_def)

lemma gfb_own:
  assumes b: "\<And>l. l < 7 \<Longrightarrow> isz (bb s l k)" and l: "l < 7"
  shows "isz (gg (g_from_b_body k s) l k)"
proof -
  note c = isz_mul[OF _ d_fin] isz_add
  have "isz (bb s 6 k * d_tab 15 + bb s 5 k * d_tab 10 + bb s 4 k * d_tab 6 + bb s 3 k * d_tab 3
               + bb s 2 k * d_tab 1 + bb s 1 k * d_tab 0 + bb s 0 k)"
    "isz (bb s 6 k * d_tab 16 + bb s 5 k * d_tab 11 + bb s 4 k * d_tab 7 + bb s 3 k * d_tab 4
               + bb s 2 k * d_tab 2 + bb s 1 k)"
    "isz (bb s 6 k * d_tab 17 + bb s 5 k * d_tab 12 + bb s 4 k * d_tab 8 + bb s 3 k * d_tab 5
               + bb s 2 k)"
    "isz (bb s 6 k * d_tab 18 + bb s 5 k * d_tab 13 + bb s 4 k * d_tab 9 + bb s 3 k)"
    "isz (bb s 6 k * d_tab 19 + bb s 5 k * d_tab 14 + bb s 4 k)"
    "isz (bb s 6 k * d_tab 20 + bb s 5 k)"
    "isz (bb s 6 k)"
    by (intro c b, simp_all)+
  then show ?thesis
    using less7[OF l] by (auto simp: g_from_b_body_def Let_def set2_def)
qed

lemma capture_body_fields [simp]:
  "bb (capture_body k s) = bb s" "csx (capture_body k s) = csx s" "csv (capture_body k s) = csv s"
  by (simp_all add: capture_body_def Let_def)

lemma prefix_gg_eq:
  "gg (step_prefix cfg st)
     = gg (fold g_from_b_body [0..<nat (3 * int (length (particles st)))]
             (fold capture_body [0..<length (particles st)]
                (fold warm_start_body [0..<nat (3 * int (length (particles st)))]
                   (compute_dt cfg (realloc_buffers (3 * int (length (particles st))) st)))))"
  by (simp add: step_prefix_def Let_def)

lemma prefix_gg:
  assumes n: "length (particles st) = 1" and l: "l < 7" and k: "k < 3"
  shows "isz (gg (step_prefix cfg st) l k)"
proof -
  define c where "c = fold capture_body [0..<1]
                (fold warm_start_body [0..<3] (compute_dt cfg (realloc_buffers 3 st)))"
  have b: "\<And>l k. l < 7 \<Longrightarrow> k < 3 \<Longrightarrow> isz (bb c l k)"
  proof -
    fix l k :: nat assume "l < 7" "k < 3"
    then show "isz (bb c l k)" using less3[of k] by (auto simp: c_def upt_0_3 ws_bb)
  qed
  have e: "gg (step_prefix cfg st) = gg (fold g_from_b_body [0..<3] c)"
    unfolding prefix_gg_eq n c_def by simp
  define c1 where "c1 = g_from_b_body 0 c"
  define c2 where "c2 = g_from_b_body 1 c1"
  have f: "fold g_from_b_body [0..<3] c = g_from_b_body 2 c2"
    by (simp add: upt_0_3 c1_def c2_def)
  have "isz (gg (g_from_b_body 2 c2) l 0)" "isz (gg (g_from_b_body 2 c2) l 1)"
    "isz (gg (g_from_b_body 2 c2) l 2)"
    using gfb_own[of c 0 l] gfb_own[of c1 1 l] gfb_own[of c2 2 l] b l
    by (simp_all add: gfb_other c1_def c2_def)
  then show ?thesis unfolding e f using less3[OF k] by auto
qed

lemma prefix_a0:
  assumes "i < length (particles st)"
  shows "a0 (step_prefix cfg st) (3 * i) = ax (particles st ! i)"
    and "a0 (step_prefix cfg st) (3 * i + 1) = ay (particles st ! i)"
    and "a0 (step_prefix cfg st) (3 * i + 2) = az (particles st ! i)"
proof -
  define w where "w = fold warm_start_body [0..<nat (3 * int (length (particles st)))]
                        (compute_dt cfg (realloc_buffers (3 * int (length (particles st))) st))"
  have pw: "particles w = particles st" by (simp add: w_def compute_dt_def)
  have b: "bufs (step_prefix cfg st) = bufs (fold capture_body [0..<length (particles st)] w)"
    by (simp add: step_prefix_def Let_def w_def[symmetric] pw)
  note c = capture_kview[OF assms, of w, unfolded pw]
  show "a0 (step_prefix cfg st) (3 * i) = ax (particles st ! i)"
    and "a0 (step_prefix cfg st) (3 * i + 1) = ay (particles st ! i)"
    and "a0 (step_prefix cfg st) (3 * i + 2) = az (particles st ! i)"
    unfolding x0_of_bufs b using c by (simp_all add: x0_of_bufs[symmetric])
qed

lemma prefix_force_free:
  assumes n: "length (particles st) = 1" and d: "dtexp (particles st ! 0) = dtexp_g st"
    and a: "ax (particles st ! 0) = 0" "ay (particles st ! 0) = 0" "az (particles st ! 0) = 0"
  shows "force_free (step_prefix cfg st)"
proof -
  have "a0 (step_prefix cfg st) 0 = 0" "a0 (step_prefix cfg st) 1 = 0"
    "a0 (step_prefix cfg st) 2 = 0"
    using prefix_a0[of 0 st cfg] n a by (simp_all add: numeral_2_eq_2)
  then have "isz (a0 (step_prefix cfg st) k)" if "k < 3" for k
    using less3[OF that] by auto
  then show ?thesis
    using n d by (simp add: force_free_def zero_force_def prefix_ctl prefix_bb prefix_gg)
qed

lemma cs_frames:
  "csx (fold warm_start_body xs s) = csx s" "csv (fold warm_start_body xs s) = csv s"
  "csx (fold capture_body xs s) = csx s" "csv (fold capture_body xs s) = csv s"
  "csx (fold g_from_b_body xs s) = csx s" "csv (fold g_from_b_body xs s) = csv s"
  by (rule fold_frame, simp add: warm_start_body_def capture_body_def g_from_b_body_def Let_def)+

lemma realloc_cs:
  assumes "N3allocated st < 3 \<or> cs_zero st"
  shows "cs_zero (realloc_buffers 3 st)"
proof (cases "N3allocated st < 3")
  case True
  have "\<And>xs ys s. csx (fold (\<lambda>l. fold (realloc_zero_body l) ys) xs s) = csx s"
       "\<And>xs ys s. csv (fold (\<lambda>l. fold (realloc_zero_body l) ys) xs s) = csv s"
    by (rule fold_frame, rule fold_frame, simp add: realloc_zero_body_def)+
  then show ?thesis
    using True less3 by (auto simp: realloc_buffers_def Let_def upt_0_3 realloc_cs_body_def cs_zero_def)
next
  case False
  then show ?thesis using assms by (simp add: realloc_buffers_def)
qed

lemma prefix_cs_zero:
  assumes "length (particles st) = 1" "N3allocated st < 3 \<or> cs_zero st"
  shows "cs_zero (step_prefix cfg st)"
proof -
  have "csx (step_prefix cfg st) = csx (realloc_buffers 3 st)"
       "csv (step_prefix cfg st) = csv (realloc_buffers 3 st)"
    using assms(1) by (simp_all add: step_prefix_def Let_def cs_frames compute_dt_def)
  then show ?thesis using realloc_cs[OF assms(2)] by (simp add: cs_zero_def)
qed


subsection \<open>The compensated update of a component moving at unit speed\<close>

lemma nat_add_exact:
  assumes "n + m < 2 ^ 53"
  shows "Fin False (of_nat n) + Fin False (of_nat m) = Fin False (of_nat (n + m))"
proof (cases "n + m = 0")
  case True
  then show ?thesis by (simp add: plus_double_def sval_def)
next
  case False
  then have "(of_nat n + of_nat m :: rat) \<noteq> 0" by (metis of_nat_add of_nat_eq_0_iff)
  then show ?thesis
    using lit_nat[OF assms] by (simp add: plus_double_def sval_def)
qed

lemma zero_plus_nat:
  assumes "isz z" "m < 2 ^ 53"
  shows "z + Fin False (of_nat m) = Fin False (of_nat m)"
proof (cases "m = 0")
  case True
  then show ?thesis using assms(1) by (auto simp: isz_def plus_double_def sval_def)
next
  case False
  then show ?thesis
    using assms(1) lit_nat[OF assms(2)] by (auto simp: isz_def plus_double_def sval_def)
qed

lemma kahan_nat:
  assumes "n + m < 2 ^ 53"
  shows "Fin False (of_nat m) + (Fin False (of_nat n) - Fin False (of_nat (n + m))) = Fin False 0"
proof (cases "m = 0")
  case True
  then show ?thesis by (simp add: plus_double_def minus_double_def sval_def)
next
  case False
  have m: "m < 2 ^ 53" using assms by simp
  have "Fin False (of_nat n) - Fin False (of_nat (n + m)) = Fin True (of_nat m)"
    using False round64_nat[OF m, of True]
    by (simp add: minus_double_def sval_def lit_def)
  then show ?thesis by (simp add: plus_double_def sval_def)
qed

lemma mul_one_nat: "m < 2 ^ 53 \<Longrightarrow> Fin False (of_nat m) * 1 = Fin False (of_nat m)"
  using round64_nat[of m False] by (simp add: times_double_def one_double_def)

lemma isz_mul_one: "isz z \<Longrightarrow> isz (z * 1)"
  by (rule isz_mul) (simp_all add: fin_def one_double_def)

lemma finnz_Fin [simp]: "finnz (Fin sg x) = (x \<noteq> 0)" "fin (Fin sg x)"
  by (simp_all add: finnz_def fin_def)

lemma cc_exprs:
  "x0 (commit_component d k s) k
     = x0 s k + (csx s k
         + ((bb s 6 k / lit 72 + bb s 5 k / lit 56 + bb s 4 k / lit 42
                     + bb s 3 k / lit 30 + bb s 2 k / lit 20 + bb s 1 k / lit 12
                     + bb s 0 k / lit 6 + a0 s k / lit 2) * d + v0 s k * dt_g s))"
  "csx (commit_component d k s) k
     = (csx s k
         + ((bb s 6 k / lit 72 + bb s 5 k / lit 56 + bb s 4 k / lit 42
                     + bb s 3 k / lit 30 + bb s 2 k / lit 20 + bb s 1 k / lit 12
                     + bb s 0 k / lit 6 + a0 s k / lit 2) * d + v0 s k * dt_g s))
       + (x0 s k - x0 (commit_component d k s) k)"
  "v0 (commit_component d k s) k
     = v0 s k + (csv s k
         + (bb s 6 k / lit 8 + bb s 5 k / lit 7 + bb s 4 k / lit 6
                    + bb s 3 k / lit 5 + bb s 2 k / lit 4 + bb s 1 k / lit 3
                    + bb s 0 k / lit 2 + a0 s k) * dt_g s)"
  "csv (commit_component d k s) k
     = (csv s k
         + (bb s 6 k / lit 8 + bb s 5 k / lit 7 + bb s 4 k / lit 6
                    + bb s 3 k / lit 5 + bb s 2 k / lit 4 + bb s 1 k / lit 3
                    + bb s 0 k / lit 2 + a0 s k) * dt_g s)
       + (v0 s k - v0 (commit_component d k s) k)"
  by (simp_all add: commit_component_def Let_def)

lemma cc_drift:
  assumes dt: "dt_g s = 1" and d: "d = 1" and cx: "csx s k = 0" and cv: "csv s k = 0"
    and z: "zero_force s k"
    and x: "x0 s k = Fin False (of_nat n)" and v: "v0 s k = Fin False (of_nat m)"
    and b: "n + m < 2 ^ 53"
  shows "x0 (commit_component d k s) k = Fin False (of_nat (n + m))"
    and "v0 (commit_component d k s) k = Fin False (of_nat m)"
    and "csx (commit_component d k s) k = 0"
    and "csv (commit_component d k s) k = 0"
proof -
  have a: "isz (a0 s k)" and bz: "\<And>l. l < 7 \<Longrightarrow> isz (bb s l k)"
    using z by (simp_all add: zero_force_def)
  have m: "m < 2 ^ 53" using b by simp
  define zs where "zs = bb s 6 k / lit 72 + bb s 5 k / lit 56 + bb s 4 k / lit 42
                     + bb s 3 k / lit 30 + bb s 2 k / lit 20 + bb s 1 k / lit 12
                     + bb s 0 k / lit 6 + a0 s k / lit 2"
  define zv where "zv = bb s 6 k / lit 8 + bb s 5 k / lit 7 + bb s 4 k / lit 6
                    + bb s 3 k / lit 5 + bb s 2 k / lit 4 + bb s 1 k / lit 3
                    + bb s 0 k / lit 2 + a0 s k"
  have zs: "isz zs" unfolding zs_def by (intro isz_add isz_div a bz) simp_all
  have zv: "isz zv" unfolding zv_def by (intro isz_add isz_div a bz) simp_all
  have e1: "csx s k + (zs * d + v0 s k * dt_g s) = Fin False (of_nat m)"
    unfolding dt d v cx mul_one_nat[OF m]
    using zero_plus_nat[OF isz_mul_one[OF zs] m] zero_plus_nat[of 0 m] m by simp
  have e4: "csv s k + zv * dt_g s = 0"
    unfolding dt cv using pz_add(1)[OF isz_mul_one[OF zv]] by (simp add: zero_double_def)
  show x': "x0 (commit_component d k s) k = Fin False (of_nat (n + m))"
    unfolding cc_exprs(1) zs_def[symmetric] e1 x by (rule nat_add_exact[OF b])
  show v': "v0 (commit_component d k s) k = Fin False (of_nat m)"
    unfolding cc_exprs(3) zv_def[symmetric] e4 v
    using nat_add_exact[of m 0] m by (simp add: zero_double_def)
  show "csx (commit_component d k s) k = 0"
    unfolding cc_exprs(2) x' zs_def[symmetric] e1 x
    using kahan_nat[OF b] by (simp add: zero_double_def)
  show "csv (commit_component d k s) k = 0"
    unfolding cc_exprs(4) v' zv_def[symmetric] e4 v
    using kahan_nat[of m 0] m by (simp add: zero_double_def)
qed


lemma kview_eqD2:
  assumes "kview k s = kview k s'"
  shows "x0 s k = x0 s' k" "v0 s k = v0 s' k" "csx s k = csx s' k" "csv s k = csv s' k"
    "zero_force s k = zero_force s' k"
  using assms zero_force_kview[OF assms] by (simp_all add: kview_def)

lemma one_is_nat: "(1::double) = Fin False (of_nat 1)" "(0::double) = Fin False (of_nat 0)"
  by (simp_all add: one_double_def zero_double_def)

lemma commit3_drift:
  assumes dt: "dt_g s = 1" and cs: "cs_zero s" and z: "\<And>k. k < 3 \<Longrightarrow> zero_force s k"
    and x: "x0 s 0 = Fin False (of_nat n)" "x0 s 1 = 0" "x0 s 2 = 0"
    and v: "v0 s 0 = 1" "v0 s 1 = 0" "v0 s 2 = 0" and b: "n + 1 < 2 ^ 53"
  shows "x0 (commit3 (dt_g s * dt_g s) 0 s) 0 = Fin False (of_nat (n + 1))"
    and "x0 (commit3 (dt_g s * dt_g s) 0 s) 1 = 0"
    and "x0 (commit3 (dt_g s * dt_g s) 0 s) 2 = 0"
    and "v0 (commit3 (dt_g s * dt_g s) 0 s) 0 = 1"
    and "v0 (commit3 (dt_g s * dt_g s) 0 s) 1 = 0"
    and "v0 (commit3 (dt_g s * dt_g s) 0 s) 2 = 0"
    and "cs_zero (commit3 (dt_g s * dt_g s) 0 s)"
proof -
  have d: "dt_g s * dt_g s = 1" unfolding dt by (simp add: times_double_def one_double_def)
  define s1 where "s1 = commit_component 1 0 s"
  define s2 where "s2 = commit_component 1 1 s1"
  define B where "B = commit_component 1 2 s2"
  have B: "commit3 (dt_g s * dt_g s) 0 s = B"
    unfolding d by (simp add: commit3_def B_def s2_def s1_def numeral_2_eq_2)
  have c: "csx s 0 = 0" "csx s 1 = 0" "csx s 2 = 0" "csv s 0 = 0" "csv s 1 = 0" "csv s 2 = 0"
    using cs by (simp_all add: cs_zero_def)
  note k1 = kview_eqD2[OF cc_other[of 1 0 1 s], folded s1_def]
  note k2 = kview_eqD2[OF cc_other[of 2 0 1 s], folded s1_def]
  have dt1: "dt_g s1 = 1" "dt_g s2 = 1" by (simp_all add: s1_def s2_def dt)
  note c0 = cc_drift[where s=s and d=1 and k=0 and n=n and m=1, folded s1_def,
                     OF dt refl c(1) c(4) z[of 0] x(1) v(1)[unfolded one_is_nat(1)] b]
  have z1: "zero_force s1 1" "zero_force s1 2" using k1(5) k2(5) z by simp_all
  have b0: "(0::nat) + 0 < 2 ^ 53" by simp
  note c1 = cc_drift[where s=s1 and d=1 and k=1 and n=0 and m=0, folded s2_def,
                     OF dt1(1) refl _ _ z1(1) _ _ b0]
  have r1: "x0 s2 1 = 0" "v0 s2 1 = 0" "csx s2 1 = 0" "csv s2 1 = 0"
    using c1 k1 x(2) v(2) c(2,5) by (simp_all add: zero_double_def)
  note j0 = kview_eqD2[OF cc_other[of 0 1 1 s1], folded s2_def]
  note j2 = kview_eqD2[OF cc_other[of 2 1 1 s1], folded s2_def]
  have z2: "zero_force s2 2" using j2(5) z1(2) by simp
  note c2 = cc_drift[where s=s2 and d=1 and k=2 and n=0 and m=0, folded B_def,
                     OF dt1(2) refl _ _ z2 _ _ b0]
  have r2: "x0 B 2 = 0" "v0 B 2 = 0" "csx B 2 = 0" "csv B 2 = 0"
    using c2 j2 k2 x(3) v(3) c(3,6) by (simp_all add: zero_double_def)
  note i0 = kview_eqD2[OF cc_other[of 0 2 1 s2], folded B_def]
  note i1 = kview_eqD2[OF cc_other[of 1 2 1 s2], folded B_def]
  have q0: "x0 B 0 = Fin False (of_nat (n + 1))" "v0 B 0 = 1" "csx B 0 = 0" "csv B 0 = 0"
    using c0 i0 j0 by (simp_all add: one_double_def)
  have q1: "x0 B 1 = 0" "v0 B 1 = 0" "csx B 1 = 0" "csv B 1 = 0"
    using r1 i1 by simp_all
  show "x0 (commit3 (dt_g s * dt_g s) 0 s) 0 = Fin False (of_nat (n + 1))"
    and "x0 (commit3 (dt_g s * dt_g s) 0 s) 1 = 0"
    and "x0 (commit3 (dt_g s * dt_g s) 0 s) 2 = 0"
    and "v0 (commit3 (dt_g s * dt_g s) 0 s) 0 = 1"
    and "v0 (commit3 (dt_g s * dt_g s) 0 s) 1 = 0"
    and "v0 (commit3 (dt_g s * dt_g s) 0 s) 2 = 0"
    unfolding B using q0 q1 r2 by simp_all
  have "csx B k = 0 \<and> csv B k = 0" if "k < 3" for k
    using less3[OF that] q0 q1 r2 by auto
  then show "cs_zero (commit3 (dt_g s * dt_g s) 0 s)" unfolding B by (simp add: cs_zero_def)
qed


subsection \<open>The end of a step of the free particle\<close>

lemma csx_of_bufs:
  "csx s = fst (snd (snd (snd (bufs s))))" "csv s = fst (snd (snd (snd (snd (bufs s)))))"
  by (simp_all add: bufs_def)

lemma dless_NaN [simp]: "dless e NaN = False"
  by (cases e) simp_all

lemma controller_class_zero:
  assumes "\<And>k. k < 3 \<Longrightarrow> a_t s k = 0" "\<And>k. k < 3 \<Longrightarrow> isz (bb s 6 k)"
  shows "controller_class cfg s 0 = 0"
proof -
  have n: "fabs (bb s 6 k / a_t s k) = NaN" if "k < 3" for k
    using assms(1)[OF that] assms(2)[OF that]
    by (auto simp: isz_def divide_double_def zero_double_def)
  have e: "errork_max_body s 0 k e = e" if "k < 3" for k e
    using n[OF that] by (simp add: errork_max_body_def Let_def less_double_def)
  have "fold (errork_max_body s 0) [0..<3] 0 = 0" by (simp add: upt_0_3 e)
  moreover have "\<not> isnormal 0" using pow2_pos[of "- 1022"] by (simp add: zero_double_def)
  ultimately show ?thesis by (simp add: controller_class_def Let_def)
qed

lemma step_dtexp:
  assumes "i < length (particles st)"
  shows "dtexp (particles (snd (integrator_ias15_step cfg st)) ! i)
           = (if integrator_epsilon cfg > 0 \<and> dtexp (particles st ! i) = dtexp_g st
              then controller_class cfg (snd (integrator_ias15_step cfg st)) i
              else dtexp (particles st ! i))"
proof -
  define s1 where "s1 = snd (predictor_corrector_loop cfg (3 * int (length (particles st))) 0
                       (step_prefix cfg st))"
  note f = step_final[OF assms(1), of cfg, folded s1_def]
  define S where "S = fold (commit_body (dt_g s1 * dt_g s1)) [0..<length (particles s1)] s1"
  have i1: "i < length (particles s1)" using assms f(2) by simp
  have lS: "length (particles S) = length (particles s1)" by (simp add: S_def)
  have dS: "dtexp (particles S ! i) = dtexp (particles st ! i)"
    unfolding S_def commit_dtexp[OF i1] by (rule f(3))
  have cS: "ctrl_in S = ctrl_in s1" by (simp add: S_def)
  then have gS: "dtexp_g S = dtexp_g st" "dt_g S = dt_g s1" "a_t S = a_t s1" "bb S = bb s1"
    using f(10) by (simp_all add: ctrl_in_def)
  have cc: "controller_class cfg S i = controller_class cfg (step_suffix cfg s1) i"
    by (rule controller_class_cong) (simp_all add: gS counter_suffix(3) suffix_reads)
  have r: "dtexp (particles (step_suffix cfg s1) ! i)
             = (if integrator_epsilon cfg > 0 \<and> dtexp (particles st ! i) = dtexp_g st
                then controller_class cfg (step_suffix cfg s1) i else dtexp (particles st ! i))"
    using i1 lS dS
    by (simp add: suffix_particles Let_def S_def[symmetric] controller_local
                  controller_body_particle nth_upd gS(1) cc)
  show ?thesis unfolding f(1) by (rule r)
qed

lemma length_controller [simp]:
  "length (particles (fold (controller_body cfg) xs s)) = length (particles s)"
  using ctrl_in_rest(1)[of cfg xs s] by (simp add: ctrl_in_def)

lemma dtexp_g_controller [simp]:
  "dtexp_g (fold (controller_body cfg) xs s) = dtexp_g s"
  using ctrl_in_rest(1)[of cfg xs s] by (simp add: ctrl_in_def)

lemma suffix_dtexp_g:
  assumes l: "length (particles s) = 1" and g: "dtexp_g s = 0"
    and d: "dtexp (particles (step_suffix cfg s) ! 0) = 0"
  shows "dtexp_g (step_suffix cfg s) = 0"
proof -
  define S where "S = (let S = fold (commit_body (dt_g s * dt_g s)) [0..<length (particles s)] s
                in if integrator_epsilon cfg > 0
                   then fold (controller_body cfg) [0..<length (particles S)] S else S)"
  have p: "particles (step_suffix cfg s) = particles S"
    by (simp add: suffix_particles S_def)
  have "length (particles S) = length (particles s)" by (simp add: S_def Let_def)
  then have lS: "length (particles S) = 1" using l by simp
  have gS: "dtexp_g S = 0"
    using g by (simp add: S_def Let_def dtexp_g_of_ctl)
  have e: "step_suffix cfg s
             = advance_substep cfg (fold dtexp_min_body [0..<length (particles S)]
                                      (S\<lparr>dtexp_min := 0\<rparr>))"
    by (simp add: step_suffix_def Let_def S_def)
  have m: "fold dtexp_min_body [0..<length (particles S)] (S\<lparr>dtexp_min := 0\<rparr>)
             = S\<lparr>dtexp_min := 0\<rparr>"
    using d by (simp add: lS p dtexp_min_body_def)
  show ?thesis unfolding e m using gS by (simp add: advance_substep_def Let_def)
qed


subsection \<open>The free drift\<close>

lemma drift_step:
  assumes g: "gravity cfg = (\<lambda>ps i. (0, 0, 0))" and h: "problem_additional_forces cfg = None"
    and mx: "integrator_max_dt cfg = 1"
    and dr: "drift n st" and cs: "N3allocated st < 3 \<or> cs_zero st" and b: "n + 1 < 2 ^ 53"
  shows "drift (n + 1) (snd (integrator_ias15_step cfg st))"
    and "cs_zero (snd (integrator_ias15_step cfg st))"
proof -
  have l: "length (particles st) = 1" and i0: "0 < length (particles st)"
    and d0: "dtexp (particles st ! 0) = 0" and g0: "dtexp_g st = 0"
    using dr by (simp_all add: drift_def)
  define s1 where "s1 = snd (predictor_corrector_loop cfg (3 * int (length (particles st))) 0
                       (step_prefix cfg st))"
  note f = step_final[OF i0, of cfg, folded s1_def]
  have N3: "3 * int (length (particles st)) = 3" using l by simp
  have ff: "force_free (step_prefix cfg st)"
    using dr by (intro prefix_force_free) (simp_all add: drift_def)
  have ar: "at_rest s1" unfolding s1_def N3 by (rule loop_at_rest[OF g h ff prefix_pce])
  have bf: "bufs s1 = bufs (step_prefix cfg st)" by (simp add: s1_def)
  have cz: "cs_zero s1"
    using prefix_cs_zero[OF l cs, of cfg] unfolding cs_zero_def csx_of_bufs bf .
  have dt: "dt_g s1 = 1" using f(12) g0 mx by simp
  have x: "x0 s1 0 = Fin False (of_nat n)" "x0 s1 1 = 0" "x0 s1 2 = 0"
    and v: "v0 s1 0 = 1" "v0 s1 1 = 0" "v0 s1 2 = 0"
    using f(13-18) dr by (simp_all add: drift_def numeral_2_eq_2)
  have z: "\<And>k. k < 3 \<Longrightarrow> zero_force s1 k" and t: "\<And>k. k < 3 \<Longrightarrow> a_t s1 k = 0"
    and a: "ax (particles s1 ! 0) = 0" "ay (particles s1 ! 0) = 0" "az (particles s1 ! 0) = 0"
    and cls: "dtexp (particles s1 ! 0) = dtexp_g s1" and l1: "length (particles s1) = 1"
    using ar by (simp_all add: at_rest_def force_free_def)
  define B where "B = commit3 (dt_g s1 * dt_g s1) 0 s1"
  note c3 = commit3_drift[OF dt cz z x v b, folded B_def]
  have i1: "0 < length (particles s1)" using l1 by simp
  define st' where "st' = step_suffix cfg s1"
  have p: "pnod (particles st' ! 0) = pnod (commit_particle s1 B 0)"
    using suffix_particle[OF i1, of cfg] i1 cls by (simp add: commit_particles B_def st'_def)
  have k: "kview 0 st' = kview 0 B" "kview 1 st' = kview 1 B" "kview 2 st' = kview 2 B"
    using suffix_kview3[OF i1, of cfg] cls
    by (simp_all add: commit_kview B_def st'_def numeral_2_eq_2)
  have pos: "p_x (particles st' ! 0) = Fin False (of_nat (n + 1))"
    "p_y (particles st' ! 0) = 0" "p_z (particles st' ! 0) = 0"
    "vx (particles st' ! 0) = 1" "vy (particles st' ! 0) = 0" "vz (particles st' ! 0) = 0"
    unfolding pnod_eqD[OF p] using cls c3
    by (simp_all add: commit_particle_def Let_def numeral_2_eq_2)
  have acc: "ax (particles st' ! 0) = 0" "ay (particles st' ! 0) = 0" "az (particles st' ! 0) = 0"
    using arg_cong[OF p, of ax] arg_cong[OF p, of ay] arg_cong[OF p, of az] a
    by (simp_all add: pnod_def commit_particle_def Let_def)
  have bz: "\<And>k. k < 3 \<Longrightarrow> isz (bb s1 6 k)" using z by (simp add: zero_force_def)
  have cc: "controller_class cfg st' 0 = 0"
    by (rule controller_class_zero) (simp_all add: st'_def suffix_reads t bz)
  have de: "dtexp (particles st' ! 0) = 0"
    using step_dtexp[OF i0, of cfg] d0 cc unfolding f(1) st'_def[symmetric] by simp
  have dg: "dtexp_g st' = 0"
    unfolding st'_def
    by (rule suffix_dtexp_g[OF l1]) (simp_all add: f(10) g0 de[unfolded st'_def])
  have "length (map pnod (particles st')) = length (map pnod (particles s1))"
    unfolding st'_def suffix_pnod by simp
  then have ln: "length (particles st') = 1" using l1 by simp
  show "drift (n + 1) (snd (integrator_ias15_step cfg st))"
    unfolding f(1) st'_def[symmetric] drift_def using ln dg pos acc de by simp
  have "csx st' k = 0 \<and> csv st' k = 0" if "k < 3" for k
    using less3[OF that] kview_eqD2(3,4)[OF k(1)] kview_eqD2(3,4)[OF k(2)]
      kview_eqD2(3,4)[OF k(3)] c3(7)
    by (auto simp: cs_zero_def)
  then show "cs_zero (snd (integrator_ias15_step cfg st))"
    unfolding f(1) st'_def[symmetric] by (simp add: cs_zero_def)
qed

lemma drift_steps:
  assumes g: "gravity cfg = (\<lambda>ps i. (0, 0, 0))" and h: "problem_additional_forces cfg = None"
    and mx: "integrator_max_dt cfg = 1"
    and dr: "drift 0 st" and cs: "N3allocated st < 3 \<or> cs_zero st"
  shows "m < 2 ^ 53 \<Longrightarrow> drift m (((\<lambda>s. snd (integrator_ias15_step cfg s)) ^^ m) st)
     \<and> (N3allocated (((\<lambda>s. snd (integrator_ias15_step cfg s)) ^^ m) st) < 3
        \<or> cs_zero (((\<lambda>s. snd (integrator_ias15_step cfg s)) ^^ m) st))"
proof (induction m)
  case 0
  show ?case using dr cs by simp
next
  case (Suc m)
  then have a: "drift m (((\<lambda>s. snd (integrator_ias15_step cfg s)) ^^ m) st)"
    and c: "N3allocated (((\<lambda>s. snd (integrator_ias15_step cfg s)) ^^ m) st) < 3
            \<or> cs_zero (((\<lambda>s. snd (integrator_ias15_step cfg s)) ^^ m) st)"
    and b: "m + 1 < 2 ^ 53"
    by simp_all
  show ?case using drift_step[OF g h mx a c b] by simp
qed


section \<open>Free drift of a single particle\<close>

text \<open>
  C8. Free drift. One particle of class 0 at the origin with velocity \<open>(1, 0, 0)\<close> and
  zero acceleration, an integrator that has not allocated its buffers yet and is at
  class 0, a force kernel that always writes zero accelerations, no additional
  forces, and \<open>integrator_max_dt = 1\<close>: after 100 calls of the step routine the
  particle is at exactly \<open>(100, 0, 0)\<close>, its velocity is unchanged, and the
  compensated-summation residuals \<open>csx\<close> and \<open>csv\<close> of its three components are
  exactly \<open>+0\<close>.
\<close>

theorem free_drift_100_steps:
  assumes g: "gravity cfg = (\<lambda>ps i. (0, 0, 0))" and h: "problem_additional_forces cfg = None"
    and mx: "integrator_max_dt cfg = 1"
    and st: "particles st = [p]" "N3allocated st = 0" "dtexp_g st = 0"
    and p: "p_x p = 0" "p_y p = 0" "p_z p = 0" "vx p = 1" "vy p = 0" "vz p = 0"
      "ax p = 0" "ay p = 0" "az p = 0" "dtexp p = 0"
  shows "let st' = ((\<lambda>s. snd (integrator_ias15_step cfg s)) ^^ 100) st;
             p' = particles st' ! 0
         in length (particles st') = 1
          \<and> p_x p' = lit 100 \<and> p_y p' = 0 \<and> p_z p' = 0
          \<and> vx p' = vx p \<and> vy p' = vy p \<and> vz p' = vz p
          \<and> csx st' 0 = 0 \<and> csx st' 1 = 0 \<and> csx st' 2 = 0
          \<and> csv st' 0 = 0 \<and> csv st' 1 = 0 \<and> csv st' 2 = 0"
proof -
  define s99 where "s99 = ((\<lambda>s. snd (integrator_ias15_step cfg s)) ^^ 99) st"
  have dr: "drift 0 st" using st p by (simp add: drift_def zero_double_def)
  have cs: "N3allocated st < 3 \<or> cs_zero st" using st(2) by simp
  have a: "drift 99 s99" "N3allocated s99 < 3 \<or> cs_zero s99"
    using drift_steps[OF g h mx dr cs, of 99] by (simp_all add: s99_def)
  have n: "(100::nat) = Suc 99" by simp
  have e: "((\<lambda>s. snd (integrator_ias15_step cfg s)) ^^ 100) st
             = snd (integrator_ias15_step cfg s99)"
    unfolding n s99_def by (simp only: funpow.simps o_apply)
  have b: "(99::nat) + 1 < 2 ^ 53" by simp
  note r = drift_step[OF g h mx a b]
  have c: "csx (snd (integrator_ias15_step cfg s99)) 0 = 0"
    "csx (snd (integrator_ias15_step cfg s99)) 1 = 0"
    "csx (snd (integrator_ias15_step cfg s99)) 2 = 0"
    "csv (snd (integrator_ias15_step cfg s99)) 0 = 0"
    "csv (snd (integrator_ias15_step cfg s99)) 1 = 0"
    "csv (snd (integrator_ias15_step cfg s99)) 2 = 0"
    using r(2) by (simp_all add: cs_zero_def)
  show ?thesis
    unfolding Let_def e using r(1) c p by (simp add: drift_def)
qed

theorem free_drift_100_steps_witness:
  "gravity cfg_zero = (\<lambda>ps i. (0, 0, 0)) \<and> problem_additional_forces cfg_zero = None
   \<and> integrator_max_dt cfg_zero = 1
   \<and> particles (st_fresh [p_zero\<lparr>vx := 1\<rparr>]) = [p_zero\<lparr>vx := 1\<rparr>]
   \<and> N3allocated (st_fresh [p_zero\<lparr>vx := 1\<rparr>]) = 0
   \<and> p_x (particles (((\<lambda>s. snd (integrator_ias15_step cfg_zero s)) ^^ 100)
                        (st_fresh [p_zero\<lparr>vx := 1\<rparr>])) ! 0) = lit 100
   \<and> vx (particles (((\<lambda>s. snd (integrator_ias15_step cfg_zero s)) ^^ 100)
                       (st_fresh [p_zero\<lparr>vx := 1\<rparr>])) ! 0) = 1
   \<and> csx (((\<lambda>s. snd (integrator_ias15_step cfg_zero s)) ^^ 100)
            (st_fresh [p_zero\<lparr>vx := 1\<rparr>])) 0 = 0
   \<and> csv (((\<lambda>s. snd (integrator_ias15_step cfg_zero s)) ^^ 100)
            (st_fresh [p_zero\<lparr>vx := 1\<rparr>])) 0 = 0"
  using free_drift_100_steps [of cfg_zero "st_fresh [p_zero\<lparr>vx := 1\<rparr>]" "p_zero\<lparr>vx := 1\<rparr>"]
  by (simp add: cfg_zero_def st_fresh_def p_zero_def Let_def)


end
